theory Spec2Isabelle
  imports Complex_Main "HOL-Library.AList" "HOL-Library.Log_Nat"
begin

section \<open>Data model (src/types/game.ts)\<close>

text \<open>
  The enums of \<^verbatim>\<open>src/types/game.ts\<close> become datatypes. A \<^verbatim>\<open>Position\<close> is the pair
  \<open>(x, y)\<close>; a \<^verbatim>\<open>TileKey\<close> is the string \<^verbatim>\<open>`${x},${y}`\<close>, which for integer coordinates
  is in bijection with the pair, so keys are pairs as well. JavaScript numbers that hold
  counts, coordinates and levels are \<open>int\<close>; currencies, costs, modifier values,
  probabilities and thresholds are \<open>rat\<close>. A JavaScript \<^verbatim>\<open>Map\<close> is an association list in
  insertion order (\<open>map_of\<close> reads it, \<open>AList.update\<close> writes it: in place for a key that
  is present, at the end for a new one); a JavaScript \<^verbatim>\<open>Set\<close> is a list in insertion order.
\<close>

datatype TileVisibility = Hidden | Seen | Visible

datatype Owner = Neutral | Player | AI1 | AI2 | AI3 | Shadow

datatype ActionType =
  Explore | Move | Capture | ManageFortify | ManagePurify | ManageBuildShrine |
  ManageRepair | Sanctify | SummonUnit | UseAbility | UseMiracle | EndTurn

datatype DomainType = Fire | Water | Earth | Air | Life | Death | Order | Chaos

datatype TileType =
  Plains | Forest | Swamp | Hills | Desert | Mountain | Coast | WaterTile |
  SacredWell | Village | AncientRuins | Volcano | SnowPeak

datatype UnitType =
  Explorer | Warden | Cultivator | Herald | Guardian | ElementalAvatar | Shadowborn | Wight

datatype GamePhase = Setup | Playing | Victory | Defeat

datatype VictoryCondition = Conquest | Sanctifier | ShadowAccord | RelicAscension

datatype ModifierType =
  CaptureCost | MoveCost | StabilityMod | DivinityIncome | FaithIncome | Perception |
  ShadowResistance | SanctifyCost | ShadowEnergyIncome

datatype Rarity = Common | Rare | Mythic

datatype Personality = Aggressive | Defensive | Balanced | Opportunist

datatype Aggression = AggrLow | AggrNormal | AggrHigh

datatype FactionAlignment = Hostile | NeutralFaction | Friendly

type_synonym Position = "int \<times> int"

type_synonym TileKey = "int \<times> int"

record Tile =
  position :: Position
  ttype :: TileType
  owner :: Owner
  stability :: int
  corruption :: int
  sanctified :: bool
  domainAttunement :: "DomainType option"
  visibility :: TileVisibility
  hasShrine :: bool
  hasFortification :: bool
  eventTriggered :: bool
  divinityYield :: int
  faithYield :: int
  moveCost :: int
  impassable :: bool

record Unit =
  uid :: string
  utype :: UnitType
  uowner :: Owner
  upos :: Position
  movePoints :: int
  maxMovePoints :: int
  perception :: int
  abilities :: "string list"
  cooldowns :: "(string \<times> int) list"
  turnsAlive :: int

record GameModifier =
  mtype :: ModifierType
  mvalue :: rat

record Relic =
  rarity :: Rarity
  rpassive :: "GameModifier list option"
  victoryPoints :: "rat option"

record ResourceCost =
  cdivinity :: "rat option"
  cfaith :: "rat option"
  cshadowEnergy :: "rat option"

record Miracle =
  mid :: string
  mcost :: ResourceCost
  isUsed :: bool

text \<open>
  \<^verbatim>\<open>victoryProgress\<close> holds percentages computed by a floating-point division whose
  divisor can be zero, so its values are JavaScript numbers in full: a rational,
  \<^verbatim>\<open>Infinity\<close>, \<^verbatim>\<open>-Infinity\<close> or \<^verbatim>\<open>NaN\<close>.
\<close>

datatype JSNumber = Num rat | PosInf | NegInf | NaN

record PlayerState =
  pid :: string
  powner :: Owner
  domain :: DomainType
  isAI :: bool
  divinity :: rat
  faith :: rat
  shadowEnergy :: rat
  aegis :: rat
  units :: "Unit list"
  ownedTiles :: "TileKey list"
  sanctifiedTiles :: "TileKey list"
  relics :: "Relic list"
  miracles :: "Miracle list"
  victoryProgress :: "(VictoryCondition \<times> JSNumber) list"
  capturedThisTurn :: int
  sanctifiedThisTurn :: int
  aiPersonality :: "Personality option"

record GlobalEvent =
  eid :: string
  duration :: int

record GameState =
  turn :: int
  phase :: GamePhase
  currentPlayer :: Owner
  players :: "(Owner \<times> PlayerState) list"
  tiles :: "(TileKey \<times> Tile) list"
  gunits :: "(string \<times> Unit) list"
  shadowInfluence :: int
  shadowAlignmentMeter :: "(Owner \<times> int) list"
  neutralFactionAlignment :: FactionAlignment
  activeGlobalEvents :: "GlobalEvent list"
  victoryConditions :: "VictoryCondition list"
  victoryThresholds :: "(VictoryCondition \<times> rat) list"
  mapSize :: "int \<times> int"
  revealedTiles :: "TileKey list"
  shadowAggression :: Aggression
  encircleRule :: bool

text \<open>
  The messages the engine attaches to an action; the numbers a template string formats
  are kept as arguments.
\<close>

datatype Message =
  InvalidAction | CannotCaptureImpassable | AlreadyOwn | InsufficientDivinity int rat |
  Captured Position

record GameAction =
  atype :: ActionType
  playerId :: string
  targetTile :: "Position option"
  unitId :: "string option"
  abilityId :: "string option"
  miracleId :: "string option"
  cost :: "ResourceCost option"
  success :: bool
  message :: "Message option"

record ShadowSpreadConfig =
  base :: rat
  perCorruptedNeighbor :: rat
  perSanctifiedNeighbor :: rat
  wardenAdjacent :: rat
  orderOwner :: rat
  spreadMin :: rat
  spreadMax :: rat

record GameConfig =
  baseDivinity :: rat
  captureBaseCost :: rat
  sanctifyBaseCost :: rat
  stabilityCap :: int
  shadowSpread :: ShadowSpreadConfig

text \<open>The default configuration of \<^verbatim>\<open>src/config/gameConfig.ts\<close>.\<close>

definition defaultGameConfig :: GameConfig where
  "defaultGameConfig =
     \<lparr>baseDivinity = 6, captureBaseCost = 4, sanctifyBaseCost = 6, stabilityCap = 10,
      shadowSpread = \<lparr>base = 1/10, perCorruptedNeighbor = 1/20,
        perSanctifiedNeighbor = -3/100, wardenAdjacent = -1/20, orderOwner = -1/4,
        spreadMin = 1/50, spreadMax = 3/5\<rparr>\<rparr>"


definition MAX_FAITH_PER_TURN :: rat where "MAX_FAITH_PER_TURN = 10"


subsection \<open>Randomness\<close>

text \<open>
  \<^verbatim>\<open>Math.random()\<close> and \<^verbatim>\<open>crypto.randomUUID()\<close> are the program's only inputs besides
  its arguments. An environment holds the sequence of values each of them returns and
  how many have been consumed; a function that calls one of them takes the environment
  and returns it advanced.
\<close>

record Env =
  draws :: "nat \<Rightarrow> rat"
  ndraws :: nat
  uuids :: "nat \<Rightarrow> string"
  nuuids :: nat

definition nextRandom :: "Env \<Rightarrow> rat \<times> Env" where
  "nextRandom e = (draws e (ndraws e), e\<lparr>ndraws := ndraws e + 1\<rparr>)"

definition nextUUID :: "Env \<Rightarrow> string \<times> Env" where
  "nextUUID e = (uuids e (nuuids e), e\<lparr>nuuids := nuuids e + 1\<rparr>)"

subsection \<open>JavaScript collections\<close>

text \<open>\<^verbatim>\<open>Set.add\<close> keeps the first insertion; \<^verbatim>\<open>Set.delete\<close> removes the element.\<close>

definition set_add :: "'a \<Rightarrow> 'a list \<Rightarrow> 'a list" where
  "set_add k xs = (if k \<in> set xs then xs else xs @ [k])"

definition set_delete :: "'a \<Rightarrow> 'a list \<Rightarrow> 'a list" where
  "set_delete k xs = removeAll k xs"

text \<open>
  An object reached through a \<^verbatim>\<open>Map\<close> is mutated in place: the entry of its key is
  rewritten where it stands, and nothing happens when the key is absent.
\<close>

definition modify :: "'k \<Rightarrow> ('v \<Rightarrow> 'v) \<Rightarrow> ('k \<times> 'v) list \<Rightarrow> ('k \<times> 'v) list" where
  "modify k f al = (case map_of al k of None \<Rightarrow> al | Some v \<Rightarrow> AList.update k (f v) al)"

definition modifyTile :: "TileKey \<Rightarrow> (Tile \<Rightarrow> Tile) \<Rightarrow> GameState \<Rightarrow> GameState" where
  "modifyTile k f st = st\<lparr>tiles := modify k f (tiles st)\<rparr>"

definition modifyPlayer :: "Owner \<Rightarrow> (PlayerState \<Rightarrow> PlayerState) \<Rightarrow> GameState \<Rightarrow> GameState" where
  "modifyPlayer k f st = st\<lparr>players := modify k f (players st)\<rparr>"

section \<open>Resource Ledger (ResourceSystem)\<close>





section \<open>Double-precision sums\<close>

text \<open>
  A JavaScript number is an IEEE 754 double, and \<^verbatim>\<open>+=\<close> and \<^verbatim>\<open>-=\<close> round the exact
  result to the nearest double, ties to the even mantissa. A finite double is
  represented by the rational it denotes. \<open>ilog2 x\<close> is the exponent of a positive \<open>x\<close>
  (the \<open>e\<close> with \<open>2\<^sup>e \<le> x < 2\<^sup>e\<^sup>+\<^sup>1\<close>); \<open>toDouble x\<close> rounds \<open>x\<close> to 53 significant bits, or
  to a multiple of \<open>2\<^sup>-\<^sup>1\<^sup>0\<^sup>7\<^sup>4\<close> in the subnormal range. Overflow to \<^verbatim>\<open>Infinity\<close> (a
  magnitude of \<open>2\<^sup>1\<^sup>0\<^sup>2\<^sup>4\<close> or more) is not represented.
\<close>

definition ilog2 :: "rat \<Rightarrow> int" where
  "ilog2 x = (if 1 \<le> x then bitlen \<lfloor>x\<rfloor> - 1 else - bitlen (\<lceil>1 / x\<rceil> - 1))"

definition roundHalfEven :: "rat \<Rightarrow> int" where
  "roundHalfEven x =
     (let f = \<lfloor>x\<rfloor>; r = x - of_int f
      in if r < 1 / 2 then f else if 1 / 2 < r then f + 1 else if even f then f else f + 1)"

definition toDouble :: "rat \<Rightarrow> rat" where
  "toDouble x =
     (if x = 0 then 0
      else (let e = max (ilog2 \<bar>x\<bar> - 52) (- 1074)
            in of_int (roundHalfEven (x / 2 powi e)) * 2 powi e))"


section \<open>Capture Resolver (CaptureSystem)\<close>

text \<open>
  \<^verbatim>\<open>getNeighbors\<close> is the same private method in every system: the four orthogonal
  positions, north, east, south, west, kept when inside the map.
\<close>

definition inBounds :: "GameState \<Rightarrow> int \<times> int \<Rightarrow> bool" where
  "inBounds st p = (0 \<le> fst p \<and> fst p < fst (mapSize st) \<and> 0 \<le> snd p \<and> snd p < snd (mapSize st))"

definition getNeighbors :: "int \<Rightarrow> int \<Rightarrow> GameState \<Rightarrow> TileKey list" where
  "getNeighbors x y st = filter (inBounds st) [(x, y - 1), (x + 1, y), (x, y + 1), (x - 1, y)]"

definition calculateAdjacencyBonus :: "GameState \<Rightarrow> PlayerState \<Rightarrow> Tile \<Rightarrow> int" where
  "calculateAdjacencyBonus st player tile =
     (let neighbors = getNeighbors (fst (position tile)) (snd (position tile)) st;
          ownedNeighborCount =
            fold (\<lambda>neighborKey n.
                    case map_of (tiles st) neighborKey of
                      None \<Rightarrow> n
                    | Some neighbor \<Rightarrow> if owner neighbor = powner player then n + 1 else n)
              neighbors (0::int)
      in if ownedNeighborCount \<ge> 4 then 2 else if ownedNeighborCount \<ge> 2 then 1 else 0)"

definition getDomainCaptureModifier :: "DomainType \<Rightarrow> Tile \<Rightarrow> rat" where
  "getDomainCaptureModifier d tile =
     (case d of
        Fire \<Rightarrow> if ttype tile = Desert \<or> ttype tile = Hills then -1 else 0
      | Order \<Rightarrow> -1/2
      | _ \<Rightarrow> 0)"

definition calculateUnitSupport :: "GameState \<Rightarrow> PlayerState \<Rightarrow> Tile \<Rightarrow> int" where
  "calculateUnitSupport st player tile =
     fold (\<lambda>u support.
             if utype u = Herald then
               (let distance = \<bar>fst (upos u) - fst (position tile)\<bar> +
                               \<bar>snd (upos u) - snd (position tile)\<bar>
                in if distance = 1 then support + 1 else support)
             else support)
       (units player) 0"

text \<open>
  The cost is one variable updated by \<^verbatim>\<open>+=\<close> and \<^verbatim>\<open>-=\<close>: every update rounds the running
  sum to a double before the next one reads it.
\<close>

definition applyRelicCaptureModifiers :: "PlayerState \<Rightarrow> rat \<Rightarrow> rat" where
  "applyRelicCaptureModifiers player cost0 =
     fold (\<lambda>relic c.
             case rpassive relic of
               None \<Rightarrow> c
             | Some ms \<Rightarrow>
                 fold (\<lambda>m c'. if mtype m = CaptureCost then toDouble (c' + mvalue m) else c') ms c)
       (relics player) cost0"

definition calculateCaptureCost :: "GameConfig \<Rightarrow> GameState \<Rightarrow> PlayerState \<Rightarrow> Tile \<Rightarrow> int" where
  "calculateCaptureCost cfg st player tile =
     (let c0 = captureBaseCost cfg;
          c1 = toDouble (c0 + of_int (stability tile));
          adjacencyBonus = calculateAdjacencyBonus st player tile;
          c2 = toDouble (c1 - of_int adjacencyBonus);
          domainModifier = getDomainCaptureModifier (domain player) tile;
          c3 = toDouble (c2 + domainModifier);
          unitSupport = calculateUnitSupport st player tile;
          c4 = toDouble (c3 - of_int unitSupport);
          c5 = (if corruption tile > 0 then toDouble (c4 + 1) else c4);
          c6 = applyRelicCaptureModifiers player c5
      in max 1 \<lfloor>c6\<rfloor>)"

text \<open>
  The resolver reaches the acting player through the key \<^verbatim>\<open>state.currentPlayer\<close> and the
  tile through its key; every later statement mutates these two objects in place, so
  each step below rewrites the entry of that key.
\<close>

definition spawnWight :: "Owner \<Rightarrow> TileKey \<Rightarrow> Env \<Rightarrow> GameState \<Rightarrow> GameState \<times> Env" where
  "spawnWight pk tileKey e st =
     (case (map_of (players st) pk, map_of (tiles st) tileKey) of
        (Some player, Some tile) \<Rightarrow>
          (let (i, e') = nextUUID e;
               wight = \<lparr>uid = i, utype = Wight, uowner = powner player, upos = position tile,
                        movePoints = 0, maxMovePoints = 0, perception = 0,
                        abilities = [''ephemeral''], cooldowns = [], turnsAlive = 0\<rparr>;
               st1 = modifyPlayer pk (\<lambda>p. p\<lparr>units := units p @ [wight]\<rparr>) st
           in (st1\<lparr>gunits := AList.update i wight (gunits st1)\<rparr>, e'))
      | _ \<Rightarrow> (st, e))"

definition applyDomainCaptureEffects ::
  "Owner \<Rightarrow> TileKey \<Rightarrow> Env \<Rightarrow> GameState \<Rightarrow> GameState \<times> Env" where
  "applyDomainCaptureEffects pk tileKey e st =
     (case map_of (players st) pk of
        None \<Rightarrow> (st, e)
      | Some player \<Rightarrow>
         (case domain player of
            Death \<Rightarrow> spawnWight pk tileKey e st
          | Life \<Rightarrow> (modifyPlayer pk (\<lambda>p. p\<lparr>faith := faith p + 1\<rparr>) st, e)
          | Order \<Rightarrow> (modifyTile tileKey (\<lambda>t. t\<lparr>stability := min 10 (stability t + 1)\<rparr>) st, e)
          | Chaos \<Rightarrow> (st, snd (nextRandom e))
          | _ \<Rightarrow> (st, e)))"

definition triggerTileEvents :: "Owner \<Rightarrow> TileKey \<Rightarrow> GameState \<Rightarrow> GameState" where
  "triggerTileEvents pk tileKey st =
     (case (map_of (players st) pk, map_of (tiles st) tileKey) of
        (Some player, Some tile) \<Rightarrow>
          if eventTriggered tile then st
          else (case ttype tile of
                  AncientRuins \<Rightarrow> modifyTile tileKey (\<lambda>t. t\<lparr>eventTriggered := True\<rparr>) st
                | SacredWell \<Rightarrow>
                    modifyTile tileKey (\<lambda>t. t\<lparr>eventTriggered := True\<rparr>)
                      (modifyPlayer pk (\<lambda>p. p\<lparr>divinity := divinity p + 2, faith := faith p + 1\<rparr>) st)
                | Village \<Rightarrow>
                    (let alignment = (case map_of (shadowAlignmentMeter st) (powner player) of
                                        None \<Rightarrow> 0 | Some a \<Rightarrow> a)
                     in modifyTile tileKey (\<lambda>t. t\<lparr>eventTriggered := True\<rparr>)
                          (if alignment < -20
                           then modifyTile tileKey (\<lambda>t. t\<lparr>stability := max 1 (stability t - 1)\<rparr>) st
                           else modifyPlayer pk (\<lambda>p. p\<lparr>faith := faith p + 1\<rparr>) st))
                | _ \<Rightarrow> st)
      | _ \<Rightarrow> st)"

definition removeFromPreviousOwner :: "Owner \<Rightarrow> TileKey \<Rightarrow> GameState \<Rightarrow> GameState" where
  "removeFromPreviousOwner previousOwner tileKey st =
     (if previousOwner \<noteq> Neutral \<and> previousOwner \<noteq> Shadow
      then modifyPlayer previousOwner
             (\<lambda>p. p\<lparr>ownedTiles := set_delete tileKey (ownedTiles p),
                     sanctifiedTiles := set_delete tileKey (sanctifiedTiles p)\<rparr>) st
      else st)"

definition desanctify :: "Tile \<Rightarrow> Tile" where
  "desanctify t =
     (if sanctified t
      then t\<lparr>sanctified := False, domainAttunement := None,
              divinityYield := (if divinityYield t > 0 then max 0 (divinityYield t - 1)
                                else divinityYield t)\<rparr>
      else t)"

definition executeCapture ::
  "GameConfig \<Rightarrow> Env \<Rightarrow> GameState \<Rightarrow> GameAction \<Rightarrow> bool \<times> GameState \<times> GameAction \<times> Env" where
  "executeCapture cfg e st action =
     (case targetTile action of
        None \<Rightarrow> (False, st, action, e)
      | Some tileKey \<Rightarrow>
         (case map_of (players st) (currentPlayer st) of
            None \<Rightarrow> (False, st, action, e)
          | Some player \<Rightarrow>
             (case map_of (tiles st) tileKey of
                None \<Rightarrow> (False, st, action\<lparr>message := Some CannotCaptureImpassable\<rparr>, e)
              | Some tile \<Rightarrow>
                 if impassable tile
                 then (False, st, action\<lparr>message := Some CannotCaptureImpassable\<rparr>, e)
                 else if owner tile = powner player
                 then (False, st, action\<lparr>message := Some AlreadyOwn\<rparr>, e)
                 else
                  (let cost = calculateCaptureCost cfg st player tile in
                   if divinity player < of_int cost
                   then (False, st,
                         action\<lparr>message := Some (InsufficientDivinity cost (divinity player))\<rparr>, e)
                   else
                    (let pk = currentPlayer st;
                         previousOwner = owner tile;
                         st1 = removeFromPreviousOwner previousOwner tileKey st;
                         st2 = modifyTile tileKey (\<lambda>t. t\<lparr>owner := powner player\<rparr>) st1;
                         st3 = modifyPlayer pk
                                 (\<lambda>p. p\<lparr>ownedTiles := set_add tileKey (ownedTiles p)\<rparr>) st2;
                         st4 = modifyTile tileKey
                                 (\<lambda>t. t\<lparr>stability := max 1 (stability t - 1)\<rparr>) st3;
                         st5 = modifyTile tileKey desanctify st4;
                         st6 = modifyPlayer pk
                                 (\<lambda>p. p\<lparr>divinity := divinity p - of_int cost,
                                         capturedThisTurn := capturedThisTurn p + 1\<rparr>) st5;
                         (st7, e') = applyDomainCaptureEffects pk tileKey e st6;
                         st8 = triggerTileEvents pk tileKey st7
                     in (True, st8,
                         action\<lparr>cost := Some \<lparr>cdivinity = Some (of_int cost), cfaith = None,
                                               cshadowEnergy = None\<rparr>,
                                message := Some (Captured (position tile))\<rparr>, e'))))))"


subsection \<open>The capture cost as the specification words it\<close>

text \<open>
  The specification's formula, term by term: the number of orthogonal neighbours owned
  by the player, the adjacency bonus read off that number, one point of support per
  herald at Manhattan distance 1, and the sum of the relics' capture-cost modifiers.
\<close>

definition spec_ownedNeighbors :: "GameState \<Rightarrow> PlayerState \<Rightarrow> Tile \<Rightarrow> nat" where
  "spec_ownedNeighbors st player tile =
     (let x = fst (position tile); y = snd (position tile)
      in card {k \<in> {(x, y - 1), (x + 1, y), (x, y + 1), (x - 1, y)}.
                 inBounds st k \<and> (\<exists>n. map_of (tiles st) k = Some n \<and> owner n = powner player)})"

definition spec_adjacencyBonus :: "nat \<Rightarrow> int" where
  "spec_adjacencyBonus n = (if n \<ge> 4 then 2 else if n \<ge> 2 then 1 else 0)"

definition spec_unitSupport :: "PlayerState \<Rightarrow> Tile \<Rightarrow> int" where
  "spec_unitSupport player tile =
     int (length (filter (\<lambda>u. utype u = Herald \<and>
                               \<bar>fst (upos u) - fst (position tile)\<bar> +
                               \<bar>snd (upos u) - snd (position tile)\<bar> = 1)
                    (units player)))"

definition spec_corruptionPenalty :: "Tile \<Rightarrow> rat" where
  "spec_corruptionPenalty tile = (if corruption tile > 0 then 1 else 0)"

definition spec_relicModifierList :: "PlayerState \<Rightarrow> rat list" where
  "spec_relicModifierList player =
     map mvalue (filter (\<lambda>m. mtype m = CaptureCost)
       (concat (map (\<lambda>r. case rpassive r of None \<Rightarrow> [] | Some ms \<Rightarrow> ms) (relics player))))"

definition spec_relicModifiers :: "PlayerState \<Rightarrow> rat" where
  "spec_relicModifiers player = sum_list (spec_relicModifierList player)"

definition spec_captureCost :: "GameConfig \<Rightarrow> GameState \<Rightarrow> PlayerState \<Rightarrow> Tile \<Rightarrow> int" where
  "spec_captureCost cfg st player tile =
     max 1 \<lfloor>captureBaseCost cfg + of_int (stability tile)
             - of_int (spec_adjacencyBonus (spec_ownedNeighbors st player tile))
             + getDomainCaptureModifier (domain player) tile
             - of_int (spec_unitSupport player tile)
             + spec_corruptionPenalty tile
             + spec_relicModifiers player\<rfloor>"

text \<open>
  The formula is a sum of exact numbers. The inputs on which the program's running sum
  of doubles is that exact sum: the base cost and every relic modifier is a whole or a
  half number (the other terms always are), and the magnitudes of all the terms add up
  to less than \<open>2\<^sup>5\<^sup>2\<close>, so that no addition has anything to round.
\<close>

definition halfInteger :: "rat \<Rightarrow> bool" where
  "halfInteger x = (of_int \<lfloor>2 * x\<rfloor> = 2 * x)"

definition spec_exactSums :: "GameConfig \<Rightarrow> PlayerState \<Rightarrow> Tile \<Rightarrow> bool" where
  "spec_exactSums cfg player tile =
     (halfInteger (captureBaseCost cfg) \<and>
      list_all halfInteger (spec_relicModifierList player) \<and>
      \<bar>captureBaseCost cfg\<bar> + \<bar>of_int (stability tile)\<bar> + of_int (spec_unitSupport player tile) + 4 +
        sum_list (map abs (spec_relicModifierList player)) < 2 ^ 52)"

text \<open>
  The scenario of the specification: base cost 4, stability 3, no owned neighbour, no
  domain, unit or relic modifier, no corruption.
\<close>

definition captureScenario :: "GameConfig \<Rightarrow> GameState \<Rightarrow> PlayerState \<Rightarrow> Tile \<Rightarrow> bool" where
  "captureScenario cfg st player tile =
     (captureBaseCost cfg = 4 \<and> stability tile = 3 \<and> spec_ownedNeighbors st player tile = 0 \<and>
      getDomainCaptureModifier (domain player) tile = 0 \<and> spec_unitSupport player tile = 0 \<and>
      spec_relicModifierList player = [] \<and> corruption tile = 0)"

text \<open>
  A capture request the resolver gets as far as pricing: the action names a tile of the
  map that is passable and not the acting player's, and the acting player exists.
\<close>

definition captureRequest :: "GameState \<Rightarrow> GameAction \<Rightarrow> PlayerState \<Rightarrow> TileKey \<Rightarrow> Tile \<Rightarrow> bool" where
  "captureRequest st action player tileKey tile =
     (targetTile action = Some tileKey \<and> map_of (players st) (currentPlayer st) = Some player \<and>
      map_of (tiles st) tileKey = Some tile \<and> \<not> impassable tile \<and> owner tile \<noteq> powner player)"


section \<open>Corruption Spread Engine (ShadowSystem)\<close>

text \<open>
  The scan of \<^verbatim>\<open>spreadShadow\<close> reads the state and writes only the local map
  \<^verbatim>\<open>tilesToCorrupt\<close>; every candidate that reaches the roll consumes one value of
  \<^verbatim>\<open>Math.random()\<close>.
\<close>

definition countNeighborhood :: "GameState \<Rightarrow> TileKey list \<Rightarrow> int \<times> int \<times> bool" where
  "countNeighborhood st nns =
     fold (\<lambda>nnKey (corruptedNeighborCount, sanctifiedNeighborCount, hasWardenAdjacent).
             case map_of (tiles st) nnKey of
               None \<Rightarrow> (corruptedNeighborCount, sanctifiedNeighborCount, hasWardenAdjacent)
             | Some nn \<Rightarrow>
                 ((if corruption nn > 0 \<or> owner nn = Shadow
                   then corruptedNeighborCount + 1 else corruptedNeighborCount),
                  (if sanctified nn then sanctifiedNeighborCount + 1 else sanctifiedNeighborCount),
                  (hasWardenAdjacent \<or>
                   list_ex (\<lambda>u. utype u = Warden \<and> fst (upos u) = fst (position nn) \<and>
                                 snd (upos u) = snd (position nn))
                     (map snd (gunits st)))))
       nns (0, 0, False)"

definition spreadProbability :: "GameConfig \<Rightarrow> GameState \<Rightarrow> Tile \<Rightarrow> rat" where
  "spreadProbability cfg st neighbor =
     (let c = shadowSpread cfg;
          neighborOfNeighbors =
            getNeighbors (fst (position neighbor)) (snd (position neighbor)) st;
          (corruptedNeighborCount, sanctifiedNeighborCount, hasWardenAdjacent) =
            countNeighborhood st neighborOfNeighbors;
          p1 = base c + perCorruptedNeighbor c * of_int corruptedNeighborCount;
          p2 = p1 + perSanctifiedNeighbor c * of_int sanctifiedNeighborCount;
          p3 = (if hasWardenAdjacent then p2 + wardenAdjacent c else p2);
          p4 = (case map_of (players st) (owner neighbor) of
                  None \<Rightarrow> p3
                | Some ownr \<Rightarrow> if domain ownr = Order then p3 + orderOwner c else p3);
          p5 = (case shadowAggression st of
                  AggrLow \<Rightarrow> p4 * (1/2)
                | AggrHigh \<Rightarrow> p4 * (3/2)
                | AggrNormal \<Rightarrow> p4)
      in max (spreadMin c) (min (spreadMax c) p5))"

text \<open>
  \<^verbatim>\<open>tilesToCorrupt.get(neighborKey) || neighbor.corruption\<close>: the recorded level, or the
  tile's own when none is recorded (or the recorded one is 0).
\<close>

definition currentCorruption :: "(TileKey \<times> int) list \<Rightarrow> TileKey \<Rightarrow> Tile \<Rightarrow> int" where
  "currentCorruption tilesToCorrupt neighborKey neighbor =
     (case map_of tilesToCorrupt neighborKey of
        None \<Rightarrow> corruption neighbor
      | Some v \<Rightarrow> if v \<noteq> 0 then v else corruption neighbor)"

definition spreadToNeighbor ::
  "GameConfig \<Rightarrow> GameState \<Rightarrow> TileKey \<Rightarrow> (TileKey \<times> int) list \<times> Env \<Rightarrow> (TileKey \<times> int) list \<times> Env" where
  "spreadToNeighbor cfg st neighborKey acc =
     (case map_of (tiles st) neighborKey of
        None \<Rightarrow> acc
      | Some neighbor \<Rightarrow>
          if impassable neighbor then acc
          else if corruption neighbor \<ge> 2 \<and> owner neighbor = Shadow then acc
          else
            (let probability = spreadProbability cfg st neighbor;
                 (r, e') = nextRandom (snd acc)
             in if r < probability
                then (AList.update neighborKey
                        (currentCorruption (fst acc) neighborKey neighbor + 1) (fst acc), e')
                else (fst acc, e')))"

definition spreadScan :: "GameConfig \<Rightarrow> GameState \<Rightarrow> Env \<Rightarrow> (TileKey \<times> int) list \<times> Env" where
  "spreadScan cfg st e =
     fold (\<lambda>(key, tile) acc.
             if corruption tile < 1 \<and> owner tile \<noteq> Shadow then acc
             else fold (spreadToNeighbor cfg st)
                    (getNeighbors (fst (position tile)) (snd (position tile)) st) acc)
       (tiles st) ([], e)"

definition applyCorruption :: "TileKey \<times> int \<Rightarrow> GameState \<Rightarrow> GameState" where
  "applyCorruption entry st =
     (let key = fst entry; corruptionLevel = snd entry in
      case map_of (tiles st) key of
        None \<Rightarrow> st
      | Some tile \<Rightarrow>
          (let st1 = modifyTile key (\<lambda>t. t\<lparr>corruption := min 2 corruptionLevel\<rparr>) st in
           if min 2 corruptionLevel \<ge> 2 then
             (let previousOwner = owner tile;
                  st2 = modifyTile key
                          (\<lambda>t. t\<lparr>owner := Shadow, stability := 3, sanctified := False,
                                  domainAttunement := None\<rparr>) st1;
                  st3 = removeFromPreviousOwner previousOwner key st2
              in st3\<lparr>shadowInfluence := min 100 (shadowInfluence st3 + 1)\<rparr>)
           else st1))"

definition updateNeutralAlignment :: "GameState \<Rightarrow> GameState" where
  "updateNeutralAlignment st =
     (if shadowInfluence st > 60 then st\<lparr>neutralFactionAlignment := Hostile\<rparr>
      else if shadowInfluence st > 30 then st\<lparr>neutralFactionAlignment := NeutralFaction\<rparr>
      else st\<lparr>neutralFactionAlignment := Friendly\<rparr>)"

definition spreadShadow :: "GameConfig \<Rightarrow> Env \<Rightarrow> GameState \<Rightarrow> GameState \<times> Env" where
  "spreadShadow cfg e st =
     (let (tilesToCorrupt, e') = spreadScan cfg st e;
          st1 = fold applyCorruption tilesToCorrupt st
      in (updateNeutralAlignment st1, e'))"

definition cleanseCorruption :: "Tile \<Rightarrow> int \<Rightarrow> Tile" where
  "cleanseCorruption tile amount =
     (let t1 = tile\<lparr>corruption := max 0 (corruption tile - amount)\<rparr>
      in if corruption t1 = 0 \<and> owner t1 = Shadow then t1\<lparr>owner := Neutral, stability := 1\<rparr>
         else t1)"

definition convertToShadow :: "Tile \<Rightarrow> Tile" where
  "convertToShadow tile =
     tile\<lparr>owner := Shadow, corruption := 2, stability := 3, sanctified := False,
          domainAttunement := None\<rparr>"

subsection \<open>The rolls of one spread pass\<close>

text \<open>
  The candidates of a pass, in the order the scan reaches them: for every tile that is
  corrupted or Shadow-owned, each neighbour that exists, is passable and is not already a
  Shadow tile at corruption 2. The \<open>i\<close>-th candidate is rolled against the \<open>i\<close>-th value
  of \<^verbatim>\<open>Math.random()\<close> of the pass; the roll succeeds when the value is below the
  candidate's spread probability.
\<close>

definition isCandidate :: "GameState \<Rightarrow> TileKey \<Rightarrow> bool" where
  "isCandidate st neighborKey =
     (case map_of (tiles st) neighborKey of
        None \<Rightarrow> False
      | Some neighbor \<Rightarrow> \<not> impassable neighbor \<and> \<not> (corruption neighbor \<ge> 2 \<and> owner neighbor = Shadow))"

definition spreadCandidates :: "GameState \<Rightarrow> TileKey list" where
  "spreadCandidates st =
     concat (map (\<lambda>(key, tile).
                    if corruption tile < 1 \<and> owner tile \<noteq> Shadow then []
                    else filter (isCandidate st)
                           (getNeighbors (fst (position tile)) (snd (position tile)) st))
               (tiles st))"

definition rollSucceeds :: "GameConfig \<Rightarrow> GameState \<Rightarrow> Env \<Rightarrow> nat \<Rightarrow> TileKey \<Rightarrow> bool" where
  "rollSucceeds cfg st e i neighborKey =
     (case map_of (tiles st) neighborKey of
        None \<Rightarrow> False
      | Some neighbor \<Rightarrow> draws e (ndraws e + i) < spreadProbability cfg st neighbor)"

fun rollsFrom :: "GameConfig \<Rightarrow> GameState \<Rightarrow> Env \<Rightarrow> nat \<Rightarrow> TileKey list \<Rightarrow> TileKey list" where
  "rollsFrom cfg st e i [] = []"
| "rollsFrom cfg st e i (k # ks) =
     (if rollSucceeds cfg st e i k then k # rollsFrom cfg st e (Suc i) ks
      else rollsFrom cfg st e (Suc i) ks)"

definition successfulRolls :: "GameConfig \<Rightarrow> GameState \<Rightarrow> Env \<Rightarrow> TileKey list" where
  "successfulRolls cfg st e = rollsFrom cfg st e 0 (spreadCandidates st)"

text \<open>What one successful roll against a tile writes into \<^verbatim>\<open>tilesToCorrupt\<close>.\<close>

definition recordSpread :: "GameState \<Rightarrow> TileKey \<Rightarrow> (TileKey \<times> int) list \<Rightarrow> (TileKey \<times> int) list" where
  "recordSpread st k m =
     (case map_of (tiles st) k of
        None \<Rightarrow> m
      | Some neighbor \<Rightarrow> AList.update k (currentCorruption m k neighbor + 1) m)"

text \<open>
  The tiles a pass converts: the entries of \<^verbatim>\<open>tilesToCorrupt\<close> that name a tile of the
  map and reach level 2.
\<close>

definition converts :: "GameState \<Rightarrow> TileKey \<times> int \<Rightarrow> bool" where
  "converts st entry = (map_of (tiles st) (fst entry) \<noteq> None \<and> snd entry \<ge> 2)"

definition spreadConversions :: "GameConfig \<Rightarrow> GameState \<Rightarrow> Env \<Rightarrow> TileKey list" where
  "spreadConversions cfg st e = map fst (filter (converts st) (fst (spreadScan cfg st e)))"


section \<open>Event effects that raise corruption (EventSystem)\<close>

text \<open>
  \<^verbatim>\<open>addCorruptionToRandomTiles\<close>: the keys of the tiles owned by another player, in map
  order; then \<open>min amount (length enemyTiles)\<close> times, a random index into that list
  (\<^verbatim>\<open>Math.floor(Math.random() * enemyTiles.length)\<close>) and one more level of corruption on
  the tile it names, capped at 2. An index outside the list names no tile.
\<close>

definition enemyTilesOf :: "GameState \<Rightarrow> PlayerState \<Rightarrow> TileKey list" where
  "enemyTilesOf st player =
     map fst (filter (\<lambda>(key, tile). owner tile \<noteq> powner player \<and> owner tile \<noteq> Neutral \<and>
                                     owner tile \<noteq> Shadow) (tiles st))"

definition randomIndex :: "rat \<Rightarrow> nat \<Rightarrow> int" where
  "randomIndex r n = \<lfloor>r * of_nat n\<rfloor>"

definition addCorruptionStep :: "TileKey list \<Rightarrow> GameState \<times> Env \<Rightarrow> GameState \<times> Env" where
  "addCorruptionStep enemyTiles acc =
     (let (r, e') = nextRandom (snd acc);
          i = randomIndex r (length enemyTiles)
      in if 0 \<le> i \<and> i < int (length enemyTiles)
         then (modifyTile (enemyTiles ! nat i)
                 (\<lambda>t. t\<lparr>corruption := min 2 (corruption t + 1)\<rparr>) (fst acc), e')
         else (fst acc, e'))"

definition addCorruptionToRandomTiles ::
  "PlayerState \<Rightarrow> int \<Rightarrow> Env \<Rightarrow> GameState \<Rightarrow> GameState \<times> Env" where
  "addCorruptionToRandomTiles player amount e st =
     (let enemyTiles = enemyTilesOf st player
      in ((addCorruptionStep enemyTiles) ^^ (nat (min amount (int (length enemyTiles))))) (st, e))"

text \<open>
  \<^verbatim>\<open>triggerTileEvent\<close>, for the player stored under \<open>pk\<close> and the tile stored under
  \<open>tileKey\<close>: on ancient ruins whose event has not fired, one of three outcomes, chosen
  by \<^verbatim>\<open>Math.floor(Math.random() * 3)\<close>.
\<close>

definition triggerTileEvent :: "Owner \<Rightarrow> TileKey \<Rightarrow> Env \<Rightarrow> GameState \<Rightarrow> GameState \<times> Env" where
  "triggerTileEvent pk tileKey e st =
     (case (map_of (players st) pk, map_of (tiles st) tileKey) of
        (Some player, Some tile) \<Rightarrow>
          if ttype tile = AncientRuins \<and> \<not> eventTriggered tile then
            (let (r, e') = nextRandom e;
                 outcome = randomIndex r 3;
                 st1 =
                   (if outcome = 0 then st
                    else if outcome = 1 then
                      modifyTile tileKey (\<lambda>t. t\<lparr>stability := min 10 (stability t + 2)\<rparr>)
                        (modifyPlayer pk (\<lambda>p. p\<lparr>divinity := min 20 (divinity p + 5)\<rparr>) st)
                    else if outcome = 2 then
                      modifyPlayer pk
                        (\<lambda>p. p\<lparr>shadowEnergy := min 10 (shadowEnergy p + 2),
                                divinity := min 20 (divinity p + 3)\<rparr>)
                        (modifyTile tileKey (\<lambda>t. t\<lparr>corruption := min 2 (corruption t + 1)\<rparr>) st)
                    else st)
             in (modifyTile tileKey (\<lambda>t. t\<lparr>eventTriggered := True\<rparr>) st1, e'))
          else (st, e)
      | _ \<Rightarrow> (st, e))"

subsection \<open>The corruption invariant\<close>

text \<open>Every tile at corruption 2 is owned by the Shadow.\<close>

definition corruptionInvariant :: "GameState \<Rightarrow> bool" where
  "corruptionInvariant st =
     list_all (\<lambda>(key, tile). if corruption tile = 2 then owner tile = Shadow else True) (tiles st)"


section \<open>Visibility Engine (FogOfWarSystem)\<close>

text \<open>
  \<^verbatim>\<open>getTilesInRadius\<close> walks \<^verbatim>\<open>x\<close> from \<^verbatim>\<open>centerX - radius\<close> to \<^verbatim>\<open>centerX + radius\<close> in steps
  of 1, and \<^verbatim>\<open>y\<close> likewise, and keeps the positions at Manhattan distance at most
  \<^verbatim>\<open>radius\<close> inside the map. The radius is a unit's perception plus relic modifiers, a
  rational; the centre is a unit position, a pair of integers. When the radius is not
  an integer, no \<^verbatim>\<open>x\<close> of the walk is one, and the keys it builds name no tile: the list
  of keys that can name a tile is then empty.
\<close>

definition getTilesInRadius :: "int \<Rightarrow> int \<Rightarrow> rat \<Rightarrow> GameState \<Rightarrow> TileKey list" where
  "getTilesInRadius centerX centerY radius st =
     (if radius \<noteq> of_int \<lfloor>radius\<rfloor> then []
      else (let r = \<lfloor>radius\<rfloor> in
            concat (map (\<lambda>x. concat (map (\<lambda>y.
                      if \<bar>x - centerX\<bar> + \<bar>y - centerY\<bar> \<le> r \<and> inBounds st (x, y)
                      then [(x, y)] else [])
                    [centerY - r..centerY + r]))
              [centerX - r..centerX + r])))"

definition applyRelicPerception :: "PlayerState \<Rightarrow> rat \<Rightarrow> rat" where
  "applyRelicPerception player p0 =
     fold (\<lambda>relic p.
             case rpassive relic of
               None \<Rightarrow> p
             | Some ms \<Rightarrow> fold (\<lambda>m p'. if mtype m = Perception then p' + mvalue m else p') ms p)
       (relics player) p0"

definition calculateUnitPerception :: "Unit \<Rightarrow> GameState \<Rightarrow> rat" where
  "calculateUnitPerception u st =
     (let p0 = of_int (perception u);
          p1 = (case map_of (tiles st) (upos u) of
                  None \<Rightarrow> p0
                | Some unitTile \<Rightarrow>
                    if ttype unitTile = Hills then
                      (case map_of (players st) (uowner u) of
                         None \<Rightarrow> p0
                       | Some player \<Rightarrow> if domain player = Air then p0 + 1 else p0)
                    else p0)
      in case map_of (players st) (uowner u) of
           None \<Rightarrow> p1
         | Some player \<Rightarrow> applyRelicPerception player p1)"

text \<open>
  \<^verbatim>\<open>tile.visibility = v; state.revealedTiles.add(key)\<close>, for a key that names a tile.
\<close>

definition reveal :: "TileKey \<Rightarrow> TileVisibility \<Rightarrow> GameState \<Rightarrow> GameState" where
  "reveal key v st =
     (case map_of (tiles st) key of
        None \<Rightarrow> st
      | Some tile \<Rightarrow>
          (modifyTile key (\<lambda>t. t\<lparr>visibility := v\<rparr>) st)
            \<lparr>revealedTiles := set_add key (revealedTiles st)\<rparr>)"

definition revealIfHidden :: "TileKey \<Rightarrow> GameState \<Rightarrow> GameState" where
  "revealIfHidden key st =
     (case map_of (tiles st) key of
        None \<Rightarrow> st
      | Some neighbor \<Rightarrow> if visibility neighbor = Hidden then reveal key Seen st else st)"

definition revealTilesAroundUnit :: "GameState \<Rightarrow> Unit \<Rightarrow> GameState" where
  "revealTilesAroundUnit st u =
     (let perc = calculateUnitPerception u st;
          tilesToReveal = getTilesInRadius (fst (upos u)) (snd (upos u)) perc st
      in fold (\<lambda>tileKey. reveal tileKey Visible) tilesToReveal st)"

definition revealSanctified :: "TileKey \<Rightarrow> GameState \<Rightarrow> GameState" where
  "revealSanctified tileKey st =
     (case map_of (tiles st) tileKey of
        None \<Rightarrow> st
      | Some tile \<Rightarrow>
          fold revealIfHidden (getNeighbors (fst (position tile)) (snd (position tile)) st)
            (reveal tileKey Visible st))"

definition downgradeVisible :: "GameState \<Rightarrow> GameState" where
  "downgradeVisible st =
     st\<lparr>tiles := map (\<lambda>(key, tile).
                         (key, if visibility tile = Visible then tile\<lparr>visibility := Seen\<rparr>
                               else tile))
                   (tiles st)\<rparr>"

definition updateVisibility :: "GameState \<Rightarrow> GameState" where
  "updateVisibility st =
     (case map_of (players st) (currentPlayer st) of
        None \<Rightarrow> st
      | Some currentPlayer' \<Rightarrow>
          (let st1 = downgradeVisible st;
               st2 = fold (\<lambda>u s. revealTilesAroundUnit s u) (units currentPlayer') st1
           in fold revealSanctified (sanctifiedTiles currentPlayer') st2))"

text \<open>The visible-tile set of a state: the keys of the tiles whose visibility is Visible.\<close>

definition visibleTiles :: "GameState \<Rightarrow> TileKey set" where
  "visibleTiles st = {k. \<exists>t. map_of (tiles st) k = Some t \<and> visibility t = Visible}"

text \<open>
  What a visibility update reads and what it writes: \<open>vis\<close> is the visibility of the
  tile under a key, \<open>terrain\<close> the tile without its visibility. Two states have the same
  frame when they differ at most in tile visibilities and the revealed set.
\<close>

definition vis :: "GameState \<Rightarrow> TileKey \<Rightarrow> TileVisibility option" where
  "vis st k = map_option visibility (map_of (tiles st) k)"

definition terrain :: "GameState \<Rightarrow> TileKey \<Rightarrow> Tile option" where
  "terrain st k = map_option (\<lambda>t. t\<lparr>visibility := Hidden\<rparr>) (map_of (tiles st) k)"

definition sameFrame :: "GameState \<Rightarrow> GameState \<Rightarrow> bool" where
  "sameFrame st st' =
     (players st' = players st \<and> mapSize st' = mapSize st \<and>
      currentPlayer st' = currentPlayer st \<and> terrain st' = terrain st)"

definition unitKeys :: "Unit \<Rightarrow> GameState \<Rightarrow> TileKey list" where
  "unitKeys u st =
     getTilesInRadius (fst (upos u)) (snd (upos u)) (calculateUnitPerception u st) st"


section \<open>Turn System (TurnSystem) and global events (EventSystem)\<close>

text \<open>
  A unit object is shared by its owner's \<^verbatim>\<open>units\<close> array and the global \<^verbatim>\<open>state.units\<close>
  table, where it is stored under its id: a write to a unit of a player is a write to the
  table's entry of that id.
\<close>

definition storeUnits :: "Unit list \<Rightarrow> (string \<times> Unit) list \<Rightarrow> (string \<times> Unit) list" where
  "storeUnits us g = fold (\<lambda>u. modify (uid u) (\<lambda>_. u)) us g"

definition modifyUnits :: "Owner \<Rightarrow> (Unit \<Rightarrow> Unit) \<Rightarrow> GameState \<Rightarrow> GameState" where
  "modifyUnits pk f st =
     (case map_of (players st) pk of
        None \<Rightarrow> st
      | Some player \<Rightarrow>
          (let us = map f (units player)
           in (modifyPlayer pk (\<lambda>p. p\<lparr>units := us\<rparr>) st)\<lparr>gunits := storeUnits us (gunits st)\<rparr>))"

definition applyRelicModifiers :: "ModifierType \<Rightarrow> PlayerState \<Rightarrow> rat \<Rightarrow> rat" where
  "applyRelicModifiers ty player x0 =
     fold (\<lambda>relic x.
             case rpassive relic of
               None \<Rightarrow> x
             | Some ms \<Rightarrow> fold (\<lambda>m x'. if mtype m = ty then x' + mvalue m else x') ms x)
       (relics player) x0"

definition calculateDivinityIncome :: "GameConfig \<Rightarrow> GameState \<Rightarrow> PlayerState \<Rightarrow> rat" where
  "calculateDivinityIncome cfg st player =
     (let i0 = baseDivinity cfg;
          i1 = fold (\<lambda>tileKey i. case map_of (tiles st) tileKey of
                                     None \<Rightarrow> i
                                   | Some tile \<Rightarrow> i + of_int (divinityYield tile))
                 (ownedTiles player) i0;
          domainBonus = 0;
          i2 = i1 + domainBonus;
          i3 = applyRelicModifiers DivinityIncome player i2
      in min 20 i3)"

definition calculateFaithIncome :: "GameState \<Rightarrow> PlayerState \<Rightarrow> rat" where
  "calculateFaithIncome st player =
     (let i1 = fold (\<lambda>tileKey i. case map_of (tiles st) tileKey of
                                     None \<Rightarrow> i
                                   | Some tile \<Rightarrow> i + of_int (faithYield tile))
                 (ownedTiles player) 0;
          i2 = (if domain player = Life
                then fold (\<lambda>tileKey i. case map_of (tiles st) tileKey of
                                          None \<Rightarrow> i
                                        | Some tile \<Rightarrow> if ttype tile = Village then i + 1 else i)
                       (ownedTiles player) i1
                else i1);
          i3 = applyRelicModifiers FaithIncome player i2
      in min 10 i3)"

definition calculateShadowEnergyIncome :: "GameState \<Rightarrow> PlayerState \<Rightarrow> rat" where
  "calculateShadowEnergyIncome st player =
     (let i1 = applyRelicModifiers ShadowEnergyIncome player 0;
          i2 = (if domain player = Death \<or> domain player = Chaos
                then fold (\<lambda>tileKey i. case map_of (tiles st) tileKey of
                                          None \<Rightarrow> i
                                        | Some tile \<Rightarrow> if corruption tile > 0 then i + 1/2 else i)
                       (ownedTiles player) i1
                else i1)
      in of_int \<lfloor>i2\<rfloor>)"

definition refreshUnit :: "Unit \<Rightarrow> Unit" where
  "refreshUnit u =
     u\<lparr>movePoints := maxMovePoints u,
       cooldowns := map (\<lambda>(k, v). (k, if v > 0 then v - 1 else v)) (cooldowns u)\<rparr>"

definition isExpiredWight :: "Unit \<Rightarrow> bool" where
  "isExpiredWight u = (utype u = Wight \<and> turnsAlive u \<ge> 1)"

definition removeExpiredWights :: "Owner \<Rightarrow> GameState \<Rightarrow> GameState" where
  "removeExpiredWights pk st =
     (case map_of (players st) pk of
        None \<Rightarrow> st
      | Some player \<Rightarrow>
          (modifyPlayer pk (\<lambda>p. p\<lparr>units := filter (\<lambda>u. \<not> isExpiredWight u) (units player)\<rparr>) st)
            \<lparr>gunits := fold (\<lambda>u g. if isExpiredWight u then AList.delete (uid u) g else g)
                         (units player) (gunits st)\<rparr>)"

definition TurnSystem_startTurn :: "GameConfig \<Rightarrow> Owner \<Rightarrow> GameState \<Rightarrow> GameState" where
  "TurnSystem_startTurn cfg pk st =
     (let st1 = modifyPlayer pk (\<lambda>p. p\<lparr>divinity := calculateDivinityIncome cfg st p\<rparr>) st;
          st2 = modifyPlayer pk (\<lambda>p. p\<lparr>faith := faith p + calculateFaithIncome st1 p\<rparr>) st1;
          st3 = modifyPlayer pk
                  (\<lambda>p. p\<lparr>shadowEnergy :=
                            min 10 (shadowEnergy p + calculateShadowEnergyIncome st2 p)\<rparr>) st2;
          st4 = modifyUnits pk refreshUnit st3;
          st5 = removeExpiredWights pk st4
      in modifyPlayer pk (\<lambda>p. p\<lparr>capturedThisTurn := 0, sanctifiedThisTurn := 0\<rparr>) st5)"

text \<open>
  \<^verbatim>\<open>TurnSystem.endTurn\<close> converts what is left of the player's divinity with the factor
  \<^verbatim>\<open>this.config.shadowSpread.base\<close>.
\<close>

definition TurnSystem_endTurn :: "GameConfig \<Rightarrow> Owner \<Rightarrow> GameState \<Rightarrow> GameState" where
  "TurnSystem_endTurn cfg pk st =
     (let st1 = modifyPlayer pk
                  (\<lambda>p. p\<lparr>aegis := of_int \<lfloor>divinity p * base (shadowSpread cfg)\<rfloor>\<rparr>) st;
          st2 = modifyPlayer pk (\<lambda>p. p\<lparr>divinity := 0\<rparr>) st1
      in modifyUnits pk (\<lambda>u. u\<lparr>turnsAlive := turnsAlive u + 1\<rparr>) st2)"

subsection \<open>Global events\<close>

text \<open>
  \<^verbatim>\<open>revealRandomTiles\<close> splices a random element out of the list of hidden tiles while
  \<^verbatim>\<open>i < Math.min(count, hiddenTiles.length)\<close>, the length being read again at every
  round. \<^verbatim>\<open>Math.random()\<close> is below 1, so the index is inside the list; an index outside
  it (which no value of \<^verbatim>\<open>Math.random()\<close> gives) removes and reveals nothing here.
\<close>

function revealRandomLoop ::
  "int \<Rightarrow> int \<Rightarrow> TileKey list \<Rightarrow> GameState \<times> Env \<Rightarrow> GameState \<times> Env" where
  "revealRandomLoop i n hiddenTiles acc =
     (if i < min n (int (length hiddenTiles)) then
        (let (r, e') = nextRandom (snd acc);
             j = randomIndex r (length hiddenTiles)
         in if 0 \<le> j \<and> j < int (length hiddenTiles)
            then revealRandomLoop (i + 1) n
                   (take (nat j) hiddenTiles @ drop (Suc (nat j)) hiddenTiles)
                   (reveal (hiddenTiles ! nat j) Seen (fst acc), e')
            else revealRandomLoop (i + 1) n hiddenTiles (fst acc, e'))
      else acc)"
  by pat_completeness auto
termination
  by (relation "measure (\<lambda>(i, n, hiddenTiles, acc). nat (n - i))") auto

definition revealRandomTiles :: "int \<Rightarrow> Env \<Rightarrow> GameState \<Rightarrow> GameState \<times> Env" where
  "revealRandomTiles n e st =
     revealRandomLoop 0 n
       (map fst (filter (\<lambda>(key, tile). visibility tile = Hidden) (tiles st))) (st, e)"

text \<open>
  The event pool of \<^verbatim>\<open>triggerRandomEvent\<close> has two events: "Divine Revelation" (3
  divinity, 5 tiles revealed) and "Faithful Pilgrims" (3 faith).
\<close>

definition triggerRandomEvent :: "Owner \<Rightarrow> Env \<Rightarrow> GameState \<Rightarrow> GameState \<times> Env" where
  "triggerRandomEvent pk e st =
     (let (r, e1) = nextRandom e;
          i = randomIndex r 2
      in if i = 0 then
           revealRandomTiles 5 e1
             (modifyPlayer pk (\<lambda>p. p\<lparr>divinity := min 20 (divinity p + 3)\<rparr>) st)
         else if i = 1 then (modifyPlayer pk (\<lambda>p. p\<lparr>faith := faith p + 3\<rparr>) st, e1)
         else (st, e1))"

definition checkForRandomEvents :: "Env \<Rightarrow> GameState \<Rightarrow> GameState \<times> Env" where
  "checkForRandomEvents e st =
     (case map_of (players st) (currentPlayer st) of
        None \<Rightarrow> (st, e)
      | Some player \<Rightarrow>
          (let eventChance = (if domain player = Chaos then 15/100 + 10/100 else 15/100);
               (r, e1) = nextRandom e
           in if r < eventChance then triggerRandomEvent (currentPlayer st) e1 st else (st, e1)))"

definition processEvents :: "Env \<Rightarrow> GameState \<Rightarrow> GameState \<times> Env" where
  "processEvents e st =
     checkForRandomEvents e
       (st\<lparr>activeGlobalEvents :=
             map (\<lambda>ev. ev\<lparr>duration := duration ev - 1\<rparr>)
               (filter (\<lambda>ev. \<not> duration ev \<le> 0) (activeGlobalEvents st))\<rparr>)"


section \<open>Victory Evaluator (VictorySystem)\<close>

text \<open>
  The conquest percentage is a floating-point quotient: \<^verbatim>\<open>0 / 0\<close> is \<^verbatim>\<open>NaN\<close>, a positive
  count over 0 is \<^verbatim>\<open>Infinity\<close>. \<^verbatim>\<open>NaN >= t\<close> is false and \<^verbatim>\<open>Infinity >= t\<close> is true.
\<close>

definition jsDivide :: "nat \<Rightarrow> nat \<Rightarrow> JSNumber" where
  "jsDivide a b = (if b = 0 then (if a = 0 then NaN else PosInf) else Num (of_nat a / of_nat b))"

definition times100 :: "JSNumber \<Rightarrow> JSNumber" where
  "times100 p =
     (case p of Num x \<Rightarrow> Num (x * 100) | PosInf \<Rightarrow> PosInf | NegInf \<Rightarrow> NegInf | NaN \<Rightarrow> NaN)"

definition reaches :: "JSNumber \<Rightarrow> rat \<Rightarrow> bool" where
  "reaches p t =
     (case p of Num x \<Rightarrow> x \<ge> t | PosInf \<Rightarrow> True | NegInf \<Rightarrow> False | NaN \<Rightarrow> False)"

text \<open>\<^verbatim>\<open>state.victoryThresholds.get(c) || d\<close>: the stored threshold unless absent or 0.\<close>

definition thresholdOr :: "GameState \<Rightarrow> VictoryCondition \<Rightarrow> rat \<Rightarrow> rat" where
  "thresholdOr st c d =
     (case map_of (victoryThresholds st) c of None \<Rightarrow> d | Some t \<Rightarrow> if t = 0 then d else t)"

definition setProgress :: "Owner \<Rightarrow> VictoryCondition \<Rightarrow> JSNumber \<Rightarrow> GameState \<Rightarrow> GameState" where
  "setProgress pk c v st =
     modifyPlayer pk (\<lambda>p. p\<lparr>victoryProgress := AList.update c v (victoryProgress p)\<rparr>) st"

definition isHolySite :: "TileType \<Rightarrow> bool" where
  "isHolySite ty = (ty = SacredWell \<or> ty = AncientRuins)"

definition checkConquestVictory :: "GameState \<Rightarrow> Owner \<Rightarrow> PlayerState \<Rightarrow> bool \<times> GameState" where
  "checkConquestVictory st pk player =
     (let revealedCount = length (revealedTiles st);
          ownedCount = length (ownedTiles player);
          threshold = thresholdOr st Conquest (3/4);
          percentage = jsDivide ownedCount revealedCount
      in (reaches percentage threshold, setProgress pk Conquest (times100 percentage) st))"

definition checkSanctifierVictory :: "GameState \<Rightarrow> Owner \<Rightarrow> PlayerState \<Rightarrow> bool \<times> GameState" where
  "checkSanctifierVictory st pk player =
     (let holySitesCount =
            fold (\<lambda>tileKey n. case map_of (tiles st) tileKey of
                                 None \<Rightarrow> n
                               | Some tile \<Rightarrow> if isHolySite (ttype tile) then n + 1 else n)
              (sanctifiedTiles player) (0::int);
          threshold = thresholdOr st Sanctifier 6
      in (of_int holySitesCount \<ge> threshold,
          setProgress pk Sanctifier (Num (of_int holySitesCount / threshold * 100)) st))"

definition checkShadowAccordVictory :: "GameState \<Rightarrow> Owner \<Rightarrow> PlayerState \<Rightarrow> bool \<times> GameState" where
  "checkShadowAccordVictory st pk player =
     (let alignment = (case map_of (shadowAlignmentMeter st) (powner player) of
                         None \<Rightarrow> 0 | Some a \<Rightarrow> a);
          threshold = thresholdOr st ShadowAccord 100
      in (of_int alignment \<ge> threshold,
          setProgress pk ShadowAccord (Num (of_int alignment / threshold * 100)) st))"

definition checkRelicAscensionVictory :: "GameState \<Rightarrow> Owner \<Rightarrow> PlayerState \<Rightarrow> bool \<times> GameState" where
  "checkRelicAscensionVictory st pk player =
     (let mythicRelics =
            filter (\<lambda>r. rarity r = Mythic \<and>
                         (case victoryPoints r of None \<Rightarrow> False | Some v \<Rightarrow> v \<noteq> 0 \<and> v > 0))
              (relics player);
          relicCount = length mythicRelics;
          threshold = thresholdOr st RelicAscension 3
      in (of_nat relicCount \<ge> threshold,
          setProgress pk RelicAscension (Num (of_nat relicCount / threshold * 100)) st))"

definition checkPlayerVictoryCondition ::
  "GameState \<Rightarrow> Owner \<Rightarrow> PlayerState \<Rightarrow> VictoryCondition \<Rightarrow> bool \<times> GameState" where
  "checkPlayerVictoryCondition st pk player c =
     (case c of
        Conquest \<Rightarrow> checkConquestVictory st pk player
      | Sanctifier \<Rightarrow> checkSanctifierVictory st pk player
      | ShadowAccord \<Rightarrow> checkShadowAccordVictory st pk player
      | RelicAscension \<Rightarrow> checkRelicAscensionVictory st pk player)"

fun checkConditions ::
  "Owner \<Rightarrow> VictoryCondition list \<Rightarrow> GameState \<Rightarrow> VictoryCondition option \<times> GameState" where
  "checkConditions pk [] st = (None, st)"
| "checkConditions pk (c # cs) st =
     (case map_of (players st) pk of
        None \<Rightarrow> checkConditions pk cs st
      | Some player \<Rightarrow>
          (let (won, st') = checkPlayerVictoryCondition st pk player c
           in if won then (Some c, st') else checkConditions pk cs st'))"

fun checkPlayers ::
  "Owner list \<Rightarrow> GameState \<Rightarrow> (Owner \<times> VictoryCondition) option \<times> GameState" where
  "checkPlayers [] st = (None, st)"
| "checkPlayers (pk # pks) st =
     (case checkConditions pk (victoryConditions st) st of
        (Some c, st') \<Rightarrow> (Some (pk, c), st')
      | (None, st') \<Rightarrow> checkPlayers pks st')"

definition checkDefeatConditions :: "GameState \<Rightarrow> bool" where
  "checkDefeatConditions st =
     (let passable = filter (\<lambda>(key, tile). \<not> impassable tile) (tiles st);
          totalTiles = length passable;
          shadowTileCount = length (filter (\<lambda>(key, tile). owner tile = Shadow) passable)
      in reaches (jsDivide shadowTileCount totalTiles) (3/5))"

record VictoryResult =
  winner :: "Owner option"
  vcondition :: "VictoryCondition option"

definition checkVictory :: "GameState \<Rightarrow> VictoryResult \<times> GameState" where
  "checkVictory st =
     (case checkPlayers (map fst (players st)) st of
        (Some (pk, c), st') \<Rightarrow> (\<lparr>winner = Some pk, vcondition = Some c\<rparr>, st')
      | (None, st') \<Rightarrow>
          (if checkDefeatConditions st' then \<lparr>winner = Some Shadow, vcondition = None\<rparr>
           else \<lparr>winner = None, vcondition = None\<rparr>, st'))"


section \<open>Turn/Phase Orchestrator (GameEngine)\<close>

record Engine =
  state :: GameState
  config :: GameConfig
  actionHistory :: "GameAction list"

text \<open>
  A JavaScript number is falsy when it is 0: \<^verbatim>\<open>c && player.x < c\<close> checks a cost only
  when it is present and not 0, and \<^verbatim>\<open>action.cost?.divinity || 0\<close> is the supplied
  amount, or 0 when the cost or the amount is absent.
\<close>

definition unaffordable :: "rat option \<Rightarrow> rat \<Rightarrow> bool" where
  "unaffordable c have = (case c of None \<Rightarrow> False | Some x \<Rightarrow> x \<noteq> 0 \<and> have < x)"

definition validateAction :: "GameState \<Rightarrow> GameAction \<Rightarrow> bool" where
  "validateAction st action =
     (case map_of (players st) (currentPlayer st) of
        None \<Rightarrow> False
      | Some player \<Rightarrow>
          if pid player \<noteq> playerId action then False
          else (case cost action of
                  None \<Rightarrow> True
                | Some c \<Rightarrow>
                    if unaffordable (cdivinity c) (divinity player) then False
                    else if unaffordable (cfaith c) (faith player) then False
                    else if unaffordable (cshadowEnergy c) (shadowEnergy player) then False
                    else True))"

definition costDivinity :: "GameAction \<Rightarrow> rat" where
  "costDivinity action =
     (case cost action of None \<Rightarrow> 0 | Some c \<Rightarrow> (case cdivinity c of None \<Rightarrow> 0 | Some d \<Rightarrow> d))"

definition costFaith :: "GameAction \<Rightarrow> rat" where
  "costFaith action =
     (case cost action of None \<Rightarrow> 0 | Some c \<Rightarrow> (case cfaith c of None \<Rightarrow> 0 | Some d \<Rightarrow> d))"

definition payDivinity :: "GameAction \<Rightarrow> GameState \<Rightarrow> GameState" where
  "payDivinity action st =
     modifyPlayer (currentPlayer st) (\<lambda>p. p\<lparr>divinity := divinity p - costDivinity action\<rparr>) st"

text \<open>
  The unit a move mutates is the object stored in \<^verbatim>\<open>state.units\<close>; the same object sits in
  its owner's \<^verbatim>\<open>units\<close> array.
\<close>

definition writeUnit :: "Unit \<Rightarrow> GameState \<Rightarrow> GameState" where
  "writeUnit u st =
     st\<lparr>gunits := modify (uid u) (\<lambda>_. u) (gunits st),
        players := map (\<lambda>(k, p). (k, p\<lparr>units := map (\<lambda>w. if uid w = uid u then u else w)
                                                    (units p)\<rparr>))
                     (players st)\<rparr>"

definition executeMove :: "GameState \<Rightarrow> GameAction \<Rightarrow> bool \<times> GameState" where
  "executeMove st action =
     (case (case unitId action of None \<Rightarrow> None | Some i \<Rightarrow> map_of (gunits st) i) of
        None \<Rightarrow> (False, st)
      | Some u \<Rightarrow>
         (case targetTile action of
            None \<Rightarrow> (False, st)
          | Some target \<Rightarrow>
             (case map_of (tiles st) target of
                None \<Rightarrow> (False, st)
              | Some targetTile' \<Rightarrow>
                  if impassable targetTile' then (False, st)
                  else
                   (let distance = \<bar>fst (upos u) - fst target\<bar> + \<bar>snd (upos u) - snd target\<bar>;
                        moveCost' = distance * moveCost targetTile'
                    in if movePoints u < moveCost' then (False, st)
                       else
                        (let u' = u\<lparr>upos := target, movePoints := movePoints u - moveCost'\<rparr>;
                             st1 = writeUnit u' st
                         in (True, revealTilesAroundUnit st1 u'))))))"

definition executeFortify :: "GameConfig \<Rightarrow> GameState \<Rightarrow> GameAction \<Rightarrow> bool \<times> GameState" where
  "executeFortify cfg st action =
     (case targetTile action of
        None \<Rightarrow> (False, st)
      | Some key \<Rightarrow>
         (case (map_of (tiles st) key, map_of (players st) (currentPlayer st)) of
            (Some tile, Some player) \<Rightarrow>
              if owner tile \<noteq> powner player then (False, st)
              else if stability tile \<ge> stabilityCap cfg then (False, st)
              else (True,
                    payDivinity action
                      (modifyTile key
                         (\<lambda>t. t\<lparr>stability := min (stability t + 2) (stabilityCap cfg)\<rparr>) st))
          | _ \<Rightarrow> (False, st)))"

definition executePurify :: "GameConfig \<Rightarrow> GameState \<Rightarrow> GameAction \<Rightarrow> bool \<times> GameState" where
  "executePurify cfg st action =
     (case targetTile action of
        None \<Rightarrow> (False, st)
      | Some key \<Rightarrow>
         (case (map_of (tiles st) key, map_of (players st) (currentPlayer st)) of
            (Some tile, Some player) \<Rightarrow>
              if corruption tile = 0 then (False, st)
              else
               (let st1 = modifyTile key (\<lambda>t. t\<lparr>corruption := max 0 (corruption t - 1)\<rparr>) st;
                    st2 = modifyTile key
                            (\<lambda>t. if corruption t = 0 \<and> owner t = Shadow
                                  then t\<lparr>owner := Neutral\<rparr> else t) st1;
                    st3 = modifyTile key
                            (\<lambda>t. t\<lparr>stability := min (stability t + 1) (stabilityCap cfg)\<rparr>) st2
                in (True, payDivinity action st3))
          | _ \<Rightarrow> (False, st)))"

definition executeBuildShrine :: "GameState \<Rightarrow> GameAction \<Rightarrow> bool \<times> GameState" where
  "executeBuildShrine st action =
     (case targetTile action of
        None \<Rightarrow> (False, st)
      | Some key \<Rightarrow>
         (case (map_of (tiles st) key, map_of (players st) (currentPlayer st)) of
            (Some tile, Some player) \<Rightarrow>
              if owner tile \<noteq> powner player \<or> hasShrine tile then (False, st)
              else (True,
                    payDivinity action
                      (modifyTile key
                         (\<lambda>t. t\<lparr>hasShrine := True, divinityYield := divinityYield t + 2,
                                 faithYield := faithYield t + 1\<rparr>) st))
          | _ \<Rightarrow> (False, st)))"

definition executeSanctify :: "GameConfig \<Rightarrow> GameState \<Rightarrow> GameAction \<Rightarrow> bool \<times> GameState" where
  "executeSanctify cfg st action =
     (case targetTile action of
        None \<Rightarrow> (False, st)
      | Some key \<Rightarrow>
         (case (map_of (tiles st) key, map_of (players st) (currentPlayer st)) of
            (Some tile, Some player) \<Rightarrow>
              if owner tile \<noteq> powner player \<or> sanctified tile then (False, st)
              else
               (let st1 = modifyTile key
                            (\<lambda>t. t\<lparr>sanctified := True, domainAttunement := Some (domain player),
                                    divinityYield := divinityYield t + 1,
                                    stability := min (stability t + 1) (stabilityCap cfg),
                                    corruption := 0\<rparr>) st;
                    st2 = modifyPlayer (currentPlayer st)
                            (\<lambda>p. p\<lparr>sanctifiedTiles := set_add key (sanctifiedTiles p),
                                    sanctifiedThisTurn := sanctifiedThisTurn p + 1\<rparr>) st1
                in (True, payDivinity action st2))
          | _ \<Rightarrow> (False, st)))"

definition executeSummonUnit :: "GameState \<Rightarrow> GameAction \<Rightarrow> bool \<times> GameState" where
  "executeSummonUnit st action =
     (case (map_of (players st) (currentPlayer st), targetTile action) of
        (Some player, Some target) \<Rightarrow> (True, payDivinity action st)
      | _ \<Rightarrow> (False, st))"

definition executeAbility :: "GameState \<Rightarrow> GameAction \<Rightarrow> bool \<times> GameState" where
  "executeAbility st action =
     (case (map_of (players st) (currentPlayer st), abilityId action) of
        (Some player, Some a) \<Rightarrow> (a \<noteq> [], st)
      | _ \<Rightarrow> (False, st))"

text \<open>\<^verbatim>\<open>player.miracles.find(...)\<close> is the first miracle with the id; it is marked used.\<close>

fun useMiracle :: "string \<Rightarrow> Miracle list \<Rightarrow> Miracle list" where
  "useMiracle i [] = []"
| "useMiracle i (m # ms) = (if mid m = i then m\<lparr>isUsed := True\<rparr> # ms else m # useMiracle i ms)"

definition executeMiracle :: "GameState \<Rightarrow> GameAction \<Rightarrow> bool \<times> GameState" where
  "executeMiracle st action =
     (case (map_of (players st) (currentPlayer st), miracleId action) of
        (Some player, Some i) \<Rightarrow>
          if i = [] then (False, st)
          else (case find (\<lambda>m. mid m = i) (miracles player) of
                  None \<Rightarrow> (False, st)
                | Some miracle \<Rightarrow>
                    if isUsed miracle then (False, st)
                    else (True,
                          modifyPlayer (currentPlayer st)
                            (\<lambda>p. p\<lparr>miracles := useMiracle i (miracles p),
                                    faith := faith p - costFaith action\<rparr>) st))
      | _ \<Rightarrow> (False, st))"

text \<open>
  \<^verbatim>\<open>startTurn\<close>. The turn of an AI player is scheduled with \<^verbatim>\<open>setTimeout\<close>: it runs after
  the call has returned and is no part of it.
\<close>

definition startTurn :: "GameConfig \<Rightarrow> Env \<Rightarrow> GameState \<Rightarrow> GameState \<times> Env" where
  "startTurn cfg e st0 =
     (let st = st0\<lparr>turn := turn st0 + 1\<rparr>;
          pk = currentPlayer st
      in case map_of (players st) pk of
           None \<Rightarrow> (st, e)
         | Some player \<Rightarrow>
             (let st1 = TurnSystem_startTurn cfg pk st;
                  (st2, e2) = processEvents e st1;
                  (st3, e3) = (if currentPlayer st2 = Player then spreadShadow cfg e2 st2
                               else (st2, e2));
                  st4 = updateVisibility st3;
                  st5 = modifyPlayer pk (\<lambda>p. p\<lparr>capturedThisTurn := 0, sanctifiedThisTurn := 0\<rparr>) st4;
                  st6 = modifyUnits pk
                          (\<lambda>u. u\<lparr>movePoints := maxMovePoints u, turnsAlive := turnsAlive u + 1\<rparr>) st5
              in (st6, e3)))"

text \<open>\<^verbatim>\<open>Array.indexOf\<close>: the first index of the element, \<open>-1\<close> when it is absent.\<close>

definition indexOf :: "'a \<Rightarrow> 'a list \<Rightarrow> int" where
  "indexOf x xs = (if x \<in> set xs then int (length (takeWhile (\<lambda>y. y \<noteq> x) xs)) else -1)"

definition endTurn :: "GameConfig \<Rightarrow> Env \<Rightarrow> GameState \<Rightarrow> bool \<times> GameState \<times> Env" where
  "endTurn cfg e st =
     (let pk = currentPlayer st
      in case map_of (players st) pk of
           None \<Rightarrow> (False, st, e)
         | Some player \<Rightarrow>
             (let st1 = modifyPlayer pk (\<lambda>p. p\<lparr>aegis := of_int \<lfloor>divinity p / 2\<rfloor>\<rparr>) st;
                  st2 = modifyPlayer pk (\<lambda>p. p\<lparr>divinity := 0\<rparr>) st1;
                  st3 = TurnSystem_endTurn cfg pk st2;
                  playerKeys = map fst (players st3);
                  currentIndex = indexOf (currentPlayer st3) playerKeys;
                  nextIndex = (currentIndex + 1) mod int (length playerKeys);
                  st4 = st3\<lparr>currentPlayer := playerKeys ! nat nextIndex\<rparr>;
                  (st5, e') = startTurn cfg e st4
              in (True, st5, e')))"

text \<open>
  \<^verbatim>\<open>checkVictory\<close> returns an object, \<^verbatim>\<open>{ winner, condition }\<close>, also when nobody has won;
  \<^verbatim>\<open>if (victory)\<close> tests the object itself, and an object is truthy whatever it holds.
\<close>

definition truthy :: "VictoryResult \<Rightarrow> bool" where
  "truthy v = True"

definition dispatch ::
  "GameConfig \<Rightarrow> Env \<Rightarrow> GameState \<Rightarrow> GameAction \<Rightarrow> bool \<times> GameState \<times> GameAction \<times> Env" where
  "dispatch cfg e st action =
     (case atype action of
        Move \<Rightarrow> (let (ok, st') = executeMove st action in (ok, st', action, e))
      | Explore \<Rightarrow> (let (ok, st') = executeMove st action in (ok, st', action, e))
      | Capture \<Rightarrow> executeCapture cfg e st action
      | ManageFortify \<Rightarrow> (let (ok, st') = executeFortify cfg st action in (ok, st', action, e))
      | ManagePurify \<Rightarrow> (let (ok, st') = executePurify cfg st action in (ok, st', action, e))
      | ManageBuildShrine \<Rightarrow> (let (ok, st') = executeBuildShrine st action in (ok, st', action, e))
      | Sanctify \<Rightarrow> (let (ok, st') = executeSanctify cfg st action in (ok, st', action, e))
      | SummonUnit \<Rightarrow> (let (ok, st') = executeSummonUnit st action in (ok, st', action, e))
      | UseAbility \<Rightarrow> (let (ok, st') = executeAbility st action in (ok, st', action, e))
      | UseMiracle \<Rightarrow> (let (ok, st') = executeMiracle st action in (ok, st', action, e))
      | EndTurn \<Rightarrow> (let (ok, st', e') = endTurn cfg e st in (ok, st', action, e'))
      | ManageRepair \<Rightarrow> (False, st, action, e))"

definition executeAction :: "Env \<Rightarrow> Engine \<Rightarrow> GameAction \<Rightarrow> bool \<times> Engine \<times> Env" where
  "executeAction e eng action =
     (if \<not> validateAction (state eng) action then
        (False,
         eng\<lparr>actionHistory :=
               actionHistory eng @ [action\<lparr>success := False, message := Some InvalidAction\<rparr>]\<rparr>,
         e)
      else
        (let (ok, st1, action1, e1) = dispatch (config eng) e (state eng) action;
             action2 = action1\<lparr>success := ok\<rparr>;
             st2 = updateVisibility st1;
             (victory, st3) = checkVictory st2;
             st4 = (if truthy victory then st3\<lparr>phase := Victory\<rparr> else st3)
         in (ok, eng\<lparr>state := st4, actionHistory := actionHistory eng @ [action2]\<rparr>, e1)))"

text \<open>The three currencies an action can be charged in.\<close>

definition resources :: "PlayerState \<Rightarrow> rat \<times> rat \<times> rat" where
  "resources p = (divinity p, faith p, shadowEnergy p)"




section \<open>AI Decision Engine (AIController)\<close>

text \<open>
  A candidate is an action with its score. The id and the timestamp of an action are not
  part of the model. The five generators append to one array, in the order capture,
  sanctify, fortify, explore, summon.
\<close>

record Candidate =
  caction :: GameAction
  score :: rat

definition mkAction ::
  "ActionType \<Rightarrow> PlayerState \<Rightarrow> Position option \<Rightarrow> string option \<Rightarrow> GameAction" where
  "mkAction ty player target u =
     \<lparr>atype = ty, playerId = pid player, targetTile = target, unitId = u, abilityId = None,
      miracleId = None, cost = None, success = False, message = None\<rparr>"

definition mkCandidate ::
  "ActionType \<Rightarrow> PlayerState \<Rightarrow> Position option \<Rightarrow> string option \<Rightarrow> Candidate" where
  "mkCandidate ty player target u = \<lparr>caction = mkAction ty player target u, score = 0\<rparr>"

definition generateCaptureActions :: "GameState \<Rightarrow> PlayerState \<Rightarrow> Candidate list" where
  "generateCaptureActions st player =
     (let capturableTiles =
            concat (map (\<lambda>tileKey.
              case map_of (tiles st) tileKey of
                None \<Rightarrow> []
              | Some tile \<Rightarrow>
                  concat (map (\<lambda>neighborKey.
                    case map_of (tiles st) neighborKey of
                      None \<Rightarrow> []
                    | Some neighbor \<Rightarrow>
                        if owner neighbor \<noteq> powner player \<and> \<not> impassable neighbor \<and>
                           divinity player \<ge> 2
                        then [neighbor] else [])
                    (getNeighbors (fst (position tile)) (snd (position tile)) st)))
              (ownedTiles player))
      in map (\<lambda>tile. mkCandidate Capture player (Some (position tile)) None) capturableTiles)"

definition generateSanctifyActions :: "GameState \<Rightarrow> PlayerState \<Rightarrow> Candidate list" where
  "generateSanctifyActions st player =
     concat (map (\<lambda>tileKey.
       case map_of (tiles st) tileKey of
         None \<Rightarrow> []
       | Some tile \<Rightarrow>
           if \<not> sanctified tile \<and> divinity player \<ge> 4
           then [mkCandidate Sanctify player (Some (position tile)) None] else [])
       (ownedTiles player))"

definition generateFortifyActions :: "GameState \<Rightarrow> PlayerState \<Rightarrow> Candidate list" where
  "generateFortifyActions st player =
     concat (map (\<lambda>tileKey.
       case map_of (tiles st) tileKey of
         None \<Rightarrow> []
       | Some tile \<Rightarrow>
           if stability tile < 5 \<and> divinity player \<ge> 3
           then [mkCandidate ManageFortify player (Some (position tile)) None] else [])
       (ownedTiles player))"

text \<open>The controller's own \<^verbatim>\<open>getTilesInRadius\<close>, over offsets, with a unit's move points as radius.\<close>

definition aiTilesInRadius :: "int \<Rightarrow> int \<Rightarrow> int \<Rightarrow> GameState \<Rightarrow> TileKey list" where
  "aiTilesInRadius x y radius st =
     concat (map (\<lambda>dx. concat (map (\<lambda>dy.
               if \<bar>dx\<bar> + \<bar>dy\<bar> \<le> radius \<and> inBounds st (x + dx, y + dy)
               then [(x + dx, y + dy)] else [])
             [- radius..radius]))
       [- radius..radius])"

definition generateExploreActions :: "GameState \<Rightarrow> PlayerState \<Rightarrow> Candidate list" where
  "generateExploreActions st player =
     concat (map (\<lambda>u.
       if movePoints u > 0 then
         concat (map (\<lambda>tileKey.
           case map_of (tiles st) tileKey of
             None \<Rightarrow> []
           | Some tile \<Rightarrow>
               if visibility tile = Hidden
               then [mkCandidate Explore player (Some (position tile)) (Some (uid u))] else [])
           (aiTilesInRadius (fst (upos u)) (snd (upos u)) (movePoints u) st))
       else [])
       (units player))"

definition generateSummonActions :: "GameState \<Rightarrow> PlayerState \<Rightarrow> Candidate list" where
  "generateSummonActions st player =
     (if divinity player \<ge> 2 \<and> length (units player) < 5 then
        (case ownedTiles player of
           [] \<Rightarrow> []
         | spawnTile # _ \<Rightarrow>
             [mkCandidate SummonUnit player
                (map_option position (map_of (tiles st) spawnTile)) None])
      else [])"

definition generateCandidates :: "GameState \<Rightarrow> PlayerState \<Rightarrow> Candidate list" where
  "generateCandidates st player =
     generateCaptureActions st player @ generateSanctifyActions st player @
     generateFortifyActions st player @ generateExploreActions st player @
     generateSummonActions st player"

definition targetOf :: "GameState \<Rightarrow> GameAction \<Rightarrow> Tile option" where
  "targetOf st action =
     (case targetTile action of None \<Rightarrow> None | Some pos \<Rightarrow> map_of (tiles st) pos)"

definition estimateVictoryProgressDelta :: "GameState \<Rightarrow> GameAction \<Rightarrow> rat" where
  "estimateVictoryProgressDelta st action =
     (case atype action of
        Capture \<Rightarrow> 5
      | Sanctify \<Rightarrow>
          (case targetOf st action of
             None \<Rightarrow> 8
           | Some tile \<Rightarrow> if ttype tile = SacredWell \<or> ttype tile = AncientRuins then 8 + 10 else 8)
      | _ \<Rightarrow> 0)"

definition estimateEconomyGain :: "GameState \<Rightarrow> GameAction \<Rightarrow> rat" where
  "estimateEconomyGain st action =
     (let g1 = (if atype action = Capture then
                  (case targetOf st action of
                     None \<Rightarrow> 0
                   | Some tile \<Rightarrow> of_int (divinityYield tile) * 2 + of_int (faithYield tile) * (3/2))
                else 0)
      in if atype action = Sanctify then g1 + 1 else g1)"

definition estimateDefenseGain :: "GameAction \<Rightarrow> rat" where
  "estimateDefenseGain action =
     (let d1 = (if atype action = ManageFortify then 5 else 0)
      in if atype action = Sanctify then d1 + 3 else d1)"

definition assessRisk :: "GameState \<Rightarrow> GameAction \<Rightarrow> rat" where
  "assessRisk st action =
     (case targetOf st action of
        None \<Rightarrow> 0
      | Some tile \<Rightarrow>
          fold (\<lambda>key risk. case map_of (tiles st) key of
                              None \<Rightarrow> risk
                            | Some neighbor \<Rightarrow> if corruption neighbor > 0 then risk - 2 else risk)
            (getNeighbors (fst (position tile)) (snd (position tile)) st) 0)"

definition assessDomainSynergy :: "GameState \<Rightarrow> PlayerState \<Rightarrow> GameAction \<Rightarrow> rat" where
  "assessDomainSynergy st player action =
     (if atype action = Capture then
        (case targetOf st action of
           None \<Rightarrow> 0
         | Some tile \<Rightarrow>
             (let s1 = (if domain player = Fire \<and> (ttype tile = Desert \<or> ttype tile = Hills)
                        then 3 else 0);
                  s2 = (if domain player = Earth \<and> (ttype tile = Forest \<or> ttype tile = Hills)
                        then s1 + 3 else s1)
              in if domain player = Water \<and> (ttype tile = Swamp \<or> ttype tile = WaterTile)
                 then s2 + 3 else s2))
      else 0)"

definition calculateUtility :: "GameState \<Rightarrow> PlayerState \<Rightarrow> GameAction \<Rightarrow> rat \<Rightarrow> rat" where
  "calculateUtility st player action r =
     (3/10) * estimateVictoryProgressDelta st action +
     (1/4) * estimateEconomyGain st action +
     (1/5) * estimateDefenseGain action +
     (15/100) * assessRisk st action +
     (1/10) * assessDomainSynergy st player action +
     (r - 1/2) * (1/10)"

fun scoreCandidates ::
  "GameState \<Rightarrow> PlayerState \<Rightarrow> Candidate list \<Rightarrow> Env \<Rightarrow> Candidate list \<times> Env" where
  "scoreCandidates st player [] e = ([], e)"
| "scoreCandidates st player (c # cs) e =
     (let (r, e1) = nextRandom e;
          c' = c\<lparr>score := calculateUtility st player (caction c) r\<rparr>;
          (cs', e2) = scoreCandidates st player cs e1
      in (c' # cs', e2))"

definition applyPersonalityWeights :: "PlayerState \<Rightarrow> Candidate \<Rightarrow> Candidate" where
  "applyPersonalityWeights player c =
     (let ty = atype (caction c) in
      case (case aiPersonality player of None \<Rightarrow> Balanced | Some p \<Rightarrow> p) of
        Aggressive \<Rightarrow> if ty = Capture then c\<lparr>score := score c * (3/2)\<rparr> else c
      | Defensive \<Rightarrow>
          if ty = ManageFortify \<or> ty = Sanctify then c\<lparr>score := score c * (3/2)\<rparr> else c
      | Opportunist \<Rightarrow>
          if ty = Capture \<or> ty = Sanctify then c\<lparr>score := score c * (13/10)\<rparr> else c
      | Balanced \<Rightarrow> c)"

text \<open>
  \<^verbatim>\<open>candidates.sort((a, b) => b.score - a.score)\<close> is a stable sort by descending score,
  as \<open>sort_key\<close> is on the negated score; the best action is the first element.
\<close>

definition selectBestAction :: "GameState \<Rightarrow> PlayerState \<Rightarrow> Env \<Rightarrow> GameAction option \<times> Env" where
  "selectBestAction st player e =
     (let (scored, e') = scoreCandidates st player (generateCandidates st player) e;
          weighted = map (applyPersonalityWeights player) scored
      in if weighted = [] then (None, e')
         else (Some (caction (hd (sort_key (\<lambda>c. - score c) weighted))), e'))"

definition baseCost :: "ActionType \<Rightarrow> rat" where
  "baseCost ty =
     (case ty of Capture \<Rightarrow> 4 | Sanctify \<Rightarrow> 6 | ManageFortify \<Rightarrow> 3 | SummonUnit \<Rightarrow> 2 | _ \<Rightarrow> 0)"

definition simulateAction :: "Owner \<Rightarrow> GameAction \<Rightarrow> GameState \<Rightarrow> GameState" where
  "simulateAction pk action st =
     modifyPlayer pk (\<lambda>p. p\<lparr>divinity := max 0 (divinity p - baseCost (atype action))\<rparr>) st"

text \<open>
  \<^verbatim>\<open>executeTurn\<close> is a \<^verbatim>\<open>while\<close> loop that need not end; the model counts its rounds down
  from a fuel, and \<open>None\<close> is the loop still running when the fuel is spent. The player
  object the controller is handed is the one stored in the state under \<open>pk\<close>.
\<close>

fun executeTurnLoop ::
  "nat \<Rightarrow> Owner \<Rightarrow> GameState \<Rightarrow> Env \<Rightarrow> GameAction list \<Rightarrow>
   (GameAction list \<times> GameState \<times> Env) option" where
  "executeTurnLoop 0 pk st e actions = None"
| "executeTurnLoop (Suc n) pk st e actions =
     (case map_of (players st) pk of
        None \<Rightarrow> Some (actions, st, e)
      | Some player \<Rightarrow>
          if divinity player > 0 then
            (case selectBestAction st player e of
               (None, e') \<Rightarrow> Some (actions, st, e')
             | (Some bestAction, e') \<Rightarrow>
                 executeTurnLoop n pk (simulateAction pk bestAction st) e' (actions @ [bestAction]))
          else Some (actions, st, e))"

definition executeTurn ::
  "nat \<Rightarrow> Owner \<Rightarrow> GameState \<Rightarrow> Env \<Rightarrow> (GameAction list \<times> GameState \<times> Env) option" where
  "executeTurn fuel pk st e = executeTurnLoop fuel pk st e []"


section \<open>Save and load (GameEngine.exportState, GameEngine.importState)\<close>

text \<open>
  The values \<^verbatim>\<open>JSON.stringify\<close> is handed: \<^verbatim>\<open>undefined\<close>, \<^verbatim>\<open>null\<close>, booleans, numbers,
  strings, arrays, plain objects (an association list of property names and values),
  and the \<^verbatim>\<open>Map\<close> and \<^verbatim>\<open>Set\<close> collections, in insertion order. The JSON text is
  represented by its tree: printing a tree and parsing the text again gives the tree
  back, so the text itself is not modelled.
\<close>

datatype jsval =
  JUndefined | JNull | JBool bool | JNum JSNumber | JStr string |
  JArr "jsval list" | JObj "(string \<times> jsval) list" |
  JMap "(jsval \<times> jsval) list" | JSet "jsval list"

datatype json =
  JsonNull | JsonBool bool | JsonNum rat | JsonStr string |
  JsonArr "json list" | JsonObj "(string \<times> json) list"

text \<open>
  \<^verbatim>\<open>JSON.stringify(value, replacer)\<close>. The replacer of \<^verbatim>\<open>exportState\<close> sees every value
  before it is serialised and turns a \<^verbatim>\<open>Map\<close> into the plain object
  \<^verbatim>\<open>{dataType: 'Map', value: [[k, v], ...]}\<close> and a \<^verbatim>\<open>Set\<close> into
  \<^verbatim>\<open>{dataType: 'Set', value: [...]}\<close>, whose parts are serialised in turn. A number that is
  not finite is written \<^verbatim>\<open>null\<close>; a property whose value is \<^verbatim>\<open>undefined\<close> is left out; an
  array element that is \<^verbatim>\<open>undefined\<close> is written \<^verbatim>\<open>null\<close>. The result \<open>None\<close> is
  \<^verbatim>\<open>undefined\<close>: nothing is written.
\<close>

definition orNull :: "json option \<Rightarrow> json" where
  "orNull j = (case j of None \<Rightarrow> JsonNull | Some x \<Rightarrow> x)"

definition definedProperties :: "(string \<times> json option) list \<Rightarrow> (string \<times> json) list" where
  "definedProperties kvs =
     concat (map (\<lambda>(k, j). case j of None \<Rightarrow> [] | Some x \<Rightarrow> [(k, x)]) kvs)"

fun stringify :: "jsval \<Rightarrow> json option" where
  "stringify JUndefined = None"
| "stringify JNull = Some JsonNull"
| "stringify (JBool b) = Some (JsonBool b)"
| "stringify (JNum n) = Some (case n of Num r \<Rightarrow> JsonNum r | _ \<Rightarrow> JsonNull)"
| "stringify (JStr s) = Some (JsonStr s)"
| "stringify (JArr xs) = Some (JsonArr (map (\<lambda>x. orNull (stringify x)) xs))"
| "stringify (JObj kvs) =
     Some (JsonObj (definedProperties (map (\<lambda>(k, v). (k, stringify v)) kvs)))"
| "stringify (JMap es) =
     Some (JsonObj [(''dataType'', JsonStr ''Map''),
                    (''value'', JsonArr (map (\<lambda>(k, v). JsonArr [orNull (stringify k),
                                                                  orNull (stringify v)]) es))])"
| "stringify (JSet xs) =
     Some (JsonObj [(''dataType'', JsonStr ''Set''),
                    (''value'', JsonArr (map (\<lambda>x. orNull (stringify x)) xs))])"

text \<open>
  \<^verbatim>\<open>new Map(iterable)\<close> and \<^verbatim>\<open>new Set(iterable)\<close>. Keys and elements are compared as
  \<^verbatim>\<open>SameValueZero\<close> does: primitives by value, objects by identity, and the objects of a
  freshly parsed text are all different. Every entry of a \<^verbatim>\<open>Map\<close>'s iterable must be an object,
  whose properties \<^verbatim>\<open>0\<close> and \<^verbatim>\<open>1\<close> are the key and the value. \<open>None\<close> is a \<^verbatim>\<open>TypeError\<close>.
\<close>

definition isPrimitive :: "jsval \<Rightarrow> bool" where
  "isPrimitive v =
     (case v of JArr _ \<Rightarrow> False | JObj _ \<Rightarrow> False | JMap _ \<Rightarrow> False | JSet _ \<Rightarrow> False | _ \<Rightarrow> True)"

definition mapSet :: "jsval \<Rightarrow> jsval \<Rightarrow> (jsval \<times> jsval) list \<Rightarrow> (jsval \<times> jsval) list" where
  "mapSet k v m = (if isPrimitive k then AList.update k v m else m @ [(k, v)])"

definition setAdd :: "jsval \<Rightarrow> jsval list \<Rightarrow> jsval list" where
  "setAdd x xs = (if isPrimitive x \<and> x \<in> set xs then xs else xs @ [x])"

definition propertyOr :: "(string \<times> jsval) list \<Rightarrow> string \<Rightarrow> jsval" where
  "propertyOr kvs k = (case map_of kvs k of None \<Rightarrow> JUndefined | Some v \<Rightarrow> v)"

definition entryOf :: "jsval \<Rightarrow> (jsval \<times> jsval) option" where
  "entryOf v =
     (case v of
        JArr xs \<Rightarrow> Some (case xs of [] \<Rightarrow> (JUndefined, JUndefined)
                                  | [k] \<Rightarrow> (k, JUndefined)
                                  | k # w # _ \<Rightarrow> (k, w))
      | JObj kvs \<Rightarrow> Some (propertyOr kvs ''0'', propertyOr kvs ''1'')
      | JMap _ \<Rightarrow> Some (JUndefined, JUndefined)
      | JSet _ \<Rightarrow> Some (JUndefined, JUndefined)
      | _ \<Rightarrow> None)"

definition mapOfEntries :: "jsval list \<Rightarrow> jsval option" where
  "mapOfEntries entries =
     (case those (map entryOf entries) of
        None \<Rightarrow> None
      | Some kvs \<Rightarrow> Some (JMap (fold (\<lambda>(k, v). mapSet k v) kvs [])))"

definition newMap :: "jsval \<Rightarrow> jsval option" where
  "newMap iterable =
     (case iterable of
        JUndefined \<Rightarrow> Some (JMap [])
      | JNull \<Rightarrow> Some (JMap [])
      | JArr entries \<Rightarrow> mapOfEntries entries
      | JMap m \<Rightarrow> Some (JMap m)
      | JSet xs \<Rightarrow> mapOfEntries xs
      | JStr s \<Rightarrow> if s = [] then Some (JMap []) else None
      | _ \<Rightarrow> None)"

definition newSet :: "jsval \<Rightarrow> jsval option" where
  "newSet iterable =
     (case iterable of
        JUndefined \<Rightarrow> Some (JSet [])
      | JNull \<Rightarrow> Some (JSet [])
      | JArr xs \<Rightarrow> Some (JSet (fold setAdd xs []))
      | JSet xs \<Rightarrow> Some (JSet xs)
      | JMap m \<Rightarrow> Some (JSet (map (\<lambda>(k, v). JArr [k, v]) m))
      | JStr s \<Rightarrow> Some (JSet (fold setAdd (map (\<lambda>c. JStr [c]) s) []))
      | _ \<Rightarrow> None)"

text \<open>
  The reviver of \<^verbatim>\<open>importState\<close>: an object (arrays included) whose \<^verbatim>\<open>dataType\<close> is
  \<^verbatim>\<open>'Map'\<close> or \<^verbatim>\<open>'Set'\<close> becomes the collection built from its \<^verbatim>\<open>value\<close>; anything else
  is returned as it is. An array has no \<^verbatim>\<open>dataType\<close>.
\<close>

definition reviver :: "jsval \<Rightarrow> jsval option" where
  "reviver v =
     (case v of
        JObj kvs \<Rightarrow>
          (if propertyOr kvs ''dataType'' = JStr ''Map'' then newMap (propertyOr kvs ''value'')
           else if propertyOr kvs ''dataType'' = JStr ''Set'' then newSet (propertyOr kvs ''value'')
           else Some v)
      | _ \<Rightarrow> Some v)"

text \<open>
  \<^verbatim>\<open>JSON.parse(text, reviver)\<close> builds the value bottom-up and passes every value, once
  its parts are revived, through the reviver. A text written by \<^verbatim>\<open>exportState\<close> never
  repeats a property name within an object; for a text that does, \<^verbatim>\<open>JSON.parse\<close> keeps
  the last value of the name, where \<open>revive\<close> keeps every entry and \<open>propertyOr\<close> reads
  the first.
\<close>

fun revive :: "json \<Rightarrow> jsval option" where
  "revive JsonNull = reviver JNull"
| "revive (JsonBool b) = reviver (JBool b)"
| "revive (JsonNum r) = reviver (JNum (Num r))"
| "revive (JsonStr s) = reviver (JStr s)"
| "revive (JsonArr xs) =
     (case those (map revive xs) of None \<Rightarrow> None | Some vs \<Rightarrow> reviver (JArr vs))"
| "revive (JsonObj kvs) =
     (case those (map (\<lambda>(k, j). map_option (Pair k) (revive j)) kvs) of
        None \<Rightarrow> None
      | Some kvs' \<Rightarrow> reviver (JObj kvs'))"

text \<open>
  \<^verbatim>\<open>exportState\<close> serialises the object \<^verbatim>\<open>{state, config, actionHistory}\<close>; \<^verbatim>\<open>importState\<close>
  parses the text and stores the three properties of the result. \<open>None\<close> is an exception.
\<close>

definition exportState :: "jsval \<Rightarrow> jsval \<Rightarrow> jsval \<Rightarrow> json option" where
  "exportState st cfg history =
     stringify (JObj [(''state'', st), (''config'', cfg), (''actionHistory'', history)])"

definition importState :: "json \<Rightarrow> (jsval \<times> jsval \<times> jsval) option" where
  "importState parsed =
     (case revive parsed of
        None \<Rightarrow> None
      | Some (JObj kvs) \<Rightarrow>
          Some (propertyOr kvs ''state'', propertyOr kvs ''config'', propertyOr kvs ''actionHistory'')
      | Some (JMap m) \<Rightarrow> Some (JUndefined, JUndefined, JUndefined)
      | Some (JSet s) \<Rightarrow> Some (JUndefined, JUndefined, JUndefined)
      | Some (JArr xs) \<Rightarrow> Some (JUndefined, JUndefined, JUndefined)
      | Some (JBool b) \<Rightarrow> Some (JUndefined, JUndefined, JUndefined)
      | Some (JNum n) \<Rightarrow> Some (JUndefined, JUndefined, JUndefined)
      | Some (JStr s) \<Rightarrow> Some (JUndefined, JUndefined, JUndefined)
      | Some _ \<Rightarrow> None)"

text \<open>
  Equality of values up to properties set to \<^verbatim>\<open>undefined\<close>: \<open>withoutUndefined\<close> removes
  them, at every depth. A value is \<open>jsonSafe\<close> when its numbers are finite, no array
  element, key, value or set element is \<^verbatim>\<open>undefined\<close>, the keys of its maps and the
  elements of its sets are distinct primitives, and no plain object carries a
  \<^verbatim>\<open>dataType\<close> property that says \<^verbatim>\<open>'Map'\<close> or \<^verbatim>\<open>'Set'\<close>.
\<close>

fun withoutUndefined :: "jsval \<Rightarrow> jsval" where
  "withoutUndefined (JArr xs) = JArr (map withoutUndefined xs)"
| "withoutUndefined (JObj kvs) =
     JObj (map (\<lambda>(k, v). (k, withoutUndefined v)) (filter (\<lambda>(k, v). v \<noteq> JUndefined) kvs))"
| "withoutUndefined (JMap es) = JMap (map (\<lambda>(k, v). (withoutUndefined k, withoutUndefined v)) es)"
| "withoutUndefined (JSet xs) = JSet (map withoutUndefined xs)"
| "withoutUndefined v = v"

definition tagged :: "(string \<times> jsval) list \<Rightarrow> bool" where
  "tagged kvs =
     (let t = propertyOr (filter (\<lambda>(k, v). v \<noteq> JUndefined) kvs) ''dataType''
      in t = JStr ''Map'' \<or> t = JStr ''Set'')"

fun jsonSafe :: "jsval \<Rightarrow> bool" where
  "jsonSafe JUndefined = False"
| "jsonSafe JNull = True"
| "jsonSafe (JBool b) = True"
| "jsonSafe (JNum n) = (case n of Num r \<Rightarrow> True | _ \<Rightarrow> False)"
| "jsonSafe (JStr s) = True"
| "jsonSafe (JArr xs) = list_all jsonSafe xs"
| "jsonSafe (JObj kvs) =
     (list_all (\<lambda>(k, v). if v = JUndefined then True else jsonSafe v) kvs \<and> \<not> tagged kvs)"
| "jsonSafe (JMap es) =
     (distinct (map fst es) \<and>
      list_all (\<lambda>(k, v). isPrimitive k \<and> jsonSafe k \<and> jsonSafe v) es)"
| "jsonSafe (JSet xs) = (distinct xs \<and> list_all (\<lambda>x. isPrimitive x \<and> jsonSafe x) xs)"

text \<open>
  The part of a saved state that carries the players' victory progress: the
  \<^verbatim>\<open>players\<close> map, keyed by the owner's name, each player with the \<^verbatim>\<open>victoryProgress\<close>
  map from the condition's name to a percentage. The names are those of the enums
  \<^verbatim>\<open>Owner\<close> and \<^verbatim>\<open>VictoryCondition\<close>.
\<close>

definition ownerName :: "Owner \<Rightarrow> string" where
  "ownerName ow =
     (case ow of Neutral \<Rightarrow> ''neutral'' | Player \<Rightarrow> ''player'' | AI1 \<Rightarrow> ''ai1''
               | AI2 \<Rightarrow> ''ai2'' | AI3 \<Rightarrow> ''ai3'' | Shadow \<Rightarrow> ''shadow'')"

definition conditionName :: "VictoryCondition \<Rightarrow> string" where
  "conditionName c =
     (case c of Conquest \<Rightarrow> ''conquest'' | Sanctifier \<Rightarrow> ''sanctifier''
              | ShadowAccord \<Rightarrow> ''shadow_accord'' | RelicAscension \<Rightarrow> ''relic_ascension'')"

definition encodeProgress :: "(VictoryCondition \<times> JSNumber) list \<Rightarrow> jsval" where
  "encodeProgress vp = JMap (map (\<lambda>(c, n). (JStr (conditionName c), JNum n)) vp)"

definition encodePlayers :: "GameState \<Rightarrow> jsval" where
  "encodePlayers st =
     JObj [(''players'',
            JMap (map (\<lambda>(ow, p). (JStr (ownerName ow),
                                   JObj [(''victoryProgress'', encodeProgress (victoryProgress p))]))
                   (players st)))]"


section \<open>Concrete game states\<close>

text \<open>
  A one-row map of three plain tiles, the first owned by the human player, who is the
  acting player and holds 7 divinity, and a request to capture the third tile.
\<close>

definition exTile :: "Position \<Rightarrow> Tile" where
  "exTile p = \<lparr>position = p, ttype = Plains, owner = Neutral, stability = 3, corruption = 0,
     sanctified = False, domainAttunement = None, visibility = Hidden, hasShrine = False,
     hasFortification = False, eventTriggered = False, divinityYield = 1, faithYield = 0,
     moveCost = 1, impassable = False\<rparr>"

definition exPlayer :: PlayerState where
  "exPlayer = \<lparr>pid = ''p1'', powner = Player, domain = Water, isAI = False, divinity = 7,
     faith = 0, shadowEnergy = 0, aegis = 0, units = [], ownedTiles = [(0, 0)],
     sanctifiedTiles = [], relics = [], miracles = [], victoryProgress = [],
     capturedThisTurn = 0, sanctifiedThisTurn = 0, aiPersonality = None\<rparr>"

definition exStateWith :: "PlayerState \<Rightarrow> GameState" where
  "exStateWith p = \<lparr>turn = 1, phase = Playing, currentPlayer = Player,
     players = [(Player, p)],
     tiles = [((0, 0), (exTile (0, 0))\<lparr>owner := Player\<rparr>), ((1, 0), exTile (1, 0)),
              ((2, 0), exTile (2, 0))],
     gunits = [], shadowInfluence = 20, shadowAlignmentMeter = [(Player, 0)],
     neutralFactionAlignment = NeutralFaction, activeGlobalEvents = [],
     victoryConditions = [Conquest, Sanctifier, ShadowAccord],
     victoryThresholds = [(Conquest, 3/4), (Sanctifier, 6), (ShadowAccord, 100),
                          (RelicAscension, 3)],
     mapSize = (3, 1), revealedTiles = [(0, 0)], shadowAggression = AggrNormal,
     encircleRule = False\<rparr>"

definition exState :: GameState where
  "exState = exStateWith exPlayer"

definition exEnv :: Env where
  "exEnv = \<lparr>draws = (\<lambda>_. 0), ndraws = 0, uuids = (\<lambda>_. ''u''), nuuids = 0\<rparr>"

definition exCapture :: GameAction where
  "exCapture = \<lparr>atype = Capture, playerId = ''p1'', targetTile = Some (2, 0), unitId = None,
     abilityId = None, miracleId = None, cost = None, success = False, message = None\<rparr>"

text \<open>The same map with a sacred well, its event not yet triggered, as the third tile.\<close>

definition wellTile :: Tile where
  "wellTile = (exTile (2, 0))\<lparr>ttype := SacredWell\<rparr>"

definition wellState :: GameState where
  "wellState = exState\<lparr>tiles := [((0, 0), (exTile (0, 0))\<lparr>owner := Player\<rparr>),
                                  ((1, 0), exTile (1, 0)), ((2, 0), wellTile)]\<rparr>"

text \<open>
  A map of two tiles: a Shadow tile at corruption 2 next to a sanctified tile of the
  first AI player at corruption 1. Every value of \<^verbatim>\<open>Math.random()\<close> in \<open>exEnv\<close> is 0, so
  the one spread roll of the pass succeeds.
\<close>

definition aiPlayer :: PlayerState where
  "aiPlayer = exPlayer\<lparr>pid := ''p2'', powner := AI1, isAI := True, ownedTiles := [(1, 0)],
                       sanctifiedTiles := [(1, 0)]\<rparr>"

definition spreadTile :: Tile where
  "spreadTile = (exTile (1, 0))\<lparr>owner := AI1, corruption := 1, sanctified := True,
                                domainAttunement := Some Water\<rparr>"

definition spreadState :: GameState where
  "spreadState = exState\<lparr>currentPlayer := AI1, players := [(AI1, aiPlayer)],
     tiles := [((0, 0), (exTile (0, 0))\<lparr>owner := Shadow, corruption := 2\<rparr>),
               ((1, 0), spreadTile)],
     mapSize := (2, 1)\<rparr>"

text \<open>
  Ancient ruins owned by the first AI player, at corruption 1, their event not yet
  triggered, on a map where no tile is at corruption 2; the human player is the acting
  player. The value \<open>2/3\<close> of \<^verbatim>\<open>Math.random()\<close> selects the third ruin outcome, the curse.
\<close>

definition ruinTile :: Tile where
  "ruinTile = (exTile (1, 0))\<lparr>ttype := AncientRuins, owner := AI1, corruption := 1\<rparr>"

definition ruinState :: GameState where
  "ruinState = exState\<lparr>players := [(Player, exPlayer), (AI1, aiPlayer)],
     tiles := [((0, 0), (exTile (0, 0))\<lparr>owner := Player\<rparr>), ((1, 0), ruinTile)],
     mapSize := (2, 1)\<rparr>"

definition curseEnv :: Env where
  "curseEnv = exEnv\<lparr>draws := (\<lambda>_. 2/3)\<rparr>"

text \<open>
  The three-tile map with an explorer of the human player on the first tile, the first
  and third tiles currently Visible.
\<close>

definition exExplorer :: Unit where
  "exExplorer = \<lparr>uid = ''u1'', utype = Explorer, uowner = Player, upos = (0, 0), movePoints = 3,
     maxMovePoints = 3, perception = 1, abilities = [], cooldowns = [], turnsAlive = 0\<rparr>"

definition fogState :: GameState where
  "fogState = exState\<lparr>players := [(Player, exPlayer\<lparr>units := [exExplorer]\<rparr>)],
     tiles := [((0, 0), (exTile (0, 0))\<lparr>owner := Player, visibility := Visible\<rparr>),
               ((1, 0), exTile (1, 0)),
               ((2, 0), (exTile (2, 0))\<lparr>visibility := Visible\<rparr>)],
     gunits := [(''u1'', exExplorer)]\<rparr>"

text \<open>
  A game of two players on the three-tile map: the human player, acting, with 7 unspent
  divinity, and the first AI player. Every value of \<^verbatim>\<open>Math.random()\<close> in \<open>quietEnv\<close> is
  \<open>99/100\<close>: no random event fires and no spread roll succeeds.
\<close>

definition twoPlayerState :: GameState where
  "twoPlayerState =
     exState\<lparr>players := [(Player, exPlayer),
                          (AI1, aiPlayer\<lparr>ownedTiles := [], sanctifiedTiles := []\<rparr>)]\<rparr>"

definition quietEnv :: Env where
  "quietEnv = exEnv\<lparr>draws := (\<lambda>_. 99/100)\<rparr>"





text \<open>
  The AI player's turn on the three-tile map, all tiles hidden: the AI player holds 1
  divinity, owns no tile and has one explorer with 3 move points on the first tile.
\<close>

definition aiExplorer :: Unit where
  "aiExplorer = exExplorer\<lparr>uid := ''u2'', uowner := AI1\<rparr>"

definition stuckState :: GameState where
  "stuckState =
     exState\<lparr>currentPlayer := AI1,
             players := [(AI1, aiPlayer\<lparr>divinity := 1, ownedTiles := [], sanctifiedTiles := [],
                                       units := [aiExplorer]\<rparr>)],
             tiles := [((0, 0), exTile (0, 0)), ((1, 0), exTile (1, 0)), ((2, 0), exTile (2, 0))],
             gunits := [(''u2'', aiExplorer)]\<rparr>"


text \<open>
  A game in which nothing is revealed and nothing is owned yet, and two values to save:
  a state with a map of players, sets of tile keys, a field set to \<^verbatim>\<open>undefined\<close> and
  finite numbers only, and a configuration.
\<close>

definition unexploredState :: GameState where
  "unexploredState = (exStateWith (exPlayer\<lparr>ownedTiles := []\<rparr>))
     \<lparr>tiles := [((0, 0), exTile (0, 0)), ((1, 0), exTile (1, 0)), ((2, 0), exTile (2, 0))],
      revealedTiles := []\<rparr>"

definition savedState :: jsval where
  "savedState = JObj
     [(''turn'', JNum (Num 3)), (''phase'', JStr ''playing''), (''currentPlayer'', JStr ''player''),
      (''players'', JMap [(JStr ''player'', JObj
          [(''divinity'', JNum (Num 7)), (''units'', JArr []),
           (''ownedTiles'', JSet [JStr ''0,0'', JStr ''1,0'']),
           (''victoryProgress'', JMap [(JStr ''conquest'', JNum (Num (200 / 3)))]),
           (''aiPersonality'', JUndefined)])]),
      (''tiles'', JMap [(JStr ''0,0'', JObj
          [(''position'', JObj [(''x'', JNum (Num 0)), (''y'', JNum (Num 0))]),
           (''owner'', JStr ''player''), (''sanctified'', JBool False),
           (''domainAttunement'', JUndefined)])]),
      (''victoryConditions'', JSet [JStr ''conquest'', JStr ''sanctifier'']),
      (''encircleRule'', JBool False)]"

definition savedConfig :: jsval where
  "savedConfig = JObj [(''baseDivinity'', JNum (Num 6)),
     (''shadowSpread'', JObj [(''base'', JNum (Num (1 / 10)))])]"

text \<open>
  The human player of the first map with one relic whose two capture-cost modifiers are
  the doubles written \<^verbatim>\<open>-1.9\<close> and \<^verbatim>\<open>-1.1\<close>; and with the Order domain and one relic
  whose modifier is \<^verbatim>\<open>-1\<close>.
\<close>

definition roundingRelic :: Relic where
  "roundingRelic = \<lparr>rarity = Common,
     rpassive = Some [\<lparr>mtype = CaptureCost, mvalue = toDouble (- (19 / 10))\<rparr>,
                      \<lparr>mtype = CaptureCost, mvalue = toDouble (- (11 / 10))\<rparr>],
     victoryPoints = None\<rparr>"

definition roundingPlayer :: PlayerState where
  "roundingPlayer = exPlayer\<lparr>relics := [roundingRelic]\<rparr>"

definition orderPlayer :: PlayerState where
  "orderPlayer = exPlayer\<lparr>domain := Order,
     relics := [\<lparr>rarity = Common, rpassive = Some [\<lparr>mtype = CaptureCost, mvalue = - 1\<rparr>],
                 victoryPoints = None\<rparr>]\<rparr>"

text \<open>
  The first map with a Shadow tile at corruption 2 (at stability 3, as a conversion
  leaves it) next to the human player's tile, the player holding 8 divinity, and the
  request to capture the tile: base 4, stability 3 and the corruption penalty make the
  cost 8.
\<close>

definition shadowTile :: Tile where
  "shadowTile = (exTile (1, 0))\<lparr>owner := Shadow, corruption := 2\<rparr>"

definition shadowTileState :: GameState where
  "shadowTileState = (exStateWith (exPlayer\<lparr>divinity := 8\<rparr>))
     \<lparr>tiles := [((0, 0), (exTile (0, 0))\<lparr>owner := Player\<rparr>),
                ((1, 0), shadowTile), ((2, 0), exTile (2, 0))]\<rparr>"

definition captureShadowTile :: GameAction where
  "captureShadowTile = exCapture\<lparr>targetTile := Some (1, 0)\<rparr>"

text \<open>
  A one-row map of three neutral tiles, the first two at corruption 1: each of the two is
  a spread source for the other, and with every value of \<^verbatim>\<open>Math.random()\<close> at 0 every
  roll of the pass succeeds.
\<close>

definition twoSpreadState :: GameState where
  "twoSpreadState = (exStateWith (exPlayer\<lparr>ownedTiles := []\<rparr>))
     \<lparr>tiles := [((0, 0), (exTile (0, 0))\<lparr>corruption := 1\<rparr>),
                ((1, 0), (exTile (1, 0))\<lparr>corruption := 1\<rparr>),
                ((2, 0), exTile (2, 0))]\<rparr>"

section \<open>Basic facts about the collections\<close>

lemma map_of_modify:
  "map_of (modify k f al) k' = (if k' = k then map_option f (map_of al k) else map_of al k')"
  by (auto simp: modify_def update_conv' split: option.splits)

lemma map_fst_modify: "map fst (modify k f al) = map fst al"
proof (cases "map_of al k")
  case None
  then show ?thesis by (simp add: modify_def)
next
  case (Some v)
  then have "k \<in> fst ` set al"
    by (metis map_of_eq_None_iff option.distinct(1))
  then show ?thesis
    using Some by (simp add: modify_def update_keys)
qed

lemma players_modifyTile [simp]: "players (modifyTile k f st) = players st"
  by (simp add: modifyTile_def)

lemma tiles_modifyPlayer [simp]: "tiles (modifyPlayer k f st) = tiles st"
  by (simp add: modifyPlayer_def)

lemma map_of_players_modifyPlayer:
  "map_of (players (modifyPlayer k f st)) k' =
     (if k' = k then map_option f (map_of (players st) k) else map_of (players st) k')"
  by (simp add: modifyPlayer_def map_of_modify)

lemma map_of_tiles_modifyTile:
  "map_of (tiles (modifyTile k f st)) k' =
     (if k' = k then map_option f (map_of (tiles st) k) else map_of (tiles st) k')"
  by (simp add: modifyTile_def map_of_modify)


section \<open>Claims about the Resource Ledger\<close>



section \<open>Sums that double precision keeps exact\<close>

lemma ilog2_upper:
  assumes "0 < x" and "x < 2 ^ n"
  shows "ilog2 x < int n"
proof (cases "1 \<le> x")
  case True
  have "\<lfloor>x\<rfloor> < 2 ^ n"
    using assms(2) by (simp add: floor_less_iff)
  then have "bitlen \<lfloor>x\<rfloor> \<le> int n"
    by (simp add: bitlen_le_iff_power)
  then show ?thesis using True by (simp add: ilog2_def)
next
  case False
  have "1 < 1 / x"
    using False assms(1) by simp
  then have "1 < \<lceil>1 / x\<rceil>"
    by (simp add: less_ceiling_iff)
  then have "bitlen (\<lceil>1 / x\<rceil> - 1) \<noteq> 0"
    by (simp add: bitlen_eq_zero_iff)
  then have "0 < bitlen (\<lceil>1 / x\<rceil> - 1)"
    using bitlen_nonneg [of "\<lceil>1 / x\<rceil> - 1"] by simp
  then show ?thesis using False by (simp add: ilog2_def)
qed

lemma roundHalfEven_int: "roundHalfEven (of_int n) = n"
  by (simp add: roundHalfEven_def)

text \<open>A whole or half number below \<open>2\<^sup>5\<^sup>2\<close> in magnitude is a double.\<close>

lemma toDouble_exact:
  assumes h: "halfInteger x" and b: "\<bar>x\<bar> < 2 ^ 52"
  shows "toDouble x = x"
proof (cases "x = 0")
  case True
  then show ?thesis by (simp add: toDouble_def)
next
  case False
  define e where "e = max (ilog2 \<bar>x\<bar> - 52) (- 1074)"
  have "ilog2 \<bar>x\<bar> < 52"
    using ilog2_upper [of "\<bar>x\<bar>" 52] False b by simp
  then have e: "e < 0" by (simp add: e_def)
  define n where "n = nat (- e) - 1"
  have en: "- e = int (Suc n)" using e by (simp add: n_def)
  have "e = - int (Suc n)" using en by simp
  then have "(2::rat) powi e = inverse (2 powi int (Suc n))"
    by (simp only: power_int_minus)
  then have p: "(2::rat) powi e = inverse (2 ^ Suc n)"
    by (simp only: power_int_of_nat)
  from h obtain m where m: "2 * x = of_int m"
    by (auto simp: halfInteger_def dest: sym)
  have "x / 2 powi e = x * 2 ^ Suc n"
    by (simp only: p divide_inverse inverse_inverse_eq)
  also have "\<dots> = of_int (m * 2 ^ n)"
    using m by simp
  finally have q: "x / 2 powi e = of_int (m * 2 ^ n)" .
  have "toDouble x = of_int (roundHalfEven (x / 2 powi e)) * 2 powi e"
    using False by (simp add: toDouble_def e_def Let_def)
  also have "\<dots> = of_int (m * 2 ^ n) * 2 powi e"
    by (simp only: q roundHalfEven_int)
  also have "\<dots> = x / 2 powi e * 2 powi e"
    by (simp only: q)
  also have "\<dots> = x"
    by (simp only: p divide_inverse inverse_inverse_eq) simp
  finally show ?thesis .
qed

lemma halfInteger_iff: "halfInteger x = (2 * x \<in> \<int>)"
  by (auto simp: halfInteger_def Ints_def)

lemma halfInteger_add: "halfInteger a \<Longrightarrow> halfInteger b \<Longrightarrow> halfInteger (a + b)"
  by (simp add: halfInteger_iff distrib_left)

lemma halfInteger_diff: "halfInteger a \<Longrightarrow> halfInteger b \<Longrightarrow> halfInteger (a - b)"
  by (simp add: halfInteger_iff right_diff_distrib)

lemma halfInteger_of_int: "halfInteger (of_int n)"
  by (simp add: halfInteger_iff)

lemma toDouble_add:
  assumes "halfInteger a" and "halfInteger b" and "\<bar>a\<bar> + \<bar>b\<bar> < 2 ^ 52"
  shows "toDouble (a + b) = a + b"
proof (rule toDouble_exact)
  show "halfInteger (a + b)" using assms(1,2) by (rule halfInteger_add)
  have "\<bar>a + b\<bar> \<le> \<bar>a\<bar> + \<bar>b\<bar>" by (rule abs_triangle_ineq)
  then show "\<bar>a + b\<bar> < 2 ^ 52" using assms(3) by simp
qed

lemma toDouble_diff:
  assumes "halfInteger a" and "halfInteger b" and "\<bar>a\<bar> + \<bar>b\<bar> < 2 ^ 52"
  shows "toDouble (a - b) = a - b"
proof (rule toDouble_exact)
  show "halfInteger (a - b)" using assms(1,2) by (rule halfInteger_diff)
  have "\<bar>a - b\<bar> \<le> \<bar>a\<bar> + \<bar>b\<bar>" by (rule abs_triangle_ineq4)
  then show "\<bar>a - b\<bar> < 2 ^ 52" using assms(3) by simp
qed

lemma double_sum_exact:
  assumes "halfInteger c" and "list_all halfInteger vs"
    and "\<bar>c\<bar> + sum_list (map abs vs) < 2 ^ 52"
  shows "fold (\<lambda>v c'. toDouble (c' + v)) vs c = c + sum_list vs"
  using assms
proof (induction vs arbitrary: c)
  case Nil
  then show ?case by simp
next
  case (Cons v vs)
  have nn: "0 \<le> sum_list (map abs vs)"
    by (rule sum_list_nonneg) auto
  have hv: "halfInteger v" and hvs: "list_all halfInteger vs"
    using Cons.prems(2) by simp_all
  have b: "\<bar>c\<bar> + \<bar>v\<bar> + sum_list (map abs vs) < 2 ^ 52"
    using Cons.prems(3) by simp
  have s: "toDouble (c + v) = c + v"
    using Cons.prems(1) hv by (rule toDouble_add) (use b nn in linarith)
  have t: "\<bar>c + v\<bar> \<le> \<bar>c\<bar> + \<bar>v\<bar>" by (rule abs_triangle_ineq)
  have "fold (\<lambda>v c'. toDouble (c' + v)) vs (c + v) = (c + v) + sum_list vs"
  proof (rule Cons.IH)
    show "halfInteger (c + v)" using Cons.prems(1) hv by (rule halfInteger_add)
    show "list_all halfInteger vs" by (rule hvs)
    show "\<bar>c + v\<bar> + sum_list (map abs vs) < 2 ^ 52" using b t by linarith
  qed
  then show ?case by (simp add: s)
qed


section \<open>The capture resolver meets its specification\<close>

lemma distinct_getNeighbors: "distinct (getNeighbors x y st)"
  by (simp add: getNeighbors_def)

lemma adjacency_fold:
  "fold (\<lambda>neighborKey n. case map_of (tiles st) neighborKey of None \<Rightarrow> n
           | Some neighbor \<Rightarrow> if owner neighbor = powner player then n + 1 else n) xs (c::int)
   = c + int (length (filter (\<lambda>k. \<exists>n. map_of (tiles st) k = Some n \<and> owner n = powner player) xs))"
  by (induction xs arbitrary: c) (auto split: option.splits)

lemma calculateAdjacencyBonus_spec:
  "calculateAdjacencyBonus st player tile = spec_adjacencyBonus (spec_ownedNeighbors st player tile)"
proof -
  let ?P = "\<lambda>k. \<exists>n. map_of (tiles st) k = Some n \<and> owner n = powner player"
  let ?x = "fst (position tile)" and ?y = "snd (position tile)"
  let ?ns = "getNeighbors ?x ?y st"
  have d: "distinct (filter ?P ?ns)"
    using distinct_getNeighbors by simp
  have "{k \<in> {(?x, ?y - 1), (?x + 1, ?y), (?x, ?y + 1), (?x - 1, ?y)}. inBounds st k \<and> ?P k}
        = set (filter ?P ?ns)"
    by (auto simp: getNeighbors_def)
  then have "spec_ownedNeighbors st player tile = card (set (filter ?P ?ns))"
    by (simp add: spec_ownedNeighbors_def Let_def)
  also have "\<dots> = length (filter ?P ?ns)"
    by (rule distinct_card [OF d])
  finally show ?thesis
    by (simp add: calculateAdjacencyBonus_def adjacency_fold spec_adjacencyBonus_def Let_def)
qed

lemma support_fold:
  "fold (\<lambda>u support.
             if utype u = Herald then
               (let distance = \<bar>fst (upos u) - fst (position tile)\<bar> +
                               \<bar>snd (upos u) - snd (position tile)\<bar>
                in if distance = 1 then support + 1 else support)
             else support) us (c::int)
        = c + int (length (filter (\<lambda>u. utype u = Herald \<and>
                               \<bar>fst (upos u) - fst (position tile)\<bar> +
                               \<bar>snd (upos u) - snd (position tile)\<bar> = 1) us))"
  by (induction us arbitrary: c) (auto simp: Let_def)

lemma calculateUnitSupport_spec:
  "calculateUnitSupport st player tile = spec_unitSupport player tile"
  by (simp add: calculateUnitSupport_def spec_unitSupport_def support_fold)

text \<open>The two nested loops over the relics add the capture-cost modifiers one by one.\<close>

lemma relic_inner_fold:
  "fold (\<lambda>m c'. if mtype m = CaptureCost then toDouble (c' + mvalue m) else c') ms (c::rat)
   = fold (\<lambda>v c'. toDouble (c' + v)) (map mvalue (filter (\<lambda>m. mtype m = CaptureCost) ms)) c"
  by (induction ms arbitrary: c) auto

lemma relic_outer_fold:
  "fold (\<lambda>relic c.
             case rpassive relic of
               None \<Rightarrow> c
             | Some ms \<Rightarrow>
                 fold (\<lambda>m c'. if mtype m = CaptureCost then toDouble (c' + mvalue m) else c') ms c)
       rs (c::rat)
     = fold (\<lambda>v c'. toDouble (c' + v))
         (map mvalue (filter (\<lambda>m. mtype m = CaptureCost)
           (concat (map (\<lambda>r. case rpassive r of None \<Rightarrow> [] | Some ms \<Rightarrow> ms) rs)))) c"
  by (induction rs arbitrary: c) (auto simp: relic_inner_fold split: option.splits)

lemma applyRelicCaptureModifiers_list:
  "applyRelicCaptureModifiers player c
   = fold (\<lambda>v c'. toDouble (c' + v)) (spec_relicModifierList player) c"
  by (simp add: applyRelicCaptureModifiers_def spec_relicModifierList_def relic_outer_fold)

lemma halfInteger_domainModifier: "halfInteger (getDomainCaptureModifier d tile)"
  by (simp add: getDomainCaptureModifier_def halfInteger_def split: DomainType.splits)

lemma abs_domainModifier: "\<bar>getDomainCaptureModifier d tile\<bar> \<le> 1"
  by (simp add: getDomainCaptureModifier_def split: DomainType.splits)

text \<open>
  On inputs with exact sums every rounding step of the cost is the identity, and the
  running sum is the formula's sum.
\<close>

lemma calculateCaptureCost_spec:
  assumes ex: "spec_exactSums cfg player tile"
  shows "calculateCaptureCost cfg st player tile = spec_captureCost cfg st player tile"
proof -
  define b where "b = captureBaseCost cfg"
  define s :: rat where "s = of_int (stability tile)"
  define a :: rat where "a = of_int (spec_adjacencyBonus (spec_ownedNeighbors st player tile))"
  define d where "d = getDomainCaptureModifier (domain player) tile"
  define u :: rat where "u = of_int (spec_unitSupport player tile)"
  define L where "L = spec_relicModifierList player"
  note defs = b_def s_def a_def d_def u_def L_def
  have hb: "halfInteger b" and hL: "list_all halfInteger L"
    and bound: "\<bar>b\<bar> + \<bar>s\<bar> + u + 4 + sum_list (map abs L) < 2 ^ 52"
    using ex by (simp_all add: spec_exactSums_def defs)
  have hs: "halfInteger s" and ha: "halfInteger a" and hu: "halfInteger u"
    by (simp_all add: s_def a_def u_def halfInteger_of_int)
  have hd: "halfInteger d"
    by (simp add: d_def halfInteger_domainModifier)
  have h1: "halfInteger (1::rat)"
    by (simp add: halfInteger_def)
  have ba: "\<bar>a\<bar> \<le> 2"
    by (simp add: a_def spec_adjacencyBonus_def)
  have bd: "\<bar>d\<bar> \<le> 1"
    by (simp add: d_def abs_domainModifier)
  have bu: "\<bar>u\<bar> = u"
    by (simp add: u_def spec_unitSupport_def)
  have nn: "0 \<le> sum_list (map abs L)"
    by (rule sum_list_nonneg) auto
  have c1: "toDouble (b + s) = b + s"
    using hb hs by (rule toDouble_add) (use bound nn bu in linarith)
  have t1: "\<bar>b + s\<bar> \<le> \<bar>b\<bar> + \<bar>s\<bar>"
    by (rule abs_triangle_ineq)
  have c2: "toDouble (b + s - a) = b + s - a"
    using halfInteger_add [OF hb hs] ha by (rule toDouble_diff) (use bound nn bu t1 ba in linarith)
  have t2: "\<bar>b + s - a\<bar> \<le> \<bar>b + s\<bar> + \<bar>a\<bar>"
    by (rule abs_triangle_ineq4)
  have h2: "halfInteger (b + s - a)"
    using halfInteger_add [OF hb hs] ha by (rule halfInteger_diff)
  have c3: "toDouble (b + s - a + d) = b + s - a + d"
    using h2 hd by (rule toDouble_add) (use bound nn bu t1 t2 ba bd in linarith)
  have t3: "\<bar>b + s - a + d\<bar> \<le> \<bar>b + s - a\<bar> + \<bar>d\<bar>"
    by (rule abs_triangle_ineq)
  have h3: "halfInteger (b + s - a + d)"
    using h2 hd by (rule halfInteger_add)
  have c4: "toDouble (b + s - a + d - u) = b + s - a + d - u"
    using h3 hu by (rule toDouble_diff) (use bound nn bu t1 t2 t3 ba bd in linarith)
  have t4: "\<bar>b + s - a + d - u\<bar> \<le> \<bar>b + s - a + d\<bar> + \<bar>u\<bar>"
    by (rule abs_triangle_ineq4)
  have h4: "halfInteger (b + s - a + d - u)"
    using h3 hu by (rule halfInteger_diff)
  have c5: "toDouble (b + s - a + d - u + 1) = b + s - a + d - u + 1"
    using h4 h1 by (rule toDouble_add) (use bound nn bu t1 t2 t3 t4 ba bd in linarith)
  have t5: "\<bar>b + s - a + d - u + 1\<bar> \<le> \<bar>b + s - a + d - u\<bar> + 1"
    using abs_triangle_ineq [of "b + s - a + d - u" 1] by simp
  have h5: "halfInteger (b + s - a + d - u + 1)"
    using h4 h1 by (rule halfInteger_add)
  have r0: "fold (\<lambda>v c'. toDouble (c' + v)) L (b + s - a + d - u)
            = b + s - a + d - u + sum_list L"
    using h4 hL by (rule double_sum_exact) (use bound bu t1 t2 t3 t4 ba bd in linarith)
  have r1: "fold (\<lambda>v c'. toDouble (c' + v)) L (b + s - a + d - u + 1)
            = b + s - a + d - u + 1 + sum_list L"
    using h5 hL by (rule double_sum_exact) (use bound bu t1 t2 t3 t4 t5 ba bd in linarith)
  have "calculateCaptureCost cfg st player tile
        = max 1 \<lfloor>fold (\<lambda>v c'. toDouble (c' + v)) L
                    (if corruption tile > 0 then toDouble (toDouble (toDouble (toDouble
                       (toDouble (b + s) - a) + d) - u) + 1)
                     else toDouble (toDouble (toDouble (toDouble (b + s) - a) + d) - u))\<rfloor>"
    by (simp add: calculateCaptureCost_def Let_def calculateAdjacencyBonus_spec
        calculateUnitSupport_spec applyRelicCaptureModifiers_list defs)
  also have "\<dots> = max 1 \<lfloor>b + s - a + d - u + spec_corruptionPenalty tile + sum_list L\<rfloor>"
    by (simp only: c1 c2 c3 c4 c5) (simp add: r0 r1 spec_corruptionPenalty_def)
  finally show ?thesis
    by (simp add: spec_captureCost_def spec_relicModifiers_def defs)
qed

lemma scenario_exactSums:
  "captureScenario cfg st player tile \<Longrightarrow> spec_exactSums cfg player tile"
  by (simp add: captureScenario_def spec_exactSums_def halfInteger_def)

lemma scenario_cost:
  assumes s: "captureScenario cfg st player tile"
  shows "calculateCaptureCost cfg st player tile = 7"
proof -
  have "calculateCaptureCost cfg st player tile = spec_captureCost cfg st player tile"
    by (rule calculateCaptureCost_spec [OF scenario_exactSums [OF s]])
  also have "\<dots> = 7"
    using s
    by (simp add: spec_captureCost_def captureScenario_def spec_adjacencyBonus_def
        spec_corruptionPenalty_def spec_relicModifiers_def)
  finally show ?thesis .
qed


lemma desanctify_keeps [simp]:
  "ttype (desanctify t) = ttype t" "eventTriggered (desanctify t) = eventTriggered t"
  "owner (desanctify t) = owner t" "corruption (desanctify t) = corruption t"
  by (simp_all add: desanctify_def)

lemma players_gunits_update [simp]: "players (st\<lparr>gunits := g\<rparr>) = players st"
  by simp

lemma applyDomainCaptureEffects_divinity:
  "map_option divinity (map_of (players (fst (applyDomainCaptureEffects pk k e st))) pk')
   = map_option divinity (map_of (players st) pk')"
  by (auto simp: applyDomainCaptureEffects_def spawnWight_def Let_def nextUUID_def
      map_of_players_modifyPlayer option.map_comp comp_def
      split: option.splits DomainType.splits prod.splits)

lemma applyDomainCaptureEffects_ttype:
  "map_option ttype (map_of (tiles (fst (applyDomainCaptureEffects pk k e st))) k')
   = map_option ttype (map_of (tiles st) k')"
  by (auto simp: applyDomainCaptureEffects_def spawnWight_def Let_def nextUUID_def
      map_of_tiles_modifyTile option.map_comp comp_def
      split: option.splits DomainType.splits prod.splits)

lemma applyDomainCaptureEffects_eventTriggered:
  "map_option eventTriggered (map_of (tiles (fst (applyDomainCaptureEffects pk k e st))) k')
   = map_option eventTriggered (map_of (tiles st) k')"
  by (auto simp: applyDomainCaptureEffects_def spawnWight_def Let_def nextUUID_def
      map_of_tiles_modifyTile option.map_comp comp_def
      split: option.splits DomainType.splits prod.splits)

lemma triggerTileEvents_divinity:
  assumes "map_option divinity (map_of (players st) pk) = Some d"
    and "map_option ttype (map_of (tiles st) k) = Some ty"
    and "map_option eventTriggered (map_of (tiles st) k) = Some ev"
  shows "map_option divinity (map_of (players (triggerTileEvents pk k st)) pk)
         = Some (if ty = SacredWell \<and> \<not> ev then d + 2 else d)"
  using assms
  by (auto simp: triggerTileEvents_def Let_def map_of_players_modifyPlayer
      split: option.splits TileType.splits)

lemma removeFromPreviousOwner_divinity:
  "map_option divinity (map_of (players (removeFromPreviousOwner po k st)) pk)
   = map_option divinity (map_of (players st) pk)"
  by (auto simp: removeFromPreviousOwner_def map_of_players_modifyPlayer option.map_comp comp_def)

lemma tiles_removeFromPreviousOwner [simp]:
  "tiles (removeFromPreviousOwner po k st) = tiles st"
  by (simp add: removeFromPreviousOwner_def)

lemma executeCapture_fails:
  assumes "captureRequest st action player tileKey tile"
    and "divinity player < of_int (calculateCaptureCost cfg st player tile)"
  shows "fst (executeCapture cfg e st action) = False \<and>
         fst (snd (executeCapture cfg e st action)) = st"
  using assms by (simp add: executeCapture_def captureRequest_def Let_def)

lemma executeCapture_succeeds:
  assumes r: "captureRequest st action player tileKey tile"
    and d: "\<not> divinity player < of_int (calculateCaptureCost cfg st player tile)"
  shows "fst (executeCapture cfg e st action) = True \<and>
         map_option divinity (map_of (players (fst (snd (executeCapture cfg e st action))))
           (currentPlayer st))
         = Some (divinity player - of_int (calculateCaptureCost cfg st player tile)
                 + (if ttype tile = SacredWell \<and> \<not> eventTriggered tile then 2 else 0))"
proof -
  let ?pk = "currentPlayer st"
  let ?cost = "calculateCaptureCost cfg st player tile"
  define st6 where "st6 =
     modifyPlayer ?pk (\<lambda>p. p\<lparr>divinity := divinity p - of_int ?cost,
                              capturedThisTurn := capturedThisTurn p + 1\<rparr>)
      (modifyTile tileKey desanctify
        (modifyTile tileKey (\<lambda>t. t\<lparr>stability := max 1 (stability t - 1)\<rparr>)
          (modifyPlayer ?pk (\<lambda>p. p\<lparr>ownedTiles := set_add tileKey (ownedTiles p)\<rparr>)
            (modifyTile tileKey (\<lambda>t. t\<lparr>owner := powner player\<rparr>)
              (removeFromPreviousOwner (owner tile) tileKey st)))))"
  define st7 where "st7 = fst (applyDomainCaptureEffects ?pk tileKey e st6)"
  have p: "map_of (players st) ?pk = Some player" and t: "map_of (tiles st) tileKey = Some tile"
    using r by (simp_all add: captureRequest_def)
  have "map_option divinity (map_of (players (removeFromPreviousOwner (owner tile) tileKey st)) ?pk)
        = Some (divinity player)"
    by (simp add: removeFromPreviousOwner_divinity p)
  then have d6: "map_option divinity (map_of (players st6) ?pk) = Some (divinity player - of_int ?cost)"
    by (auto simp: st6_def map_of_players_modifyPlayer)
  have ty6: "map_option ttype (map_of (tiles st6) tileKey) = Some (ttype tile)"
    by (simp add: st6_def map_of_tiles_modifyTile t)
  have ev6: "map_option eventTriggered (map_of (tiles st6) tileKey) = Some (eventTriggered tile)"
    by (simp add: st6_def map_of_tiles_modifyTile t)
  have d7: "map_option divinity (map_of (players st7) ?pk) = Some (divinity player - of_int ?cost)"
    by (simp add: st7_def applyDomainCaptureEffects_divinity d6)
  have ty7: "map_option ttype (map_of (tiles st7) tileKey) = Some (ttype tile)"
    by (simp add: st7_def applyDomainCaptureEffects_ttype ty6)
  have ev7: "map_option eventTriggered (map_of (tiles st7) tileKey) = Some (eventTriggered tile)"
    by (simp add: st7_def applyDomainCaptureEffects_eventTriggered ev6)
  have res: "executeCapture cfg e st action =
      (True, triggerTileEvents ?pk tileKey st7,
       action\<lparr>cost := Some \<lparr>cdivinity = Some (of_int ?cost), cfaith = None, cshadowEnergy = None\<rparr>,
              message := Some (Captured (position tile))\<rparr>,
       snd (applyDomainCaptureEffects ?pk tileKey e st6))"
    using r d
    by (simp add: executeCapture_def captureRequest_def Let_def st6_def st7_def split: prod.splits)
  show ?thesis
    using triggerTileEvents_divinity [OF d7 ty7 ev7] by (auto simp: res split: if_splits)
qed

text \<open>
  The running sum of doubles and the exact sum can fall on different sides of a whole
  number: with base cost 4, stability 3 and relic modifiers \<^verbatim>\<open>-1.9\<close> and \<^verbatim>\<open>-1.1\<close> the
  program computes \<open>7 - 1.9 - 1.1\<close> as \<open>3.9999999999999996\<close> and charges 3, where the
  exact sum of the same two doubles is 4.
\<close>

lemma rounding_sum:
  "\<lfloor>toDouble (toDouble (7 + toDouble (- (19 / 10))) + toDouble (- (11 / 10)))\<rfloor> = 3"
  "\<lfloor>toDouble (- (19 / 10)) + toDouble (- (11 / 10))\<rfloor> = - 3"
  by code_simp+

lemma toDouble_7: "toDouble 7 = 7"
  by (rule toDouble_exact) (simp_all add: halfInteger_def)

lemma rounding_cost:
  "calculateCaptureCost defaultGameConfig (exStateWith roundingPlayer) roundingPlayer (exTile (2, 0)) = 3"
  "spec_captureCost defaultGameConfig (exStateWith roundingPlayer) roundingPlayer (exTile (2, 0)) = 4"
proof -
  have n: "spec_ownedNeighbors (exStateWith roundingPlayer) roundingPlayer (exTile (2, 0)) = 0"
    by (simp add: spec_ownedNeighbors_def exStateWith_def roundingPlayer_def exPlayer_def
        exTile_def inBounds_def Let_def)
  have u: "spec_unitSupport roundingPlayer (exTile (2, 0)) = 0"
    by (simp add: spec_unitSupport_def roundingPlayer_def exPlayer_def)
  have d: "getDomainCaptureModifier (domain roundingPlayer) (exTile (2, 0)) = 0"
    by (simp add: getDomainCaptureModifier_def roundingPlayer_def exPlayer_def)
  have l: "spec_relicModifierList roundingPlayer = [toDouble (- (19 / 10)), toDouble (- (11 / 10))]"
    by (simp add: spec_relicModifierList_def roundingPlayer_def roundingRelic_def)
  have t: "captureBaseCost defaultGameConfig = 4" "stability (exTile (2, 0)) = 3"
    "corruption (exTile (2, 0)) = 0"
    by (simp_all add: defaultGameConfig_def exTile_def)
  show "calculateCaptureCost defaultGameConfig (exStateWith roundingPlayer) roundingPlayer
          (exTile (2, 0)) = 3"
    by (simp add: calculateCaptureCost_def Let_def calculateAdjacencyBonus_spec
        calculateUnitSupport_spec applyRelicCaptureModifiers_list n u d l t
        spec_adjacencyBonus_def toDouble_7 rounding_sum)
  show "spec_captureCost defaultGameConfig (exStateWith roundingPlayer) roundingPlayer
          (exTile (2, 0)) = 4"
    using rounding_sum(2)
    by (simp add: spec_captureCost_def n u d l t spec_adjacencyBonus_def
        spec_corruptionPenalty_def spec_relicModifiers_def)
qed

text \<open>
  C1 (as stated) fails in two ways. The cost is not always the formula's value: for the
  player whose relic modifiers are the doubles \<^verbatim>\<open>-1.9\<close> and \<^verbatim>\<open>-1.1\<close> (base cost 4,
  stability 3, nothing else) the program's cost is 3 and the formula's is 4. And in the
  scenario (base cost 4, stability 3, no owned neighbour, no domain, unit or relic
  modifier, no corruption) a capture by a player with divinity 7 does not always leave
  divinity 0: when the captured tile is a sacred well whose first-capture event has not
  fired, the capture costs 7 and the well's blessing then grants 2 divinity in the same
  call.
\<close>

theorem C1_rounding_and_sacred_well_counterexample:
  "calculateCaptureCost defaultGameConfig (exStateWith roundingPlayer) roundingPlayer
     (exTile (2, 0)) = 3 \<and>
   spec_captureCost defaultGameConfig (exStateWith roundingPlayer) roundingPlayer
     (exTile (2, 0)) = 4 \<and>
   captureScenario defaultGameConfig wellState exPlayer wellTile \<and>
   captureRequest wellState exCapture exPlayer (2, 0) wellTile \<and>
   divinity exPlayer = 7 \<and>
   calculateCaptureCost defaultGameConfig wellState exPlayer wellTile = 7 \<and>
   fst (executeCapture defaultGameConfig exEnv wellState exCapture) \<and>
   map_option divinity
     (map_of (players (fst (snd (executeCapture defaultGameConfig exEnv wellState exCapture))))
        Player) = Some 2"
proof -
  have s: "captureScenario defaultGameConfig wellState exPlayer wellTile"
    by (simp add: captureScenario_def defaultGameConfig_def wellState_def exState_def
        exStateWith_def exPlayer_def wellTile_def exTile_def spec_ownedNeighbors_def inBounds_def
        getDomainCaptureModifier_def spec_unitSupport_def spec_relicModifierList_def Let_def)
  have r: "captureRequest wellState exCapture exPlayer (2, 0) wellTile"
    by (simp add: captureRequest_def wellState_def exState_def exStateWith_def exCapture_def
        exPlayer_def wellTile_def exTile_def)
  have c: "calculateCaptureCost defaultGameConfig wellState exPlayer wellTile = 7"
    using s by (rule scenario_cost)
  have d: "divinity exPlayer = 7"
    by (simp add: exPlayer_def)
  have "\<not> divinity exPlayer < of_int (calculateCaptureCost defaultGameConfig wellState exPlayer wellTile)"
    by (simp add: c d)
  moreover have ty: "ttype wellTile = SacredWell" "\<not> eventTriggered wellTile"
    by (simp_all add: wellTile_def exTile_def)
  ultimately have "fst (executeCapture defaultGameConfig exEnv wellState exCapture) \<and>
        map_option divinity
          (map_of (players (fst (snd (executeCapture defaultGameConfig exEnv wellState exCapture))))
            (currentPlayer wellState)) = Some 2"
    using executeCapture_succeeds [OF r, of defaultGameConfig exEnv] by (simp add: c d)
  moreover have "currentPlayer wellState = Player"
    by (simp add: wellState_def exState_def exStateWith_def)
  ultimately show ?thesis
    using s r c d rounding_cost by simp
qed

text \<open>
  C1 (amended): for every tile and acting player whose sums are exact (the base cost and
  every relic capture-cost modifier a whole or half number, the magnitudes of all terms
  adding up to less than \<open>2\<^sup>5\<^sup>2\<close>) the capture cost is
  \<open>max 1 \<lfloor>base + stability - adjacencyBonus + domainModifier - unitSupport +
  corruptionPenalty + relic modifiers\<rfloor>\<close>, with the adjacency bonus 2 for at least 4
  owned orthogonal neighbours, 1 for at least 2, else 0, the corruption penalty 1 exactly
  when the tile's corruption is positive, and one point of support per herald at
  Manhattan distance 1. In the scenario (no relic capture-cost modifier at all) the cost
  is 7; a capture request by the acting player with divinity 7 for a passable tile of
  the map that the player does not own succeeds and leaves divinity 0, or 2 when the
  tile is a sacred well whose event has not fired; with divinity 6 it fails and the game
  state, so the tile's ownership, is unchanged.
\<close>

theorem C1_capture_cost:
  "(spec_exactSums cfg player tile \<longrightarrow>
      calculateCaptureCost cfg st player tile = spec_captureCost cfg st player tile) \<and>
   (captureScenario cfg st player tile \<longrightarrow>
      calculateCaptureCost cfg st player tile = 7 \<and>
      (captureRequest st action player tileKey tile \<longrightarrow>
         (divinity player = 7 \<longrightarrow>
            fst (executeCapture cfg e st action) \<and>
            map_option divinity
              (map_of (players (fst (snd (executeCapture cfg e st action)))) (currentPlayer st))
            = Some (if ttype tile = SacredWell \<and> \<not> eventTriggered tile then 2 else 0)) \<and>
         (divinity player = 6 \<longrightarrow>
            \<not> fst (executeCapture cfg e st action) \<and>
            fst (snd (executeCapture cfg e st action)) = st)))"
proof (intro conjI impI)
  assume "spec_exactSums cfg player tile"
  then show "calculateCaptureCost cfg st player tile = spec_captureCost cfg st player tile"
    by (rule calculateCaptureCost_spec)
next
  assume "captureScenario cfg st player tile"
  then show "calculateCaptureCost cfg st player tile = 7"
    by (rule scenario_cost)
next
  assume s: "captureScenario cfg st player tile"
    and r: "captureRequest st action player tileKey tile"
    and d: "divinity player = 7"
  have c: "calculateCaptureCost cfg st player tile = 7"
    using s by (rule scenario_cost)
  have n: "\<not> divinity player < of_int (calculateCaptureCost cfg st player tile)"
    by (simp add: c d)
  show "fst (executeCapture cfg e st action)"
    using executeCapture_succeeds [OF r n] by simp
  show "map_option divinity
          (map_of (players (fst (snd (executeCapture cfg e st action)))) (currentPlayer st))
        = Some (if ttype tile = SacredWell \<and> \<not> eventTriggered tile then 2 else 0)"
    using executeCapture_succeeds [OF r n, of e] by (simp add: c d)
next
  assume s: "captureScenario cfg st player tile"
    and r: "captureRequest st action player tileKey tile"
    and d: "divinity player = 6"
  have c: "calculateCaptureCost cfg st player tile = 7"
    using s by (rule scenario_cost)
  have n: "divinity player < of_int (calculateCaptureCost cfg st player tile)"
    by (simp add: c d)
  show "\<not> fst (executeCapture cfg e st action)"
    using executeCapture_fails [OF r n] by simp
  show "fst (snd (executeCapture cfg e st action)) = st"
    using executeCapture_fails [OF r n] by simp
qed

theorem C1_capture_cost_witness:
  "spec_exactSums defaultGameConfig orderPlayer (exTile (2, 0)) \<and>
   calculateCaptureCost defaultGameConfig (exStateWith orderPlayer) orderPlayer (exTile (2, 0)) = 5 \<and>
   calculateCaptureCost defaultGameConfig exState exPlayer (exTile (2, 0)) = 7 \<and>
   fst (executeCapture defaultGameConfig exEnv exState exCapture) \<and>
   map_option divinity
     (map_of (players (fst (snd (executeCapture defaultGameConfig exEnv exState exCapture))))
        Player) = Some 0 \<and>
   \<not> fst (executeCapture defaultGameConfig exEnv (exStateWith (exPlayer\<lparr>divinity := 6\<rparr>)) exCapture) \<and>
   fst (snd (executeCapture defaultGameConfig exEnv (exStateWith (exPlayer\<lparr>divinity := 6\<rparr>)) exCapture))
     = exStateWith (exPlayer\<lparr>divinity := 6\<rparr>)"
proof -
  have x: "spec_exactSums defaultGameConfig orderPlayer (exTile (2, 0))"
    by (simp add: spec_exactSums_def defaultGameConfig_def orderPlayer_def exPlayer_def
        exTile_def spec_relicModifierList_def spec_unitSupport_def halfInteger_def)
  have fl: "\<lfloor>11 / 2 :: rat\<rfloor> = 5"
    by (simp add: floor_eq_iff)
  have f: "spec_captureCost defaultGameConfig (exStateWith orderPlayer) orderPlayer (exTile (2, 0)) = 5"
    by (simp add: fl spec_captureCost_def defaultGameConfig_def orderPlayer_def exPlayer_def
        exStateWith_def exTile_def spec_ownedNeighbors_def inBounds_def spec_adjacencyBonus_def
        getDomainCaptureModifier_def spec_unitSupport_def spec_corruptionPenalty_def
        spec_relicModifiers_def spec_relicModifierList_def Let_def)
  have o: "calculateCaptureCost defaultGameConfig (exStateWith orderPlayer) orderPlayer
             (exTile (2, 0)) = 5"
    using C1_capture_cost [where cfg = defaultGameConfig and st = "exStateWith orderPlayer"
        and player = orderPlayer and tile = "exTile (2, 0)"] x f by simp
  show ?thesis
    using C1_capture_cost [where cfg = defaultGameConfig and st = exState and player = exPlayer
        and tile = "exTile (2, 0)" and action = exCapture and tileKey = "(2, 0)" and e = exEnv]
      C1_capture_cost [where cfg = defaultGameConfig
        and st = "exStateWith (exPlayer\<lparr>divinity := 6\<rparr>)" and player = "exPlayer\<lparr>divinity := 6\<rparr>"
        and tile = "exTile (2, 0)" and action = exCapture and tileKey = "(2, 0)" and e = exEnv]
      x o
    by (simp add: captureScenario_def captureRequest_def defaultGameConfig_def exState_def
        exStateWith_def exPlayer_def exTile_def exCapture_def spec_ownedNeighbors_def inBounds_def
        getDomainCaptureModifier_def spec_unitSupport_def spec_relicModifierList_def Let_def)
qed

section \<open>One pass of the corruption spread\<close>

lemma spreadToNeighbor_not_candidate:
  "\<not> isCandidate st k \<Longrightarrow> spreadToNeighbor cfg st k acc = acc"
  by (auto simp: isCandidate_def spreadToNeighbor_def split: option.splits)

lemma fold_spreadToNeighbor_filter:
  "fold (spreadToNeighbor cfg st) (filter (isCandidate st) ks) acc
   = fold (spreadToNeighbor cfg st) ks acc"
  by (induction ks arbitrary: acc) (auto simp: spreadToNeighbor_not_candidate)

lemma fold_tiles_concat:
  "fold (\<lambda>(key, tile) acc.
             if corruption tile < 1 \<and> owner tile \<noteq> Shadow then acc
             else fold (spreadToNeighbor cfg st)
                    (getNeighbors (fst (position tile)) (snd (position tile)) st) acc) ts acc
   = fold (spreadToNeighbor cfg st)
       (concat (map (\<lambda>(key, tile).
                    if corruption tile < 1 \<and> owner tile \<noteq> Shadow then []
                    else filter (isCandidate st)
                           (getNeighbors (fst (position tile)) (snd (position tile)) st)) ts)) acc"
  by (induction ts arbitrary: acc) (auto simp: fold_spreadToNeighbor_filter)

lemma spreadScan_candidates:
  "spreadScan cfg st e = fold (spreadToNeighbor cfg st) (spreadCandidates st) ([], e)"
  by (simp add: spreadScan_def spreadCandidates_def fold_tiles_concat)

lemma spreadToNeighbor_candidate:
  assumes "isCandidate st k"
  shows "spreadToNeighbor cfg st k (m, e\<lparr>ndraws := ndraws e + j\<rparr>)
         = ((if rollSucceeds cfg st e j k then recordSpread st k m else m),
            e\<lparr>ndraws := ndraws e + Suc j\<rparr>)"
  using assms
  by (auto simp: isCandidate_def spreadToNeighbor_def rollSucceeds_def recordSpread_def
      nextRandom_def Let_def split: option.splits)

lemma fold_spreadToNeighbor_rolls:
  assumes "\<forall>k \<in> set cs. isCandidate st k"
  shows "fold (spreadToNeighbor cfg st) cs (m, e\<lparr>ndraws := ndraws e + j\<rparr>)
         = (fold (recordSpread st) (rollsFrom cfg st e j cs) m,
            e\<lparr>ndraws := ndraws e + j + length cs\<rparr>)"
  using assms
proof (induction cs arbitrary: m j)
  case Nil
  then show ?case by simp
next
  case (Cons k cs)
  have "fold (spreadToNeighbor cfg st) (k # cs) (m, e\<lparr>ndraws := ndraws e + j\<rparr>)
        = fold (spreadToNeighbor cfg st) cs
            ((if rollSucceeds cfg st e j k then recordSpread st k m else m),
             e\<lparr>ndraws := ndraws e + Suc j\<rparr>)"
    using Cons.prems by (simp add: spreadToNeighbor_candidate)
  also have "\<dots> = (fold (recordSpread st) (rollsFrom cfg st e (Suc j) cs)
                      (if rollSucceeds cfg st e j k then recordSpread st k m else m),
                    e\<lparr>ndraws := ndraws e + Suc j + length cs\<rparr>)"
    using Cons.prems by (intro Cons.IH) simp
  finally show ?case by simp
qed

lemma isCandidate_spreadCandidates: "\<forall>k \<in> set (spreadCandidates st). isCandidate st k"
  by (auto simp: spreadCandidates_def split: if_splits)

lemma spreadScan_rolls:
  "spreadScan cfg st e
   = (fold (recordSpread st) (successfulRolls cfg st e) [],
      e\<lparr>ndraws := ndraws e + length (spreadCandidates st)\<rparr>)"
  using fold_spreadToNeighbor_rolls [OF isCandidate_spreadCandidates, of cfg st "[]" e 0]
  by (simp add: spreadScan_candidates successfulRolls_def)

lemma map_of_recordSpread_other:
  "k' \<noteq> k \<Longrightarrow> map_of (recordSpread st k' m) k = map_of m k"
  by (simp add: recordSpread_def update_conv' split: option.splits)

lemma fold_recordSpread_none:
  "count_list hs k = 0 \<Longrightarrow> map_of (fold (recordSpread st) hs m) k = map_of m k"
proof (induction hs arbitrary: m)
  case Nil
  then show ?case by simp
next
  case (Cons h hs)
  then have "h \<noteq> k" "count_list hs k = 0"
    by (auto split: if_splits)
  then show ?case
    using Cons.IH by (simp add: map_of_recordSpread_other)
qed

lemma fold_recordSpread_once:
  assumes "count_list hs k = 1" and "map_of m k = None" and "map_of (tiles st) k = Some t"
  shows "map_of (fold (recordSpread st) hs m) k = Some (corruption t + 1)"
  using assms
proof (induction hs arbitrary: m)
  case Nil
  then show ?case by simp
next
  case (Cons h hs)
  show ?case
  proof (cases "h = k")
    case True
    then have "count_list hs k = 0"
      using Cons.prems(1) by simp
    then have "map_of (fold (recordSpread st) hs (recordSpread st k m)) k
               = map_of (recordSpread st k m) k"
      by (rule fold_recordSpread_none)
    also have "\<dots> = Some (corruption t + 1)"
      using Cons.prems(2,3) by (simp add: recordSpread_def update_conv' currentCorruption_def)
    finally show ?thesis
      using True by simp
  next
    case False
    then have "count_list hs k = 1"
      using Cons.prems(1) by simp
    moreover have "map_of (recordSpread st h m) k = None"
      using False Cons.prems(2) by (simp add: map_of_recordSpread_other)
    ultimately show ?thesis
      using Cons.IH Cons.prems(3) by simp
  qed
qed

lemma distinct_recordSpread:
  "distinct (map fst m) \<Longrightarrow> distinct (map fst (recordSpread st k m))"
  by (simp add: recordSpread_def distinct_update split: option.splits)

lemma distinct_fold_recordSpread:
  "distinct (map fst m) \<Longrightarrow> distinct (map fst (fold (recordSpread st) hs m))"
  by (induction hs arbitrary: m) (auto simp: distinct_recordSpread)

lemma distinct_spreadScan: "distinct (map fst (fst (spreadScan cfg st e)))"
  by (simp add: spreadScan_rolls distinct_fold_recordSpread)


lemma tiles_shadowInfluence_update [simp]: "tiles (st\<lparr>shadowInfluence := i\<rparr>) = tiles st"
  by simp

lemma applyCorruption_other_tile:
  "k \<noteq> fst entry \<Longrightarrow> map_of (tiles (applyCorruption entry st)) k = map_of (tiles st) k"
  by (auto simp: applyCorruption_def Let_def map_of_tiles_modifyTile split: option.splits)

lemma applyCorruption_tile_present:
  "(map_of (tiles (applyCorruption entry st)) k = None) = (map_of (tiles st) k = None)"
  by (auto simp: applyCorruption_def Let_def map_of_tiles_modifyTile split: option.splits)

lemma applyCorruption_converts:
  assumes "map_of (tiles st) k = Some t" and "lvl \<ge> 2"
  shows "map_of (tiles (applyCorruption (k, lvl) st)) k
         = Some (t\<lparr>corruption := 2, owner := Shadow, stability := 3, sanctified := False,
                   domainAttunement := None\<rparr>)"
  using assms
  by (simp add: applyCorruption_def Let_def map_of_tiles_modifyTile min_def)

lemma set_delete_subset: "set (set_delete k xs) \<subseteq> set xs"
  by (auto simp: set_delete_def)

lemma removeFromPreviousOwner_players:
  assumes "map_of (players (removeFromPreviousOwner po k st)) pk = Some p'"
  shows "\<exists>p. map_of (players st) pk = Some p \<and> set (ownedTiles p') \<subseteq> set (ownedTiles p) \<and>
             set (sanctifiedTiles p') \<subseteq> set (sanctifiedTiles p)"
  using assms
  by (auto simp: removeFromPreviousOwner_def map_of_players_modifyPlayer set_delete_def
      split: if_splits)

lemma applyCorruption_players:
  assumes "map_of (players (applyCorruption entry st)) pk = Some p'"
  shows "\<exists>p. map_of (players st) pk = Some p \<and> set (ownedTiles p') \<subseteq> set (ownedTiles p) \<and>
             set (sanctifiedTiles p') \<subseteq> set (sanctifiedTiles p)"
proof (cases "map_of (tiles st) (fst entry)")
  case None
  then show ?thesis
    using assms by (simp add: applyCorruption_def Let_def)
next
  case (Some tile)
  show ?thesis
  proof (cases "min 2 (snd entry) \<ge> 2")
    case True
    then show ?thesis
      using assms Some
      by (auto simp: applyCorruption_def Let_def dest!: removeFromPreviousOwner_players)
  next
    case False
    then show ?thesis
      using assms Some by (simp add: applyCorruption_def Let_def)
  qed
qed

lemma applyCorruption_removes:
  assumes "map_of (tiles st) k = Some t" and "lvl \<ge> 2"
    and "owner t \<noteq> Neutral" and "owner t \<noteq> Shadow"
    and "map_of (players (applyCorruption (k, lvl) st)) (owner t) = Some p'"
  shows "k \<notin> set (ownedTiles p') \<and> k \<notin> set (sanctifiedTiles p')"
  using assms
  by (auto simp: applyCorruption_def Let_def removeFromPreviousOwner_def
      map_of_players_modifyPlayer set_delete_def min_def)

lemma applyCorruption_influence:
  "shadowInfluence (applyCorruption entry st)
   = (if map_of (tiles st) (fst entry) \<noteq> None \<and> snd entry \<ge> 2
      then min 100 (shadowInfluence st + 1) else shadowInfluence st)"
  by (auto simp: applyCorruption_def Let_def modifyTile_def removeFromPreviousOwner_def
      modifyPlayer_def split: option.splits)

lemma fold_applyCorruption_other_tile:
  "k \<notin> fst ` set m \<Longrightarrow> map_of (tiles (fold applyCorruption m st)) k = map_of (tiles st) k"
  by (induction m arbitrary: st) (auto simp: applyCorruption_other_tile)

lemma fold_applyCorruption_tile_present:
  "(map_of (tiles (fold applyCorruption m st)) k = None) = (map_of (tiles st) k = None)"
  by (induction m arbitrary: st) (auto simp: applyCorruption_tile_present)

lemma fold_applyCorruption_players:
  "map_of (players (fold applyCorruption m st)) pk = Some p' \<Longrightarrow>
   \<exists>p. map_of (players st) pk = Some p \<and> set (ownedTiles p') \<subseteq> set (ownedTiles p) \<and>
       set (sanctifiedTiles p') \<subseteq> set (sanctifiedTiles p)"
proof (induction m arbitrary: st)
  case Nil
  then show ?case by simp
next
  case (Cons entry m)
  from Cons.IH [of "applyCorruption entry st"] Cons.prems
  obtain q where q: "map_of (players (applyCorruption entry st)) pk = Some q"
    "set (ownedTiles p') \<subseteq> set (ownedTiles q)" "set (sanctifiedTiles p') \<subseteq> set (sanctifiedTiles q)"
    by auto
  from applyCorruption_players [OF q(1)] q(2,3) show ?case
    by blast
qed

lemma converts_applyCorruption: "converts (applyCorruption entry st) = converts st"
  by (simp add: converts_def fun_eq_iff applyCorruption_tile_present)

lemma min_100_step: "min 100 (min 100 (i + 1) + int n) = min (100::int) (i + 1 + int n)"
  by simp

lemma fold_applyCorruption_influence:
  "shadowInfluence (fold applyCorruption m st)
   = (if filter (converts st) m = [] then shadowInfluence st
      else min 100 (shadowInfluence st + int (length (filter (converts st) m))))"
proof (induction m arbitrary: st)
  case Nil
  then show ?case by simp
next
  case (Cons entry m)
  show ?case
  proof (cases "converts st entry")
    case True
    then have i: "shadowInfluence (applyCorruption entry st) = min 100 (shadowInfluence st + 1)"
      by (simp add: applyCorruption_influence converts_def)
    show ?thesis
      using True by (auto simp: Cons.IH converts_applyCorruption i min_def)
  next
    case False
    then have i: "shadowInfluence (applyCorruption entry st) = shadowInfluence st"
      by (auto simp: applyCorruption_influence converts_def)
    show ?thesis
      using False by (simp add: Cons.IH converts_applyCorruption i)
  qed
qed


lemma updateNeutralAlignment_keeps [simp]:
  "tiles (updateNeutralAlignment st) = tiles st"
  "players (updateNeutralAlignment st) = players st"
  "shadowInfluence (updateNeutralAlignment st) = shadowInfluence st"
  by (simp_all add: updateNeutralAlignment_def)

lemma spreadShadow_state:
  "fst (spreadShadow cfg e st)
   = updateNeutralAlignment (fold applyCorruption (fst (spreadScan cfg st e)) st)"
  by (simp add: spreadShadow_def Let_def split: prod.splits)

lemma spread_converts_tile:
  assumes t: "map_of (tiles st) k = Some t"
    and c: "corruption t = 1"
    and r: "count_list (successfulRolls cfg st e) k = 1"
  shows "map_of (tiles (fst (spreadShadow cfg e st))) k
           = Some (t\<lparr>corruption := 2, owner := Shadow, stability := 3, sanctified := False,
                     domainAttunement := None\<rparr>)"
    and "owner t \<noteq> Neutral \<Longrightarrow> owner t \<noteq> Shadow \<Longrightarrow>
         map_of (players (fst (spreadShadow cfg e st))) (owner t) = Some p' \<Longrightarrow>
         k \<notin> set (ownedTiles p') \<and> k \<notin> set (sanctifiedTiles p')"
    and "k \<in> set (spreadConversions cfg st e)"
proof -
  let ?m = "fst (spreadScan cfg st e)"
  have "map_of ?m k = Some (corruption t + 1)"
    using fold_recordSpread_once [OF r _ t, of "[]"] by (simp add: spreadScan_rolls)
  then have mk: "map_of ?m k = Some 2"
    by (simp add: c)
  then have "(k, 2) \<in> set ?m"
    by (rule map_of_SomeD)
  then obtain m1 m2 where m: "?m = m1 @ (k, 2) # m2"
    by (auto dest: split_list)
  have "distinct (map fst ?m)"
    by (rule distinct_spreadScan)
  then have k1: "k \<notin> fst ` set m1" and k2: "k \<notin> fst ` set m2"
    by (auto simp: m)
  let ?sA = "fold applyCorruption m1 st"
  let ?sB = "applyCorruption (k, 2) ?sA"
  let ?sC = "fold applyCorruption m2 ?sB"
  have fin: "fst (spreadShadow cfg e st) = updateNeutralAlignment ?sC"
    by (simp add: spreadShadow_state m)
  have tA: "map_of (tiles ?sA) k = Some t"
    using k1 t by (simp add: fold_applyCorruption_other_tile)
  have tB: "map_of (tiles ?sB) k
            = Some (t\<lparr>corruption := 2, owner := Shadow, stability := 3, sanctified := False,
                      domainAttunement := None\<rparr>)"
    using applyCorruption_converts [OF tA, of 2] by simp
  show "map_of (tiles (fst (spreadShadow cfg e st))) k
           = Some (t\<lparr>corruption := 2, owner := Shadow, stability := 3, sanctified := False,
                     domainAttunement := None\<rparr>)"
    using k2 tB by (simp add: fin fold_applyCorruption_other_tile)
  show "k \<in> set (spreadConversions cfg st e)"
    using t by (force simp: spreadConversions_def m converts_def)
  show "k \<notin> set (ownedTiles p') \<and> k \<notin> set (sanctifiedTiles p')"
    if o: "owner t \<noteq> Neutral" "owner t \<noteq> Shadow"
      and p: "map_of (players (fst (spreadShadow cfg e st))) (owner t) = Some p'"
  proof -
    from p have "map_of (players ?sC) (owner t) = Some p'"
      by (simp add: fin)
    from fold_applyCorruption_players [OF this]
    obtain q where q: "map_of (players ?sB) (owner t) = Some q"
      "set (ownedTiles p') \<subseteq> set (ownedTiles q)" "set (sanctifiedTiles p') \<subseteq> set (sanctifiedTiles q)"
      by auto
    have "k \<notin> set (ownedTiles q) \<and> k \<notin> set (sanctifiedTiles q)"
      using applyCorruption_removes [OF tA _ o q(1)] by simp
    then show ?thesis
      using q(2,3) by blast
  qed
qed

lemma spread_influence:
  "shadowInfluence (fst (spreadShadow cfg e st))
   = (if spreadConversions cfg st e = [] then shadowInfluence st
      else min 100 (shadowInfluence st + int (length (spreadConversions cfg st e))))"
  by (simp add: spreadShadow_state fold_applyCorruption_influence spreadConversions_def)

lemma spreadProbability_min: "spreadMin (shadowSpread cfg) \<le> spreadProbability cfg st t"
  by (simp add: spreadProbability_def Let_def split: prod.splits)

lemma distinct_singleton: "distinct xs \<Longrightarrow> set xs = {k} \<Longrightarrow> xs = [k]"
proof (cases xs)
  case Nil
  assume "set xs = {k}"
  then show ?thesis using Nil by simp
next
  case (Cons x ys)
  assume d: "distinct xs" and s: "set xs = {k}"
  have x: "x = k" using s Cons by auto
  have "set ys \<subseteq> {k}" using s Cons by auto
  moreover have "k \<notin> set ys" using d Cons x by simp
  ultimately have "ys = []" by (cases ys) auto
  then show ?thesis using Cons x by simp
qed

text \<open>
  When every other tile gets no successful roll, or a single one while below corruption
  1, the tile of the claim is the only one the pass converts.
\<close>

lemma only_conversion:
  assumes t: "map_of (tiles st) k = Some t"
    and c: "corruption t = 1"
    and r: "count_list (successfulRolls cfg st e) k = 1"
    and o: "\<forall>k'. k' \<noteq> k \<longrightarrow>
              count_list (successfulRolls cfg st e) k' = 0 \<or>
              (count_list (successfulRolls cfg st e) k' = 1 \<and>
               (\<forall>t'. map_of (tiles st) k' = Some t' \<longrightarrow> corruption t' < 1))"
  shows "spreadConversions cfg st e = [k]"
proof (rule distinct_singleton)
  let ?m = "fst (spreadScan cfg st e)"
  have d: "distinct (map fst ?m)"
    by (rule distinct_spreadScan)
  show "distinct (spreadConversions cfg st e)"
    unfolding spreadConversions_def by (rule distinct_map_filter [OF d])
  have m: "?m = fold (recordSpread st) (successfulRolls cfg st e) []"
    by (simp add: spreadScan_rolls)
  have eqk: "k' = k" if k': "k' \<in> set (spreadConversions cfg st e)" for k'
  proof (rule ccontr)
    assume n: "k' \<noteq> k"
    from k' obtain v where v: "(k', v) \<in> set ?m" and cv: "converts st (k', v)"
      by (auto simp: spreadConversions_def)
    have mv: "map_of ?m k' = Some v"
      using d v by (rule map_of_is_SomeI)
    from cv obtain t' where t': "map_of (tiles st) k' = Some t'" and v2: "v \<ge> 2"
      by (auto simp: converts_def)
    note alt = o [rule_format, OF n]
    show False
    proof (rule disjE [OF alt])
      assume "count_list (successfulRolls cfg st e) k' = 0"
      then have "map_of ?m k' = map_of [] k'"
        unfolding m by (rule fold_recordSpread_none)
      then show False using mv by simp
    next
      assume a: "count_list (successfulRolls cfg st e) k' = 1 \<and>
                 (\<forall>t'. map_of (tiles st) k' = Some t' \<longrightarrow> corruption t' < 1)"
      then have one: "count_list (successfulRolls cfg st e) k' = 1" and low: "corruption t' < 1"
        using t' by simp_all
      have "map_of ?m k' = Some (corruption t' + 1)"
        unfolding m by (rule fold_recordSpread_once [OF one _ t']) simp
      then show False using mv v2 low by simp
    qed
  qed
  have mem: "k \<in> set (spreadConversions cfg st e)"
    by (rule spread_converts_tile(3) [OF t c r])
  show "set (spreadConversions cfg st e) = {k}"
  proof (rule equalityI; rule subsetI)
    fix x assume "x \<in> set (spreadConversions cfg st e)"
    then have "x = k" by (rule eqk)
    then show "x \<in> {k}" by simp
  next
    fix x assume "x \<in> {k}"
    then have "x = k" by simp
    then show "x \<in> set (spreadConversions cfg st e)" using mem by simp
  qed
qed

text \<open>
  C6 (as stated): a tile at corruption 1 with exactly one successful roll against it is
  converted, and the global Shadow influence increases by exactly 1. The increase is one
  per converted tile of the pass, so it is not 1 when the pass converts a second tile: on
  the map with two neighbouring tiles at corruption 1, each receives exactly one
  successful roll, both convert, and the influence goes from 20 to 22.
\<close>

theorem C6_two_conversions_counterexample:
  "map_option corruption (map_of (tiles twoSpreadState) (0, 0)) = Some 1 \<and>
   count_list (successfulRolls defaultGameConfig twoSpreadState exEnv) (0, 0) = 1 \<and>
   map_option (\<lambda>t. (corruption t, owner t))
     (map_of (tiles (fst (spreadShadow defaultGameConfig exEnv twoSpreadState))) (0, 0))
     = Some (2, Shadow) \<and>
   shadowInfluence twoSpreadState = 20 \<and>
   shadowInfluence (fst (spreadShadow defaultGameConfig exEnv twoSpreadState)) = 22"
proof -
  have t0: "map_of (tiles twoSpreadState) (0, 0) = Some ((exTile (0, 0))\<lparr>corruption := 1\<rparr>)"
    and t1: "map_of (tiles twoSpreadState) (1, 0) = Some ((exTile (1, 0))\<lparr>corruption := 1\<rparr>)"
    and t2: "map_of (tiles twoSpreadState) (2, 0) = Some (exTile (2, 0))"
    by (simp_all add: twoSpreadState_def)
  have cands: "spreadCandidates twoSpreadState = [(1, 0), (2, 0), (0, 0)]"
    by (simp add: spreadCandidates_def twoSpreadState_def exStateWith_def exTile_def
        getNeighbors_def inBounds_def isCandidate_def)
  have pos: "0 < spreadProbability defaultGameConfig twoSpreadState x" for x
    using spreadProbability_min [of defaultGameConfig twoSpreadState x]
    by (simp add: defaultGameConfig_def)
  have rolls: "successfulRolls defaultGameConfig twoSpreadState exEnv = [(1, 0), (2, 0), (0, 0)]"
    by (simp add: successfulRolls_def cands rollSucceeds_def t0 t1 t2 exEnv_def pos)
  have scan: "fst (spreadScan defaultGameConfig twoSpreadState exEnv)
              = [((1, 0), 2), ((2, 0), 1), ((0, 0), 2)]"
    by (simp add: spreadScan_rolls rolls recordSpread_def t0 t1 t2 currentCorruption_def
        exTile_def)
  have conv: "spreadConversions defaultGameConfig twoSpreadState exEnv = [(1, 0), (0, 0)]"
    by (simp add: spreadConversions_def scan converts_def t0 t1 t2)
  have i: "shadowInfluence twoSpreadState = 20"
    by (simp add: twoSpreadState_def exStateWith_def)
  have c0: "corruption ((exTile (0, 0))\<lparr>corruption := 1\<rparr>) = 1"
    by simp
  have r0: "count_list (successfulRolls defaultGameConfig twoSpreadState exEnv) (0, 0) = 1"
    by (simp add: rolls)
  have "map_of (tiles (fst (spreadShadow defaultGameConfig exEnv twoSpreadState))) (0, 0)
        = Some ((exTile (0, 0))\<lparr>corruption := 1, corruption := 2, owner := Shadow, stability := 3,
                  sanctified := False, domainAttunement := None\<rparr>)"
    using spread_converts_tile(1) [OF t0 c0 r0] by simp
  then have tl: "map_option (\<lambda>t. (corruption t, owner t))
     (map_of (tiles (fst (spreadShadow defaultGameConfig exEnv twoSpreadState))) (0, 0))
     = Some (2, Shadow)"
    by simp
  have "shadowInfluence (fst (spreadShadow defaultGameConfig exEnv twoSpreadState)) = 22"
    by (simp add: spread_influence conv i)
  then show ?thesis
    using t0 r0 tl i by simp
qed

text \<open>
  C6 (amended): in one spread pass, a tile that starts at corruption 1 and receives
  exactly one successful spread roll ends the pass at corruption 2, Shadow-owned, with
  its sanctification cleared and its key removed from the owned and sanctified sets of
  its previous player-owner, and the global Shadow influence increases by at least 1
  (capped at 100): by exactly 1 (capped at 100) when no other tile is converted in the
  pass, that is, when every other tile receives no successful roll, or a single one
  while below corruption 1.
\<close>

theorem C6_spread_converts:
  assumes "map_of (tiles st) k = Some t"
    and "corruption t = 1"
    and "count_list (successfulRolls cfg st e) k = 1"
  shows "(\<exists>t'. map_of (tiles (fst (spreadShadow cfg e st))) k = Some t' \<and> corruption t' = 2 \<and>
               owner t' = Shadow \<and> \<not> sanctified t' \<and> domainAttunement t' = None) \<and>
         (owner t \<noteq> Neutral \<and> owner t \<noteq> Shadow \<longrightarrow>
            (\<forall>p'. map_of (players (fst (spreadShadow cfg e st))) (owner t) = Some p' \<longrightarrow>
                  k \<notin> set (ownedTiles p') \<and> k \<notin> set (sanctifiedTiles p'))) \<and>
         min 100 (shadowInfluence st + 1) \<le> shadowInfluence (fst (spreadShadow cfg e st)) \<and>
         ((\<forall>k'. k' \<noteq> k \<longrightarrow>
              count_list (successfulRolls cfg st e) k' = 0 \<or>
              (count_list (successfulRolls cfg st e) k' = 1 \<and>
               (\<forall>t'. map_of (tiles st) k' = Some t' \<longrightarrow> corruption t' < 1))) \<longrightarrow>
            shadowInfluence (fst (spreadShadow cfg e st)) = min 100 (shadowInfluence st + 1))"
proof -
  note c = spread_converts_tile [OF assms]
  have n: "spreadConversions cfg st e \<noteq> []"
    using c(3) by auto
  then have "1 \<le> length (spreadConversions cfg st e)"
    by (cases "spreadConversions cfg st e") simp_all
  then have lo: "min 100 (shadowInfluence st + 1) \<le> shadowInfluence (fst (spreadShadow cfg e st))"
    using n by (simp add: spread_influence)
  have ex: "shadowInfluence (fst (spreadShadow cfg e st)) = min 100 (shadowInfluence st + 1)"
    if "\<forall>k'. k' \<noteq> k \<longrightarrow>
              count_list (successfulRolls cfg st e) k' = 0 \<or>
              (count_list (successfulRolls cfg st e) k' = 1 \<and>
               (\<forall>t'. map_of (tiles st) k' = Some t' \<longrightarrow> corruption t' < 1))"
    using only_conversion [OF assms that] by (simp add: spread_influence)
  show ?thesis
    using c(2) lo ex by (auto simp: c(1))
qed

theorem C6_spread_converts_witness:
  "(\<exists>t'. map_of (tiles (fst (spreadShadow defaultGameConfig exEnv spreadState))) (1, 0) = Some t' \<and>
         corruption t' = 2 \<and> owner t' = Shadow \<and> \<not> sanctified t' \<and> domainAttunement t' = None) \<and>
   (\<exists>p'. map_of (players (fst (spreadShadow defaultGameConfig exEnv spreadState))) AI1 = Some p' \<and>
         (1, 0) \<notin> set (ownedTiles p') \<and> (1, 0) \<notin> set (sanctifiedTiles p')) \<and>
   shadowInfluence (fst (spreadShadow defaultGameConfig exEnv spreadState)) = 21"
proof -
  have t: "map_of (tiles spreadState) (1, 0) = Some spreadTile"
    by (simp add: spreadState_def)
  have c: "corruption spreadTile = 1"
    by (simp add: spreadTile_def)
  have cands: "spreadCandidates spreadState = [(1, 0)]"
    by (simp add: spreadCandidates_def spreadState_def spreadTile_def exTile_def
        getNeighbors_def inBounds_def isCandidate_def)
  have p: "spreadProbability defaultGameConfig spreadState spreadTile = 3/20"
    by (simp add: spreadProbability_def countNeighborhood_def defaultGameConfig_def
        spreadState_def spreadTile_def exTile_def exState_def exStateWith_def
        getNeighbors_def inBounds_def aiPlayer_def exPlayer_def Let_def)
  have rolls: "successfulRolls defaultGameConfig spreadState exEnv = [(1, 0)]"
    by (simp add: successfulRolls_def cands rollSucceeds_def t p) (simp add: exEnv_def)
  then have r: "count_list (successfulRolls defaultGameConfig spreadState exEnv) (1, 0) = 1"
    by simp
  have scan: "fst (spreadScan defaultGameConfig spreadState exEnv) = [((1, 0), 2)]"
    by (simp add: spreadScan_rolls rolls recordSpread_def t currentCorruption_def c)
  have st: "fst (spreadShadow defaultGameConfig exEnv spreadState)
            = updateNeutralAlignment (applyCorruption ((1, 0), 2) spreadState)"
    by (simp add: spreadShadow_state scan)
  have pl: "players (fst (spreadShadow defaultGameConfig exEnv spreadState))
            = [(AI1, aiPlayer\<lparr>ownedTiles := [], sanctifiedTiles := []\<rparr>)]"
    by (simp add: st applyCorruption_def t Let_def spreadTile_def removeFromPreviousOwner_def
        modifyPlayer_def modifyTile_def modify_def set_delete_def)
       (simp add: spreadState_def aiPlayer_def)
  have i: "shadowInfluence spreadState = 20"
    by (simp add: spreadState_def exState_def exStateWith_def)
  have o: "owner spreadTile = AI1"
    by (simp add: spreadTile_def)
  note w = C6_spread_converts [OF t c r]
  have a: "\<exists>t'. map_of (tiles (fst (spreadShadow defaultGameConfig exEnv spreadState))) (1, 0)
             = Some t' \<and> corruption t' = 2 \<and> owner t' = Shadow \<and> \<not> sanctified t' \<and>
             domainAttunement t' = None"
    by (rule w [THEN conjunct1])
  have b: "\<exists>p'. map_of (players (fst (spreadShadow defaultGameConfig exEnv spreadState))) AI1
             = Some p' \<and> (1, 0) \<notin> set (ownedTiles p') \<and> (1, 0) \<notin> set (sanctifiedTiles p')"
    using w [THEN conjunct2, THEN conjunct1] by (simp add: pl o)
  have h: "\<forall>k'. k' \<noteq> (1, 0) \<longrightarrow>
             count_list (successfulRolls defaultGameConfig spreadState exEnv) k' = 0 \<or>
             (count_list (successfulRolls defaultGameConfig spreadState exEnv) k' = 1 \<and>
              (\<forall>t'. map_of (tiles spreadState) k' = Some t' \<longrightarrow> corruption t' < 1))"
    unfolding rolls by simp
  have "shadowInfluence (fst (spreadShadow defaultGameConfig exEnv spreadState))
        = min 100 (shadowInfluence spreadState + 1)"
    by (rule w [THEN conjunct2, THEN conjunct2, THEN conjunct2, THEN mp, OF h])
  then have d: "shadowInfluence (fst (spreadShadow defaultGameConfig exEnv spreadState)) = 21"
    by (simp add: i)
  show ?thesis
    using a b d by (intro conjI)
qed

section \<open>The corruption invariant and the operations that raise corruption\<close>

text \<open>
  The spread pass keeps the invariant: the tile it brings to level 2 is converted to the
  Shadow in the same step.
\<close>

lemma set_update_subset: "set (AList.update k v al) \<subseteq> insert (k, v) (set al)"
  by (induction al) auto

lemma list_all_modify:
  assumes "list_all (\<lambda>(k, t). Q t) al" and "\<And>t. Q (f t)"
  shows "list_all (\<lambda>(k, t). Q t) (modify k f al)"
proof (cases "map_of al k")
  case None
  then show ?thesis using assms(1) by (simp add: modify_def)
next
  case (Some v)
  have "set (AList.update k (f v) al) \<subseteq> insert (k, f v) (set al)"
    by (rule set_update_subset)
  then show ?thesis
    using assms Some by (auto simp: modify_def list_all_iff)
qed

lemma modify_modify: "modify k f (modify k g al) = modify k (\<lambda>t. f (g t)) al"
  by (cases "map_of al k") (simp_all add: modify_def update_conv')

lemma applyCorruption_invariant:
  assumes "corruptionInvariant st"
  shows "corruptionInvariant (applyCorruption entry st)"
proof (cases "map_of (tiles st) (fst entry)")
  case None
  then show ?thesis using assms by (simp add: applyCorruption_def Let_def)
next
  case (Some tile)
  let ?Q = "\<lambda>t. if corruption t = 2 then owner t = Shadow else True"
  have a: "list_all (\<lambda>(k, t). ?Q t) (tiles st)"
    using assms by (simp add: corruptionInvariant_def)
  show ?thesis
  proof (cases "min 2 (snd entry) \<ge> 2")
    case True
    have "list_all (\<lambda>(k, t). ?Q t)
            (modify (fst entry) (\<lambda>t. t\<lparr>owner := Shadow, stability := 3, sanctified := False,
                                  domainAttunement := None\<rparr>)
               (modify (fst entry) (\<lambda>t. t\<lparr>corruption := min 2 (snd entry)\<rparr>) (tiles st)))"
      unfolding modify_modify by (intro list_all_modify a) simp
    then show ?thesis
      using Some True
      by (simp add: applyCorruption_def Let_def corruptionInvariant_def modifyTile_def)
  next
    case False
    have "list_all (\<lambda>(k, t). ?Q t)
            (modify (fst entry) (\<lambda>t. t\<lparr>corruption := min 2 (snd entry)\<rparr>) (tiles st))"
      using False by (intro list_all_modify a) simp
    then show ?thesis
      using Some False
      by (simp add: applyCorruption_def Let_def corruptionInvariant_def modifyTile_def)
  qed
qed

lemma spreadShadow_invariant:
  assumes "corruptionInvariant st"
  shows "corruptionInvariant (fst (spreadShadow cfg e st))"
proof -
  have "corruptionInvariant (fold applyCorruption m st)" for m
    using assms by (induction m arbitrary: st) (auto simp: applyCorruption_invariant)
  then show ?thesis
    by (simp add: spreadShadow_state corruptionInvariant_def)
qed

text \<open>
  The two event paths of \<^verbatim>\<open>EventSystem\<close> only raise the level: on a map that satisfies
  the invariant, the curse outcome of \<^verbatim>\<open>triggerTileEvent\<close> on ruins of the first AI
  player at corruption 1 leaves them at corruption 2 and still owned by that player, and
  so does one step of \<^verbatim>\<open>addCorruptionToRandomTiles\<close> issued for the human player.
  Nothing in the repository calls \<^verbatim>\<open>triggerTileEvent\<close>, and no event of the pool carries the
  \<^verbatim>\<open>add_corruption\<close> effect that leads to \<^verbatim>\<open>addCorruptionToRandomTiles\<close>.
\<close>

lemma event_paths_raise_without_conversion:
  "corruptionInvariant ruinState \<and>
   map_option (\<lambda>t. (corruption t, owner t))
     (map_of (tiles (fst (triggerTileEvent AI1 (1, 0) curseEnv ruinState))) (1, 0)) = Some (2, AI1) \<and>
   \<not> corruptionInvariant (fst (triggerTileEvent AI1 (1, 0) curseEnv ruinState)) \<and>
   map_option (\<lambda>t. (corruption t, owner t))
     (map_of (tiles (fst (addCorruptionToRandomTiles exPlayer 1 exEnv ruinState))) (1, 0))
     = Some (2, AI1) \<and>
   \<not> corruptionInvariant (fst (addCorruptionToRandomTiles exPlayer 1 exEnv ruinState))"
proof -
  have inv: "corruptionInvariant ruinState"
    by (simp add: corruptionInvariant_def ruinState_def ruinTile_def exTile_def)
  have ev: "tiles (fst (triggerTileEvent AI1 (1, 0) curseEnv ruinState))
            = [((0, 0), (exTile (0, 0))\<lparr>owner := Player\<rparr>),
               ((1, 0), ruinTile\<lparr>corruption := 2, eventTriggered := True\<rparr>)]"
    by (simp add: triggerTileEvent_def ruinState_def ruinTile_def exTile_def curseEnv_def
        exEnv_def nextRandom_def randomIndex_def Let_def modifyTile_def modifyPlayer_def
        modify_def)
  have enemy: "enemyTilesOf ruinState exPlayer = [(1, 0)]"
    by (simp add: enemyTilesOf_def ruinState_def ruinTile_def exTile_def exPlayer_def)
  have ad: "tiles (fst (addCorruptionToRandomTiles exPlayer 1 exEnv ruinState))
            = [((0, 0), (exTile (0, 0))\<lparr>owner := Player\<rparr>),
               ((1, 0), ruinTile\<lparr>corruption := 2\<rparr>)]"
    by (simp add: addCorruptionToRandomTiles_def enemy addCorruptionStep_def exEnv_def
        nextRandom_def randomIndex_def Let_def modifyTile_def modify_def)
       (simp add: ruinState_def ruinTile_def)
  have n1: "\<not> corruptionInvariant (fst (triggerTileEvent AI1 (1, 0) curseEnv ruinState))"
    by (simp add: corruptionInvariant_def ev ruinTile_def exTile_def)
  have n2: "\<not> corruptionInvariant (fst (addCorruptionToRandomTiles exPlayer 1 exEnv ruinState))"
    by (simp add: corruptionInvariant_def ad ruinTile_def exTile_def)
  show ?thesis
    by (simp add: inv n1 n2) (simp add: ev ad ruinTile_def exTile_def)
qed

lemma toDouble_small: "toDouble 7 = 7" "toDouble 8 = 8"
  by (rule toDouble_exact; simp add: halfInteger_def)+

text \<open>
  C4 (as stated): every tile at corruption 2 is Shadow-owned in every reachable state.
  A capture breaks this. On a map that satisfies the invariant, the human player with
  divinity 8 captures the adjacent Shadow tile at corruption 2 (cost 8, the corruption
  penalty included): the capture succeeds, hands the tile to the player and leaves its
  corruption at 2.
\<close>

theorem C4_capture_breaks_invariant_counterexample:
  "corruptionInvariant shadowTileState \<and>
   fst (executeCapture defaultGameConfig exEnv shadowTileState captureShadowTile) \<and>
   map_option (\<lambda>t. (corruption t, owner t))
     (map_of (tiles (fst (snd (executeCapture defaultGameConfig exEnv shadowTileState
        captureShadowTile)))) (1, 0)) = Some (2, Player) \<and>
   \<not> corruptionInvariant
       (fst (snd (executeCapture defaultGameConfig exEnv shadowTileState captureShadowTile)))"
proof -
  have inv: "corruptionInvariant shadowTileState"
    by (simp add: corruptionInvariant_def shadowTileState_def shadowTile_def exTile_def)
  have ex: "executeCapture defaultGameConfig exEnv shadowTileState captureShadowTile =
        (True,
         shadowTileState\<lparr>
           players := [(Player, exPlayer\<lparr>ownedTiles := [(0, 0), (1, 0)], divinity := 0,
                                         capturedThisTurn := 1\<rparr>)],
           tiles := [((0, 0), (exTile (0, 0))\<lparr>owner := Player\<rparr>),
                     ((1, 0), shadowTile\<lparr>owner := Player, stability := 2\<rparr>),
                     ((2, 0), exTile (2, 0))]\<rparr>,
         captureShadowTile\<lparr>cost := Some \<lparr>cdivinity = Some 8, cfaith = None, cshadowEnergy = None\<rparr>,
                            message := Some (Captured (1, 0))\<rparr>,
         exEnv)"
    by (simp add: executeCapture_def calculateCaptureCost_def calculateAdjacencyBonus_def
        getNeighbors_def inBounds_def getDomainCaptureModifier_def calculateUnitSupport_def
        applyRelicCaptureModifiers_def toDouble_small removeFromPreviousOwner_def desanctify_def
        applyDomainCaptureEffects_def triggerTileEvents_def modifyTile_def modifyPlayer_def
        modify_def set_add_def shadowTileState_def shadowTile_def captureShadowTile_def
        exCapture_def exState_def exStateWith_def exPlayer_def exTile_def defaultGameConfig_def
        Let_def)
  show ?thesis
    by (simp add: ex inv) (simp add: corruptionInvariant_def shadowTile_def exTile_def)
qed

text \<open>
  C4 (amended): the corruption spread keeps the invariant. If every tile at corruption
  2 is Shadow-owned before a spread pass, then every tile at corruption 2 is Shadow-owned
  after it, whatever the random draws: a tile the pass brings to level 2 is converted in
  the same step.
\<close>

theorem C4_spread_keeps_invariant:
  "corruptionInvariant st \<Longrightarrow> corruptionInvariant (fst (spreadShadow cfg e st))"
  by (rule spreadShadow_invariant)

theorem C4_spread_keeps_invariant_witness:
  "corruptionInvariant spreadState \<and>
   map_option (\<lambda>t. (corruption t, owner t))
     (map_of (tiles (fst (spreadShadow defaultGameConfig exEnv spreadState))) (1, 0))
     = Some (2, Shadow) \<and>
   corruptionInvariant (fst (spreadShadow defaultGameConfig exEnv spreadState))"
proof -
  have inv: "corruptionInvariant spreadState"
    by (simp add: corruptionInvariant_def spreadState_def spreadTile_def exTile_def)
  have t: "map_of (tiles spreadState) (1, 0) = Some spreadTile"
    by (simp add: spreadState_def)
  have c: "corruption spreadTile = 1"
    by (simp add: spreadTile_def)
  have cands: "spreadCandidates spreadState = [(1, 0)]"
    by (simp add: spreadCandidates_def spreadState_def spreadTile_def exTile_def
        getNeighbors_def inBounds_def isCandidate_def)
  have p: "spreadProbability defaultGameConfig spreadState spreadTile = 3/20"
    by (simp add: spreadProbability_def countNeighborhood_def defaultGameConfig_def
        spreadState_def spreadTile_def exTile_def exState_def exStateWith_def
        getNeighbors_def inBounds_def aiPlayer_def exPlayer_def Let_def)
  have rolls: "successfulRolls defaultGameConfig spreadState exEnv = [(1, 0)]"
    by (simp add: successfulRolls_def cands rollSucceeds_def t p) (simp add: exEnv_def)
  have scan: "fst (spreadScan defaultGameConfig spreadState exEnv) = [((1, 0), 2)]"
    by (simp add: spreadScan_rolls rolls recordSpread_def t currentCorruption_def c)
  have st: "fst (spreadShadow defaultGameConfig exEnv spreadState)
            = updateNeutralAlignment (applyCorruption ((1, 0), 2) spreadState)"
    by (simp add: spreadShadow_state scan)
  have tl: "map_option (\<lambda>t. (corruption t, owner t))
     (map_of (tiles (fst (spreadShadow defaultGameConfig exEnv spreadState))) (1, 0))
     = Some (2, Shadow)"
    by (simp add: st applyCorruption_def t Let_def map_of_tiles_modifyTile)
  show ?thesis
    using C4_spread_keeps_invariant [OF inv, of defaultGameConfig exEnv] inv tl by simp
qed

section \<open>The visibility update\<close>

lemma sameFrame_refl [simp]: "sameFrame st st"
  by (simp add: sameFrame_def)

lemma sameFrame_trans: "sameFrame a b \<Longrightarrow> sameFrame b c \<Longrightarrow> sameFrame a c"
  by (simp add: sameFrame_def)

lemma vis_None_terrain: "(vis st k = None) = (terrain st k = None)"
  by (simp add: vis_def terrain_def)

lemma sameFrame_vis_None: "sameFrame st st' \<Longrightarrow> (vis st' k = None) = (vis st k = None)"
  by (simp add: vis_None_terrain sameFrame_def)

lemma reveal_frame: "sameFrame st (reveal k v st)"
  by (auto simp: sameFrame_def reveal_def terrain_def fun_eq_iff modifyTile_def map_of_modify
      split: option.splits)

lemma reveal_vis:
  "vis (reveal k v st) k' = (if k' = k \<and> vis st k \<noteq> None then Some v else vis st k')"
  by (auto simp: reveal_def vis_def map_of_tiles_modifyTile split: option.splits)

lemma revealIfHidden_frame: "sameFrame st (revealIfHidden k st)"
  by (auto simp: revealIfHidden_def reveal_frame split: option.splits)

lemma revealIfHidden_vis:
  "vis (revealIfHidden k st) k' = (if k' = k \<and> vis st k = Some Hidden then Some Seen else vis st k')"
proof -
  have v: "vis st k = map_option visibility (map_of (tiles st) k)"
    by (simp add: vis_def)
  show ?thesis
    by (cases "map_of (tiles st) k") (auto simp: revealIfHidden_def reveal_vis v)
qed

lemma ttype_terrain: "map_option ttype (map_of (tiles st) k) = map_option ttype (terrain st k)"
  by (simp add: terrain_def option.map_comp comp_def)

lemma calculateUnitPerception_frame:
  assumes "sameFrame st st'"
  shows "calculateUnitPerception u st' = calculateUnitPerception u st"
proof -
  have p: "players st' = players st" and t: "terrain st' = terrain st"
    using assms by (simp_all add: sameFrame_def)
  have "map_option ttype (map_of (tiles st') (upos u)) = map_option ttype (map_of (tiles st) (upos u))"
    by (simp add: ttype_terrain t)
  then show ?thesis
    by (auto simp: calculateUnitPerception_def p Let_def split: option.splits)
qed

lemma getTilesInRadius_frame:
  "sameFrame st st' \<Longrightarrow> getTilesInRadius x y r st' = getTilesInRadius x y r st"
  by (simp add: getTilesInRadius_def inBounds_def sameFrame_def)

lemma unitKeys_frame: "sameFrame st st' \<Longrightarrow> unitKeys u st' = unitKeys u st"
  by (simp add: unitKeys_def calculateUnitPerception_frame getTilesInRadius_frame)

lemma getNeighbors_frame: "sameFrame st st' \<Longrightarrow> getNeighbors x y st' = getNeighbors x y st"
  by (simp add: getNeighbors_def inBounds_def sameFrame_def fun_eq_iff cong: filter_cong)

lemma fold_reveal_frame: "sameFrame st (fold (\<lambda>k. reveal k v) ks st)"
proof (induction ks arbitrary: st)
  case Nil
  then show ?case by simp
next
  case (Cons k ks)
  show ?case
    using sameFrame_trans [OF reveal_frame Cons.IH] by simp
qed

lemma fold_reveal_vis:
  "vis (fold (\<lambda>k. reveal k v) ks st) k'
   = (if k' \<in> set ks \<and> vis st k' \<noteq> None then Some v else vis st k')"
proof (induction ks arbitrary: st)
  case Nil
  then show ?case by simp
next
  case (Cons k ks)
  show ?case
    by (auto simp: Cons.IH reveal_vis)
qed

lemma revealTilesAroundUnit_frame: "sameFrame st (revealTilesAroundUnit st u)"
  by (simp add: revealTilesAroundUnit_def Let_def fold_reveal_frame)

lemma revealTilesAroundUnit_vis:
  "vis (revealTilesAroundUnit st u) k
   = (if k \<in> set (unitKeys u st) \<and> vis st k \<noteq> None then Some Visible else vis st k)"
  by (simp add: revealTilesAroundUnit_def Let_def fold_reveal_vis unitKeys_def)

lemma fold_units_frame: "sameFrame st (fold (\<lambda>u s. revealTilesAroundUnit s u) us st)"
proof (induction us arbitrary: st)
  case Nil
  then show ?case by simp
next
  case (Cons u us)
  show ?case
    using sameFrame_trans [OF revealTilesAroundUnit_frame Cons.IH] by simp
qed

lemma fold_units_vis:
  "vis (fold (\<lambda>u s. revealTilesAroundUnit s u) us st) k
   = (if (\<exists>u \<in> set us. k \<in> set (unitKeys u st)) \<and> vis st k \<noteq> None then Some Visible
      else vis st k)"
proof (induction us arbitrary: st)
  case Nil
  then show ?case by simp
next
  case (Cons u us)
  have f: "sameFrame st (revealTilesAroundUnit st u)"
    by (rule revealTilesAroundUnit_frame)
  show ?case
    by (auto simp: Cons.IH unitKeys_frame [OF f] revealTilesAroundUnit_vis)
qed


lemma visibleTiles_vis: "visibleTiles st = {k. vis st k = Some Visible}"
  by (auto simp: visibleTiles_def vis_def)

lemma fold_revealIfHidden_frame: "sameFrame st (fold revealIfHidden ns st)"
proof (induction ns arbitrary: st)
  case Nil
  then show ?case by simp
next
  case (Cons n ns)
  show ?case
    using sameFrame_trans [OF revealIfHidden_frame Cons.IH] by simp
qed

lemma fold_revealIfHidden_visible:
  "(vis (fold revealIfHidden ns st) k = Some Visible) = (vis st k = Some Visible)"
  by (induction ns arbitrary: st) (auto simp: revealIfHidden_vis)

lemma revealIfHidden_hidden:
  "vis (revealIfHidden n st) k = Some Hidden \<Longrightarrow> vis st k = Some Hidden"
  by (simp add: revealIfHidden_vis split: if_splits)

lemma fold_revealIfHidden_hidden:
  "vis (fold revealIfHidden ns st) k = Some Hidden \<Longrightarrow> vis st k = Some Hidden"
proof (induction ns arbitrary: st)
  case Nil
  then show ?case by simp
next
  case (Cons n ns)
  then have "vis (revealIfHidden n st) k = Some Hidden"
    by simp
  then show ?case
    by (rule revealIfHidden_hidden)
qed

lemma revealSanctified_frame: "sameFrame st (revealSanctified key st)"
proof (cases "map_of (tiles st) key")
  case None
  then show ?thesis by (simp add: revealSanctified_def)
next
  case (Some tile)
  show ?thesis
    using sameFrame_trans [OF reveal_frame fold_revealIfHidden_frame] Some
    by (simp add: revealSanctified_def)
qed

lemma revealSanctified_visible:
  "(vis (revealSanctified key st) k = Some Visible)
   = ((k = key \<and> vis st key \<noteq> None) \<or> vis st k = Some Visible)"
proof (cases "map_of (tiles st) key")
  case None
  then have "vis st key = None"
    by (simp add: vis_def)
  then show ?thesis
    using None by (auto simp: revealSanctified_def)
next
  case (Some tile)
  then show ?thesis
    by (auto simp: revealSanctified_def fold_revealIfHidden_visible reveal_vis)
qed

lemma revealSanctified_hidden:
  "vis (revealSanctified key st) k = Some Hidden \<Longrightarrow> vis st k = Some Hidden"
proof (cases "map_of (tiles st) key")
  case None
  then show "vis (revealSanctified key st) k = Some Hidden \<Longrightarrow> vis st k = Some Hidden"
    by (simp add: revealSanctified_def)
next
  case (Some tile)
  assume "vis (revealSanctified key st) k = Some Hidden"
  then have "vis (reveal key Visible st) k = Some Hidden"
    using Some by (auto simp: revealSanctified_def dest: fold_revealIfHidden_hidden)
  then show "vis st k = Some Hidden"
    by (auto simp: reveal_vis split: if_splits)
qed

lemma fold_revealSanctified_frame: "sameFrame st (fold revealSanctified ss st)"
proof (induction ss arbitrary: st)
  case Nil
  then show ?case by simp
next
  case (Cons a ss)
  show ?case
    using sameFrame_trans [OF revealSanctified_frame Cons.IH] by simp
qed

lemma fold_revealSanctified_visible:
  "(vis (fold revealSanctified ss st) k = Some Visible)
   = ((k \<in> set ss \<and> vis st k \<noteq> None) \<or> vis st k = Some Visible)"
proof (induction ss arbitrary: st)
  case Nil
  then show ?case by simp
next
  case (Cons a ss)
  have "(vis (revealSanctified a st) k = None) = (vis st k = None)"
    by (rule sameFrame_vis_None [OF revealSanctified_frame])
  then show ?case
    by (auto simp: Cons.IH revealSanctified_visible)
qed

lemma fold_revealSanctified_hidden:
  "vis (fold revealSanctified ss st) k = Some Hidden \<Longrightarrow> vis st k = Some Hidden"
proof (induction ss arbitrary: st)
  case Nil
  then show ?case by simp
next
  case (Cons a ss)
  then have "vis (revealSanctified a st) k = Some Hidden"
    by simp
  then show ?case
    by (rule revealSanctified_hidden)
qed

lemma fold_units_hidden:
  "vis (fold (\<lambda>u s. revealTilesAroundUnit s u) us st) k = Some Hidden \<Longrightarrow> vis st k = Some Hidden"
  by (simp add: fold_units_vis split: if_splits)

lemma map_of_map_values:
  "map_of (map (\<lambda>(k, v). (k, f v)) al) k = map_option f (map_of al k)"
  by (induction al) auto

lemma downgradeVisible_frame: "sameFrame st (downgradeVisible st)"
  by (auto simp: sameFrame_def downgradeVisible_def terrain_def fun_eq_iff map_of_map_values
      option.map_comp comp_def intro!: option.map_cong)

lemma downgradeVisible_vis:
  "vis (downgradeVisible st) k = map_option (\<lambda>v. if v = Visible then Seen else v) (vis st k)"
  by (auto simp: downgradeVisible_def vis_def map_of_map_values option.map_comp comp_def
      intro!: option.map_cong)

lemma updateVisibility_frame: "sameFrame st (updateVisibility st)"
proof (cases "map_of (players st) (currentPlayer st)")
  case None
  then show ?thesis by (simp add: updateVisibility_def)
next
  case (Some p)
  show ?thesis
    using sameFrame_trans [OF downgradeVisible_frame
        sameFrame_trans [OF fold_units_frame fold_revealSanctified_frame]] Some
    by (simp add: updateVisibility_def Let_def)
qed

lemma updateVisibility_visible:
  assumes "map_of (players st) (currentPlayer st) = Some p"
  shows "(vis (updateVisibility st) k = Some Visible)
         = (vis st k \<noteq> None \<and>
            ((\<exists>u \<in> set (units p). k \<in> set (unitKeys u st)) \<or> k \<in> set (sanctifiedTiles p)))"
proof -
  let ?st1 = "downgradeVisible st"
  let ?st2 = "fold (\<lambda>u s. revealTilesAroundUnit s u) (units p) ?st1"
  have u: "updateVisibility st = fold revealSanctified (sanctifiedTiles p) ?st2"
    using assms by (simp add: updateVisibility_def Let_def)
  have n1: "(vis ?st1 k = None) = (vis st k = None)"
    by (rule sameFrame_vis_None [OF downgradeVisible_frame])
  have n2: "(vis ?st2 k = None) = (vis ?st1 k = None)"
    by (rule sameFrame_vis_None [OF fold_units_frame])
  have v1: "vis ?st1 k \<noteq> Some Visible"
    by (auto simp: downgradeVisible_vis)
  have keys: "unitKeys w ?st1 = unitKeys w st" for w
    by (rule unitKeys_frame [OF downgradeVisible_frame])
  have v2: "(vis ?st2 k = Some Visible)
            = ((\<exists>u \<in> set (units p). k \<in> set (unitKeys u st)) \<and> vis st k \<noteq> None)"
    using v1 n1 by (auto simp: fold_units_vis keys)
  show ?thesis
    using n1 n2 by (auto simp: u fold_revealSanctified_visible v2)
qed

lemma updateVisibility_hidden:
  "vis (updateVisibility st) k = Some Hidden \<Longrightarrow> vis st k = Some Hidden"
proof (cases "map_of (players st) (currentPlayer st)")
  case None
  then show "vis (updateVisibility st) k = Some Hidden \<Longrightarrow> vis st k = Some Hidden"
    by (simp add: updateVisibility_def)
next
  case (Some p)
  assume "vis (updateVisibility st) k = Some Hidden"
  then have "vis (downgradeVisible st) k = Some Hidden"
    using Some
    by (auto simp: updateVisibility_def Let_def
        dest!: fold_revealSanctified_hidden fold_units_hidden)
  then show "vis st k = Some Hidden"
    by (auto simp: downgradeVisible_vis split: if_splits)
qed

lemma updateVisibility_idem_visible:
  "visibleTiles (updateVisibility (updateVisibility st)) = visibleTiles (updateVisibility st)"
proof (cases "map_of (players st) (currentPlayer st)")
  case None
  then show ?thesis by (simp add: updateVisibility_def)
next
  case (Some p)
  let ?st' = "updateVisibility st"
  have f: "sameFrame st ?st'"
    by (rule updateVisibility_frame)
  then have p': "map_of (players ?st') (currentPlayer ?st') = Some p"
    using Some by (simp add: sameFrame_def)
  have "(vis (updateVisibility ?st') k = Some Visible) = (vis ?st' k = Some Visible)" for k
    by (simp add: updateVisibility_visible [OF p'] updateVisibility_visible [OF Some]
        unitKeys_frame [OF f] sameFrame_vis_None [OF f])
  then show ?thesis
    by (simp add: visibleTiles_vis)
qed

text \<open>
  C8: calling the visibility update twice in a row, with nothing in between, gives the
  same set of Visible tiles after the second call as after the first; and neither the
  update nor the reveal around a unit ever takes a tile that is Visible or Seen back to
  Hidden.
\<close>

theorem C8_updateVisibility_idempotent:
  "visibleTiles (updateVisibility (updateVisibility st)) = visibleTiles (updateVisibility st) \<and>
   (\<forall>k t. map_of (tiles st) k = Some t \<and> visibility t \<noteq> Hidden \<longrightarrow>
      (\<exists>t'. map_of (tiles (updateVisibility st)) k = Some t' \<and> visibility t' \<noteq> Hidden) \<and>
      (\<exists>t'. map_of (tiles (revealTilesAroundUnit st u)) k = Some t' \<and> visibility t' \<noteq> Hidden))"
proof (intro conjI allI impI)
  show "visibleTiles (updateVisibility (updateVisibility st)) = visibleTiles (updateVisibility st)"
    by (rule updateVisibility_idem_visible)
next
  fix k t
  assume a: "map_of (tiles st) k = Some t \<and> visibility t \<noteq> Hidden"
  then have v: "vis st k \<noteq> None" "vis st k \<noteq> Some Hidden"
    by (simp_all add: vis_def)
  have "vis (updateVisibility st) k \<noteq> None"
    using v(1) by (simp add: sameFrame_vis_None [OF updateVisibility_frame])
  moreover have "vis (updateVisibility st) k \<noteq> Some Hidden"
    using v(2) updateVisibility_hidden by blast
  ultimately show "\<exists>t'. map_of (tiles (updateVisibility st)) k = Some t' \<and> visibility t' \<noteq> Hidden"
    by (auto simp: vis_def)
  have "vis (revealTilesAroundUnit st u) k \<noteq> None"
    using v(1) by (simp add: sameFrame_vis_None [OF revealTilesAroundUnit_frame])
  moreover have "vis (revealTilesAroundUnit st u) k \<noteq> Some Hidden"
    using v(2) by (simp add: revealTilesAroundUnit_vis)
  ultimately show "\<exists>t'. map_of (tiles (revealTilesAroundUnit st u)) k = Some t' \<and> visibility t' \<noteq> Hidden"
    by (auto simp: vis_def)
qed

theorem C8_updateVisibility_idempotent_witness:
  "visibleTiles (updateVisibility fogState) = {(0, 0), (1, 0)} \<and>
   visibleTiles (updateVisibility (updateVisibility fogState)) = {(0, 0), (1, 0)} \<and>
   (\<exists>t'. map_of (tiles (updateVisibility fogState)) (2, 0) = Some t' \<and> visibility t' \<noteq> Hidden)"
proof -
  have p: "map_of (players fogState) (currentPlayer fogState)
           = Some (exPlayer\<lparr>units := [exExplorer]\<rparr>)"
    by (simp add: fogState_def exState_def exStateWith_def)
  have k: "unitKeys exExplorer fogState = [(0, 0), (1, 0)]"
    by (simp add: unitKeys_def calculateUnitPerception_def applyRelicPerception_def
        getTilesInRadius_def inBounds_def fogState_def exState_def exStateWith_def
        exExplorer_def exPlayer_def exTile_def Let_def upto.simps)
  have d: "vis fogState q \<noteq> None \<longleftrightarrow> q \<in> {(0, 0), (1, 0), (2, 0)}" for q
    by (auto simp: vis_def fogState_def split: if_splits)
  have "vis (updateVisibility fogState) q = Some Visible \<longleftrightarrow> q \<in> {(0, 0), (1, 0)}" for q
    using d [of q] by (auto simp: updateVisibility_visible [OF p] k exPlayer_def)
  then have v: "visibleTiles (updateVisibility fogState) = {(0, 0), (1, 0)}"
    by (auto simp: visibleTiles_vis)
  have t: "map_of (tiles fogState) (2, 0) = Some ((exTile (2, 0))\<lparr>visibility := Visible\<rparr>) \<and>
           visibility ((exTile (2, 0))\<lparr>visibility := Visible\<rparr>) \<noteq> Hidden"
    by (simp add: fogState_def)
  show ?thesis
    using C8_updateVisibility_idempotent [of fogState exExplorer] t v by auto
qed


section \<open>The end of a turn\<close>

text \<open>
  The conversion steps of \<^verbatim>\<open>GameEngine.endTurn\<close>, for any state and player: the engine
  stores \<open>\<lfloor>divinity / 2\<rfloor>\<close> as aegis and zeroes divinity; \<^verbatim>\<open>TurnSystem.endTurn\<close> then
  overwrites aegis with the floor of the zeroed divinity times the spread base, which is 0.
\<close>

lemma endTurn_conversion:
  "map_option (\<lambda>p. (aegis p, divinity p))
     (map_of (players (TurnSystem_endTurn cfg pk
        (modifyPlayer pk (\<lambda>p. p\<lparr>divinity := 0\<rparr>)
          (modifyPlayer pk (\<lambda>p. p\<lparr>aegis := of_int \<lfloor>divinity p / 2\<rfloor>\<rparr>) st)))) pk)
   = map_option (\<lambda>p. (0, 0)) (map_of (players st) pk)"
  by (auto simp: TurnSystem_endTurn_def modifyUnits_def Let_def map_of_players_modifyPlayer
      option.map_comp comp_def split: option.splits)

text \<open>
  C3 (the code at the failing input): the claim has a player who ends the turn with
  unspent divinity \<open>d\<close> hold aegis \<open>\<lfloor>d / 2\<rfloor>\<close> and divinity 0 afterwards. In a game of
  two players, the human player ends the turn with 7 divinity: the call succeeds, the
  turn passes to the AI player, and the human player holds divinity 0 and aegis 0, not 3.
\<close>

theorem C3_endTurn_aegis_lost:
  "map_option divinity (map_of (players twoPlayerState) (currentPlayer twoPlayerState)) = Some 7 \<and>
   fst (endTurn defaultGameConfig quietEnv twoPlayerState) \<and>
   currentPlayer (fst (snd (endTurn defaultGameConfig quietEnv twoPlayerState))) = AI1 \<and>
   map_option (\<lambda>p. (aegis p, divinity p))
     (map_of (players (fst (snd (endTurn defaultGameConfig quietEnv twoPlayerState)))) Player)
   = Some (0, 0)"
  by (simp add: endTurn_def twoPlayerState_def exState_def exStateWith_def exPlayer_def aiPlayer_def
      quietEnv_def exEnv_def defaultGameConfig_def Let_def modifyPlayer_def modify_def
      TurnSystem_endTurn_def modifyUnits_def storeUnits_def indexOf_def startTurn_def
      TurnSystem_startTurn_def calculateDivinityIncome_def calculateFaithIncome_def
      calculateShadowEnergyIncome_def applyRelicModifiers_def removeExpiredWights_def
      processEvents_def checkForRandomEvents_def nextRandom_def updateVisibility_def
      downgradeVisible_def exTile_def)


section \<open>Submitting actions\<close>


lemma setProgress_frame [simp]:
  "victoryConditions (setProgress pk c v st) = victoryConditions st"
  by (simp add: setProgress_def modifyPlayer_def)


lemma checkPlayerVictoryCondition_conditions:
  "victoryConditions (snd (checkPlayerVictoryCondition st pk player c)) = victoryConditions st"
  by (cases c)
     (simp_all add: checkPlayerVictoryCondition_def checkConquestVictory_def
       checkSanctifierVictory_def checkShadowAccordVictory_def checkRelicAscensionVictory_def
       Let_def)


lemma checkConditions_conditions:
  "victoryConditions (snd (checkConditions pk cs st)) = victoryConditions st"
proof (induction cs arbitrary: st)
  case Nil
  then show ?case by simp
next
  case (Cons c cs)
  show ?case
  proof (cases "map_of (players st) pk")
    case None
    then show ?thesis by (simp add: Cons.IH)
  next
    case (Some player)
    obtain won st' where w: "checkPlayerVictoryCondition st pk player c = (won, st')"
      by (cases "checkPlayerVictoryCondition st pk player c")
    have r: "victoryConditions st' = victoryConditions st"
      using checkPlayerVictoryCondition_conditions [of st pk player c] w by simp
    show ?thesis
      using Some w r by (simp add: Cons.IH)
  qed
qed





lemma payDivinity_resources:
  assumes "map_of (players st) (currentPlayer st) = Some p"
  shows "map_option resources (map_of (players (payDivinity a st)) (currentPlayer st))
         = Some (divinity p - costDivinity a, faith p, shadowEnergy p)"
  using assms by (simp add: payDivinity_def map_of_players_modifyPlayer resources_def)

lemma currentPlayer_modifyTile [simp]: "currentPlayer (modifyTile k f st) = currentPlayer st"
  by (simp add: modifyTile_def)

lemma currentPlayer_modifyPlayer [simp]: "currentPlayer (modifyPlayer k f st) = currentPlayer st"
  by (simp add: modifyPlayer_def)

lemma currentPlayer_payDivinity [simp]: "currentPlayer (payDivinity a st) = currentPlayer st"
  by (simp add: payDivinity_def)









lemma executeAction_accepted:
  assumes "validateAction (state eng) a"
    and "dispatch (config eng) e (state eng) a = (ok, st1, a1, e1)"
  shows "executeAction e eng a
         = (ok, eng\<lparr>state := (snd (checkVictory (updateVisibility st1)))\<lparr>phase := Victory\<rparr>,
                    actionHistory := actionHistory eng @ [a1\<lparr>success := ok\<rparr>]\<rparr>, e1)"
  using assms by (simp add: executeAction_def Let_def truthy_def split: prod.splits)



lemma executeAction_sets_Victory:
  assumes "validateAction (state eng) a"
  shows "phase (state (fst (snd (executeAction e eng a)))) = Victory"
proof -
  obtain r st1 a1 e1 where d: "dispatch (config eng) e (state eng) a = (r, st1, a1, e1)"
    by (cases "dispatch (config eng) e (state eng) a") auto
  show ?thesis
    by (simp add: executeAction_accepted [OF assms d])
qed








section \<open>The AI turn loop\<close>

text \<open>
  With less than 2 divinity the capture, sanctify, fortify and summon generators produce
  nothing; every candidate is an explore action, which \<^verbatim>\<open>simulateAction\<close> prices at 0.
\<close>

lemma poor_no_capture: "divinity p < 2 \<Longrightarrow> generateCaptureActions st p = []"
  by (auto simp: generateCaptureActions_def split: option.splits)

lemma poor_no_sanctify: "divinity p < 2 \<Longrightarrow> generateSanctifyActions st p = []"
  by (auto simp: generateSanctifyActions_def split: option.splits)

lemma poor_no_fortify: "divinity p < 2 \<Longrightarrow> generateFortifyActions st p = []"
  by (auto simp: generateFortifyActions_def split: option.splits)

lemma poor_no_summon: "divinity p < 2 \<Longrightarrow> generateSummonActions st p = []"
  by (simp add: generateSummonActions_def)

lemma poor_candidates:
  "divinity p < 2 \<Longrightarrow> generateCandidates st p = generateExploreActions st p"
  by (simp add: generateCandidates_def poor_no_capture poor_no_sanctify poor_no_fortify
      poor_no_summon)

lemma explore_candidates:
  "c \<in> set (generateExploreActions st p) \<Longrightarrow> atype (caction c) = Explore"
  by (auto simp: generateExploreActions_def mkCandidate_def mkAction_def
      split: if_splits option.splits)

lemma scoreCandidates_actions:
  "map caction (fst (scoreCandidates st p cs e)) = map caction cs"
proof (induction cs arbitrary: e)
  case Nil
  then show ?case by simp
next
  case (Cons c cs)
  obtain r e1 where r: "nextRandom e = (r, e1)"
    by (cases "nextRandom e")
  obtain cs' e2 where t: "scoreCandidates st p cs e1 = (cs', e2)"
    by (cases "scoreCandidates st p cs e1")
  have "map caction cs' = map caction cs"
    using Cons.IH [of e1] t by simp
  then show ?case
    by (simp add: r t)
qed

lemma applyPersonalityWeights_action [simp]:
  "caction (applyPersonalityWeights p c) = caction c"
  by (simp add: applyPersonalityWeights_def Let_def split: Personality.splits option.splits)

lemma selectBestAction_member:
  assumes "generateCandidates st p \<noteq> []"
  shows "\<exists>a e'. selectBestAction st p e = (Some a, e') \<and>
                a \<in> caction ` set (generateCandidates st p)"
proof -
  obtain scored e' where s: "scoreCandidates st p (generateCandidates st p) e = (scored, e')"
    by (cases "scoreCandidates st p (generateCandidates st p) e")
  let ?w = "map (applyPersonalityWeights p) scored"
  have m: "map caction scored = map caction (generateCandidates st p)"
    using scoreCandidates_actions [of st p "generateCandidates st p" e] s by simp
  then have n: "?w \<noteq> []"
    using assms by auto
  then have "sort_key (\<lambda>c. - score c) ?w \<noteq> []"
    by (metis length_0_conv length_sort)
  then have "hd (sort_key (\<lambda>c. - score c) ?w) \<in> set (sort_key (\<lambda>c. - score c) ?w)"
    by (rule hd_in_set)
  then have "hd (sort_key (\<lambda>c. - score c) ?w) \<in> set ?w"
    by simp
  then have "caction (hd (sort_key (\<lambda>c. - score c) ?w)) \<in> caction ` set ?w"
    by (rule imageI)
  moreover have "caction ` set ?w = set (map caction scored)"
    by (auto simp: image_iff)
  ultimately have "caction (hd (sort_key (\<lambda>c. - score c) ?w))
                   \<in> caction ` set (generateCandidates st p)"
    using m by (metis set_map)
  then show ?thesis
    using n s by (simp add: selectBestAction_def Let_def)
qed

lemma modify_id: "map_of al k = Some v \<Longrightarrow> f v = v \<Longrightarrow> modify k f al = al"
  by (simp add: modify_def update_triv)

lemma simulateAction_explore:
  assumes "map_of (players st) pk = Some p" and "0 \<le> divinity p" and "atype a = Explore"
  shows "simulateAction pk a st = st"
proof -
  have "p\<lparr>divinity := max 0 (divinity p - baseCost (atype a))\<rparr> = p"
    using assms(2,3) by (simp add: baseCost_def max_def)
  then have "modify pk (\<lambda>p. p\<lparr>divinity := max 0 (divinity p - baseCost (atype a))\<rparr>) (players st)
        = players st"
    by (rule modify_id [OF assms(1)])
  then show ?thesis
    by (simp add: simulateAction_def modifyPlayer_def)
qed

lemma executeTurnLoop_stuck:
  assumes p: "map_of (players st) pk = Some p"
    and d: "0 < divinity p" "divinity p < 2"
    and x: "generateExploreActions st p \<noteq> []"
  shows "executeTurnLoop n pk st e acts = None"
proof (induction n arbitrary: e acts)
  case 0
  then show ?case by simp
next
  case (Suc n)
  have c: "generateCandidates st p = generateExploreActions st p"
    using d(2) by (rule poor_candidates)
  from selectBestAction_member [of st p e] x c
  obtain a e' where s: "selectBestAction st p e = (Some a, e')"
    and a: "a \<in> caction ` set (generateExploreActions st p)"
    by auto
  have "atype a = Explore"
    using a explore_candidates by auto
  moreover have "0 \<le> divinity p"
    using d(1) by simp
  ultimately have "simulateAction pk a st = st"
    using p by (simp add: simulateAction_explore)
  then show ?case
    using p d(1) s Suc.IH by simp
qed

text \<open>
  C7 (the code at the failing input): the claim has the AI turn loop terminate for every
  game state and AI player. For the AI player with 1 divinity and an explorer that can
  reach hidden tiles, the loop is still running after any number of rounds, whatever
  \<^verbatim>\<open>Math.random()\<close> returns: every round selects an explore action, whose simulated cost
  is 0, and leaves the state as it was.
\<close>

theorem C7_executeTurn_never_returns:
  "executeTurn fuel AI1 stuckState e = None"
proof -
  let ?p = "aiPlayer\<lparr>divinity := 1, ownedTiles := [], sanctifiedTiles := [], units := [aiExplorer]\<rparr>"
  have p: "map_of (players stuckState) AI1 = Some ?p"
    by (simp add: stuckState_def)
  have x: "generateExploreActions stuckState ?p \<noteq> []"
    by (simp add: generateExploreActions_def aiTilesInRadius_def inBounds_def stuckState_def
        exState_def exStateWith_def aiExplorer_def exExplorer_def exTile_def upto.simps)
  show ?thesis
    unfolding executeTurn_def
    by (rule executeTurnLoop_stuck [OF p _ _ x]) simp_all
qed


section \<open>Save and load\<close>

lemma those_map_Some:
  "(\<And>x. x \<in> set xs \<Longrightarrow> f x = Some (g x)) \<Longrightarrow> those (map f xs) = Some (map g xs)"
  by (induction xs) simp_all

lemma withoutUndefined_primitive: "isPrimitive v \<Longrightarrow> withoutUndefined v = v"
  by (cases v) (simp_all add: isPrimitive_def)

lemma withoutUndefined_JStr: "(withoutUndefined v = JStr s) = (v = JStr s)"
  by (cases v) auto

lemma withoutUndefined_defined: "v \<noteq> JUndefined \<Longrightarrow> withoutUndefined v \<noteq> JUndefined"
  by (cases v) auto

text \<open>Filling a fresh \<^verbatim>\<open>Map\<close> or \<^verbatim>\<open>Set\<close> from distinct primitives keeps them all, in order.\<close>

lemma fold_mapSet_distinct:
  "distinct (map fst (acc @ kvs)) \<Longrightarrow> list_all (\<lambda>(k, v). isPrimitive k) kvs \<Longrightarrow>
   fold (\<lambda>(k, v). mapSet k v) kvs acc = acc @ kvs"
proof (induction kvs arbitrary: acc)
  case Nil
  then show ?case by simp
next
  case (Cons e kvs)
  obtain k v where e: "e = (k, v)" by (cases e)
  from Cons.prems e have nk: "k \<notin> fst ` set acc" and p: "isPrimitive k" by auto
  from nk have u: "AList.update k v acc = acc @ [(k, v)]"
    by (induction acc) auto
  have s: "mapSet k v acc = acc @ [(k, v)]" using p u by (simp add: mapSet_def)
  have "fold (\<lambda>(k, v). mapSet k v) kvs (acc @ [(k, v)]) = (acc @ [(k, v)]) @ kvs"
    using Cons.prems e by (intro Cons.IH) auto
  then show ?case using e s by simp
qed

lemma fold_setAdd_distinct:
  "distinct (acc @ xs) \<Longrightarrow> fold setAdd xs acc = acc @ xs"
proof (induction xs arbitrary: acc)
  case Nil
  then show ?case by simp
next
  case (Cons x xs)
  have s: "setAdd x acc = acc @ [x]" using Cons.prems by (simp add: setAdd_def)
  have "fold setAdd xs (acc @ [x]) = (acc @ [x]) @ xs"
    using Cons.prems by (intro Cons.IH) auto
  then show ?case using s by simp
qed

text \<open>A plain object that was not tagged is not taken for a collection when it is read back.\<close>

lemma untagged_after:
  assumes "\<not> tagged kvs"
  shows "propertyOr (map (\<lambda>(k, v). (k, withoutUndefined v))
           (filter (\<lambda>(k, v). v \<noteq> JUndefined) kvs)) ''dataType'' \<noteq> JStr ''Map''"
    and "propertyOr (map (\<lambda>(k, v). (k, withoutUndefined v))
           (filter (\<lambda>(k, v). v \<noteq> JUndefined) kvs)) ''dataType'' \<noteq> JStr ''Set''"
  using assms
  by (auto simp: tagged_def Let_def map_of_map propertyOr_def withoutUndefined_JStr
           split: option.splits)

text \<open>The parts of an object, an array and a map come back one by one.\<close>

lemma object_properties:
  assumes "\<And>k v. (k, v) \<in> set kvs \<Longrightarrow> v \<noteq> JUndefined \<Longrightarrow>
             \<exists>j. stringify v = Some j \<and> revive j = Some (withoutUndefined v)"
  shows "those (map (\<lambda>(k, j). map_option (Pair k) (revive j))
            (definedProperties (map (\<lambda>(k, v). (k, stringify v)) kvs))) =
         Some (map (\<lambda>(k, v). (k, withoutUndefined v)) (filter (\<lambda>(k, v). v \<noteq> JUndefined) kvs))"
  using assms
proof (induction kvs)
  case Nil
  then show ?case by (simp add: definedProperties_def)
next
  case (Cons e kvs)
  obtain k v where e: "e = (k, v)" by (cases e)
  have ih: "those (map (\<lambda>(k, j). map_option (Pair k) (revive j))
            (definedProperties (map (\<lambda>(k, v). (k, stringify v)) kvs))) =
         Some (map (\<lambda>(k, v). (k, withoutUndefined v)) (filter (\<lambda>(k, v). v \<noteq> JUndefined) kvs))"
    using Cons.prems by (intro Cons.IH) auto
  show ?case
  proof (cases "v = JUndefined")
    case True
    then show ?thesis using ih e by (simp add: definedProperties_def)
  next
    case False
    then obtain j where j: "stringify v = Some j" "revive j = Some (withoutUndefined v)"
      using Cons.prems [of k v] e by auto
    then show ?thesis using ih e False by (simp add: definedProperties_def)
  qed
qed

lemma elements_roundtrip:
  assumes "\<And>x. x \<in> set xs \<Longrightarrow>
             \<exists>j. stringify x = Some j \<and> revive j = Some (withoutUndefined x)"
  shows "those (map revive (map (\<lambda>x. orNull (stringify x)) xs)) = Some (map withoutUndefined xs)"
proof -
  have "those (map (\<lambda>x. revive (orNull (stringify x))) xs) = Some (map withoutUndefined xs)"
  proof (rule those_map_Some)
    fix x assume "x \<in> set xs"
    then obtain j where "stringify x = Some j" "revive j = Some (withoutUndefined x)"
      using assms by blast
    then show "revive (orNull (stringify x)) = Some (withoutUndefined x)" by (simp add: orNull_def)
  qed
  then show ?thesis by (simp add: comp_def)
qed

lemma entries_roundtrip:
  assumes "\<And>k v. (k, v) \<in> set es \<Longrightarrow>
             (\<exists>j. stringify k = Some j \<and> revive j = Some (withoutUndefined k)) \<and>
             (\<exists>j. stringify v = Some j \<and> revive j = Some (withoutUndefined v))"
  shows "those (map revive
           (map (\<lambda>(k, v). JsonArr [orNull (stringify k), orNull (stringify v)]) es)) =
         Some (map (\<lambda>(k, v). JArr [withoutUndefined k, withoutUndefined v]) es)"
proof -
  have "those (map (\<lambda>e. revive (case e of (k, v) \<Rightarrow>
                 JsonArr [orNull (stringify k), orNull (stringify v)])) es) =
        Some (map (\<lambda>(k, v). JArr [withoutUndefined k, withoutUndefined v]) es)"
  proof (rule those_map_Some)
    fix e assume m: "e \<in> set es"
    obtain k v where e: "e = (k, v)" by (cases e)
    from assms [of k v] m e obtain jk jv where
      "stringify k = Some jk" "revive jk = Some (withoutUndefined k)"
      "stringify v = Some jv" "revive jv = Some (withoutUndefined v)" by blast
    then show "revive (case e of (k, v) \<Rightarrow> JsonArr [orNull (stringify k), orNull (stringify v)]) =
               Some (case e of (k, v) \<Rightarrow> JArr [withoutUndefined k, withoutUndefined v])"
      using e by (simp add: orNull_def reviver_def)
  qed
  then show ?thesis by (simp add: comp_def)
qed

text \<open>
  Every safe value is written, and reading the text back gives the value again, up to
  the properties that were \<^verbatim>\<open>undefined\<close>.
\<close>

lemma roundtrip:
  "jsonSafe v \<Longrightarrow> \<exists>j. stringify v = Some j \<and> revive j = Some (withoutUndefined v)"
proof (induction v)
  case JUndefined
  then show ?case by simp
next
  case JNull
  then show ?case by (simp add: reviver_def)
next
  case (JBool b)
  then show ?case by (simp add: reviver_def)
next
  case (JNum n)
  then show ?case by (cases n) (simp_all add: reviver_def)
next
  case (JStr s)
  then show ?case by (simp add: reviver_def)
next
  case (JArr xs)
  have "those (map revive (map (\<lambda>x. orNull (stringify x)) xs)) = Some (map withoutUndefined xs)"
    using JArr by (intro elements_roundtrip) (auto simp: list_all_iff)
  then show ?case by (simp add: reviver_def)
next
  case (JObj kvs)
  have "those (map (\<lambda>(k, j). map_option (Pair k) (revive j))
            (definedProperties (map (\<lambda>(k, v). (k, stringify v)) kvs))) =
         Some (map (\<lambda>(k, v). (k, withoutUndefined v)) (filter (\<lambda>(k, v). v \<noteq> JUndefined) kvs))"
  proof (rule object_properties)
    fix k v assume m: "(k, v) \<in> set kvs" and d: "v \<noteq> JUndefined"
    with JObj.prems have "jsonSafe v" by (auto simp: list_all_iff)
    with JObj.IH m show "\<exists>j. stringify v = Some j \<and> revive j = Some (withoutUndefined v)"
      by fastforce
  qed
  moreover from JObj.prems have "\<not> tagged kvs" by simp
  ultimately show ?case
    using untagged_after [of kvs] by (simp add: reviver_def)
next
  case (JMap es)
  have e: "those (map revive
             (map (\<lambda>(k, v). JsonArr [orNull (stringify k), orNull (stringify v)]) es)) =
           Some (map (\<lambda>(k, v). JArr [withoutUndefined k, withoutUndefined v]) es)"
  proof (rule entries_roundtrip)
    fix k v assume m: "(k, v) \<in> set es"
    with JMap.prems have "jsonSafe k" "jsonSafe v" by (auto simp: list_all_iff)
    with JMap.IH m show "(\<exists>j. stringify k = Some j \<and> revive j = Some (withoutUndefined k)) \<and>
             (\<exists>j. stringify v = Some j \<and> revive j = Some (withoutUndefined v))"
      by fastforce
  qed
  have p: "list_all (\<lambda>(k, v). isPrimitive k) es" using JMap.prems by (auto simp: list_all_iff)
  have k: "map (\<lambda>(k, v). (withoutUndefined k, withoutUndefined v)) es =
           map (\<lambda>(k, v). (k, withoutUndefined v)) es"
    using p by (auto simp: list_all_iff withoutUndefined_primitive)
  have t: "those (map entryOf (map (\<lambda>(k, v). JArr [withoutUndefined k, withoutUndefined v]) es)) =
           Some (map (\<lambda>(k, v). (k, withoutUndefined v)) es)"
    unfolding k [symmetric]
    by (rule trans [OF _ those_map_Some [where f = "\<lambda>e. entryOf (case e of (k, v) \<Rightarrow>
          JArr [withoutUndefined k, withoutUndefined v])"]]) (auto simp: comp_def entryOf_def)
  have f: "fold (\<lambda>(k, v). mapSet k v) (map (\<lambda>(k, v). (k, withoutUndefined v)) es) [] =
           [] @ map (\<lambda>(k, v). (k, withoutUndefined v)) es"
  proof (rule fold_mapSet_distinct)
    have "map fst (map (\<lambda>(k, v). (k, withoutUndefined v)) es) = map fst es" by (induction es) auto
    then show "distinct (map fst ([] @ map (\<lambda>(k, v). (k, withoutUndefined v)) es))"
      using JMap.prems by (simp del: map_map)
    show "list_all (\<lambda>(k, v). isPrimitive k) (map (\<lambda>(k, v). (k, withoutUndefined v)) es)"
      using p by (auto simp: list_all_iff)
  qed
  show ?case using e t f k
    by (simp add: reviver_def propertyOr_def newMap_def mapOfEntries_def)
next
  case (JSet xs)
  have e: "those (map revive (map (\<lambda>x. orNull (stringify x)) xs)) = Some (map withoutUndefined xs)"
    using JSet by (intro elements_roundtrip) (auto simp: list_all_iff)
  have k: "map withoutUndefined xs = xs"
    using JSet.prems by (auto simp: list_all_iff withoutUndefined_primitive intro: map_idI)
  have f: "fold setAdd xs [] = [] @ xs"
    using JSet.prems by (intro fold_setAdd_distinct) simp
  show ?case using e k f
    by (simp add: reviver_def propertyOr_def newSet_def)
qed

text \<open>
  C9 (as stated): the round trip is claimed for every game state. Once victory is evaluated in a game where no
  tile is revealed, the conquest percentage of a player who owns nothing is \<^verbatim>\<open>0 / 0\<close>,
  that is \<^verbatim>\<open>NaN\<close>; the saved text holds \<^verbatim>\<open>null\<close> in its place, and the state read
  back has \<^verbatim>\<open>null\<close> where the original has \<^verbatim>\<open>NaN\<close>.
\<close>

theorem C9_nan_progress_counterexample:
  "encodePlayers (snd (checkVictory unexploredState)) =
     JObj [(''players'', JMap [(JStr ''player'', JObj [(''victoryProgress'',
        JMap [(JStr ''conquest'', JNum NaN), (JStr ''sanctifier'', JNum (Num 0)),
              (JStr ''shadow_accord'', JNum (Num 0))])])])] \<and>
   Option.bind (exportState (encodePlayers (snd (checkVictory unexploredState)))
                  savedConfig (JArr [])) importState =
     Some (JObj [(''players'', JMap [(JStr ''player'', JObj [(''victoryProgress'',
             JMap [(JStr ''conquest'', JNull), (JStr ''sanctifier'', JNum (Num 0)),
                   (JStr ''shadow_accord'', JNum (Num 0))])])])],
           savedConfig, JArr []) \<and>
   Option.bind (exportState (encodePlayers (snd (checkVictory unexploredState)))
                  savedConfig (JArr [])) importState \<noteq>
     Some (encodePlayers (snd (checkVictory unexploredState)), savedConfig, JArr [])"
proof -
  have c: "encodePlayers (snd (checkVictory unexploredState)) =
     JObj [(''players'', JMap [(JStr ''player'', JObj [(''victoryProgress'',
        JMap [(JStr ''conquest'', JNum NaN), (JStr ''sanctifier'', JNum (Num 0)),
              (JStr ''shadow_accord'', JNum (Num 0))])])])]"
    by (simp add: encodePlayers_def encodeProgress_def ownerName_def conditionName_def
          checkVictory_def unexploredState_def exStateWith_def exPlayer_def exTile_def
          checkPlayerVictoryCondition_def checkConquestVictory_def checkSanctifierVictory_def
          checkShadowAccordVictory_def checkDefeatConditions_def setProgress_def
          modifyPlayer_def modify_def jsDivide_def times100_def reaches_def thresholdOr_def
          Let_def)
  show ?thesis
    unfolding c
    by (simp add: exportState_def importState_def savedConfig_def definedProperties_def
          orNull_def reviver_def propertyOr_def newMap_def mapOfEntries_def entryOf_def
          mapSet_def isPrimitive_def)
qed

text \<open>
  C9 (amended): whenever the state, the configuration and the action history are safe
  values (every number finite; no array element, map key, map value or set element
  \<^verbatim>\<open>undefined\<close>; map keys and set elements distinct primitives; no plain object whose
  \<^verbatim>\<open>dataType\<close> says \<^verbatim>\<open>'Map'\<close> or \<^verbatim>\<open>'Set'\<close>), \<^verbatim>\<open>exportState\<close> produces a text and
  \<^verbatim>\<open>importState\<close> of that text restores all three, every map and set included, equal to
  the originals up to the properties that were set to \<^verbatim>\<open>undefined\<close>.
\<close>

theorem C9_export_import_roundtrip:
  assumes "jsonSafe st" and "jsonSafe cfg" and "jsonSafe history"
  shows "Option.bind (exportState st cfg history) importState =
           Some (withoutUndefined st, withoutUndefined cfg, withoutUndefined history)"
proof -
  let ?saved = "JObj [(''state'', st), (''config'', cfg), (''actionHistory'', history)]"
  have d: "st \<noteq> JUndefined" "cfg \<noteq> JUndefined" "history \<noteq> JUndefined"
    using assms by auto
  have "jsonSafe ?saved"
    using assms d by (simp add: tagged_def propertyOr_def)
  then obtain j where j: "stringify ?saved = Some j" "revive j = Some (withoutUndefined ?saved)"
    using roundtrip by blast
  have w: "withoutUndefined ?saved =
           JObj [(''state'', withoutUndefined st), (''config'', withoutUndefined cfg),
                 (''actionHistory'', withoutUndefined history)]"
    using d by simp
  show ?thesis
    using j w by (simp add: exportState_def importState_def propertyOr_def)
qed

theorem C9_export_import_roundtrip_witness:
  "jsonSafe savedState \<and> jsonSafe savedConfig \<and> jsonSafe (JArr []) \<and>
   Option.bind (exportState savedState savedConfig (JArr [])) importState =
     Some (JObj
       [(''turn'', JNum (Num 3)), (''phase'', JStr ''playing''), (''currentPlayer'', JStr ''player''),
        (''players'', JMap [(JStr ''player'', JObj
            [(''divinity'', JNum (Num 7)), (''units'', JArr []),
             (''ownedTiles'', JSet [JStr ''0,0'', JStr ''1,0'']),
             (''victoryProgress'', JMap [(JStr ''conquest'', JNum (Num (200 / 3)))])])]),
        (''tiles'', JMap [(JStr ''0,0'', JObj
            [(''position'', JObj [(''x'', JNum (Num 0)), (''y'', JNum (Num 0))]),
             (''owner'', JStr ''player''), (''sanctified'', JBool False)])]),
        (''victoryConditions'', JSet [JStr ''conquest'', JStr ''sanctifier'']),
        (''encircleRule'', JBool False)],
       savedConfig, JArr [])"
proof -
  have s: "jsonSafe savedState"
    by (simp add: savedState_def tagged_def propertyOr_def isPrimitive_def)
  have c: "jsonSafe savedConfig"
    by (simp add: savedConfig_def tagged_def propertyOr_def)
  have h: "jsonSafe (JArr [])" by simp
  have "withoutUndefined savedConfig = savedConfig" by (simp add: savedConfig_def)
  then show ?thesis
    using C9_export_import_roundtrip [OF s c h] s c by (simp add: savedState_def)
qed


end
